(* ===== verification/Prelude.thy ===== *)
theory Prelude
  imports Complex_Main "HOL-Library.Char_ord" "HOL-Library.List_Lexorder" "HOL-Library.Multiset"
begin

text \<open>
  What every other theory of the development shares: the exceptions of the program as values,
  the result type that carries them, and the three loop shapes the code uses over lists (a loop
  that may raise, a loop that collects, a loop that threads a state and may raise). The
  collections \<open>res_simps\<close> and \<open>res_elims\<close> hold the rules that take a successful run of such a
  loop apart; component proofs use them with \<open>simp add:\<close> and \<open>auto elim!:\<close>.
\<close>

named_theorems res_simps \<open>successful and failed runs of the result combinators\<close>
named_theorems str_simps \<open>facts on the Python string primitives\<close>

section \<open>Exceptions\<close>

text \<open>
  The five classes of \<^verbatim>\<open>continuo_python_runtime/errors.py\<close> and the other exception
  classes that the source raises, or that it tells apart in an \<^verbatim>\<open>except\<close> clause. An exception
  of any other class, raised by a library or by user code, is \<open>OtherError\<close> with its class name.
\<close>

datatype harness_class = ContractError | ReadError | ScriptError | ConformError | LoadError

datatype exn_class =
    Harness harness_class
  | ValueError
  | TypeError
  | KeyError
  | LookupError
  | DuplicateKeyError
  | UnicodeDecodeError
  | TokenError
  | AdapterDiscoveryError
  | AssertionError
  | OSError
  | OtherError string

datatype exn = Exn (exn_kind: exn_class) (exn_text: string)

text \<open>The subclass tests of the \<^verbatim>\<open>except\<close> clauses.\<close>

definition is_harness_error :: "exn \<Rightarrow> bool" where
  "is_harness_error e = (case exn_kind e of Harness c \<Rightarrow> True | _ \<Rightarrow> False)"

definition is_value_error :: "exn \<Rightarrow> bool" where
  "is_value_error e \<longleftrightarrow> exn_kind e \<in> {ValueError, DuplicateKeyError, UnicodeDecodeError}"

lemma is_harness_error_simps [simp]:
  "is_harness_error (Exn (Harness c) m)"
  "\<not> is_harness_error (Exn ValueError m)"
  "\<not> is_harness_error (Exn TypeError m)"
  "\<not> is_harness_error (Exn DuplicateKeyError m)"
  by (simp_all add: is_harness_error_def)

lemma is_value_error_simps [simp]:
  "is_value_error (Exn ValueError m)"
  "is_value_error (Exn DuplicateKeyError m)"
  "is_value_error (Exn UnicodeDecodeError m)"
  "\<not> is_value_error (Exn (Harness c) m)"
  "\<not> is_value_error (Exn TypeError m)"
  by (simp_all add: is_value_error_def)

type_synonym 'a res = "exn + 'a"

abbreviation raise_contract :: "string \<Rightarrow> 'a res" where
  "raise_contract m \<equiv> Inl (Exn (Harness ContractError) m)"

abbreviation raise_conform :: "string \<Rightarrow> 'a res" where
  "raise_conform m \<equiv> Inl (Exn (Harness ConformError) m)"

abbreviation raise_load :: "string \<Rightarrow> 'a res" where
  "raise_load m \<equiv> Inl (Exn (Harness LoadError) m)"

abbreviation raise_value :: "string \<Rightarrow> 'a res" where
  "raise_value m \<equiv> Inl (Exn ValueError m)"

section \<open>Sequencing\<close>

text \<open>\<open>bind_res\<close> is "run this statement; if it raised, stop": the first exception wins.\<close>

definition bind_res :: "'e + 'a \<Rightarrow> ('a \<Rightarrow> 'e + 'b) \<Rightarrow> 'e + 'b" where
  "bind_res x f = (case x of Inl e \<Rightarrow> Inl e | Inr a \<Rightarrow> f a)"

lemma bind_res_Inl [simp]: "bind_res (Inl e) f = Inl e"
  by (simp add: bind_res_def)

lemma bind_res_Inr [simp]: "bind_res (Inr a) f = f a"
  by (simp add: bind_res_def)

lemma bind_res_eq_Inr [res_simps]:
  "bind_res x f = Inr b \<longleftrightarrow> (\<exists>a. x = Inr a \<and> f a = Inr b)"
  by (cases x) simp_all

lemma bind_res_eq_Inl [res_simps]:
  "bind_res x f = Inl e \<longleftrightarrow> x = Inl e \<or> (\<exists>a. x = Inr a \<and> f a = Inl e)"
  by (cases x) simp_all

lemma bind_res_assoc: "bind_res (bind_res x f) g = bind_res x (\<lambda>a. bind_res (f a) g)"
  by (cases x) simp_all

lemma bind_res_cong [fundef_cong]:
  "x = y \<Longrightarrow> (\<And>a. y = Inr a \<Longrightarrow> f a = g a) \<Longrightarrow> bind_res x f = bind_res y g"
  by (cases y) simp_all

text \<open>\<open>require b e\<close> is \<^verbatim>\<open>if not b: raise e\<close>.\<close>

definition require :: "bool \<Rightarrow> 'e \<Rightarrow> 'e + unit" where
  "require b e = (if b then Inr () else Inl e)"

lemma require_eq_Inr [res_simps]: "require b e = Inr u \<longleftrightarrow> b"
  by (simp add: require_def)

lemma require_eq_Inl [res_simps]: "require b e = Inl e' \<longleftrightarrow> \<not> b \<and> e' = e"
  by (auto simp: require_def)

lemma require_simps [simp]: "require True e = Inr ()" "require False e = Inl e"
  by (simp_all add: require_def)

text \<open>\<open>map_exn\<close> is \<^verbatim>\<open>except ... as exc: raise g(exc)\<close>.\<close>

definition map_exn :: "('e \<Rightarrow> 'f) \<Rightarrow> 'e + 'a \<Rightarrow> 'f + 'a" where
  "map_exn g x = (case x of Inl e \<Rightarrow> Inl (g e) | Inr a \<Rightarrow> Inr a)"

lemma map_exn_simps [simp]: "map_exn g (Inl e) = Inl (g e)" "map_exn g (Inr a) = Inr a"
  by (simp_all add: map_exn_def)

lemma map_exn_eq_Inr [res_simps]: "map_exn g x = Inr a \<longleftrightarrow> x = Inr a"
  by (cases x) simp_all

lemma map_exn_eq_Inl [res_simps]: "map_exn g x = Inl e \<longleftrightarrow> (\<exists>e'. x = Inl e' \<and> e = g e')"
  by (cases x) auto

section \<open>Loops over a list\<close>

text \<open>\<open>traverse\<close> collects the results of a loop body that may raise; \<open>fold_res\<close> threads a state.\<close>

fun traverse :: "('a \<Rightarrow> 'e + 'b) \<Rightarrow> 'a list \<Rightarrow> 'e + 'b list" where
  "traverse f [] = Inr []"
| "traverse f (x # xs) = bind_res (f x) (\<lambda>y. bind_res (traverse f xs) (\<lambda>ys. Inr (y # ys)))"

fun fold_res :: "('a \<Rightarrow> 's \<Rightarrow> 'e + 's) \<Rightarrow> 'a list \<Rightarrow> 's \<Rightarrow> 'e + 's" where
  "fold_res f [] s = Inr s"
| "fold_res f (x # xs) s = bind_res (f x s) (fold_res f xs)"

lemma traverse_eq_Inr: "traverse f xs = Inr ys \<longleftrightarrow> list_all2 (\<lambda>x y. f x = Inr y) xs ys"
proof (induction xs arbitrary: ys)
  case Nil
  then show ?case by auto
next
  case (Cons x xs)
  then show ?case by (auto simp: res_simps list_all2_Cons1)
qed

lemma traverse_cong [fundef_cong]:
  "xs = ys \<Longrightarrow> (\<And>x. x \<in> set ys \<Longrightarrow> f x = g x) \<Longrightarrow> traverse f xs = traverse g ys"
proof (induction xs arbitrary: ys)
  case (Cons x xs)
  then show ?case by (auto intro!: bind_res_cong)
qed simp

lemma traverse_length: "traverse f xs = Inr ys \<Longrightarrow> length ys = length xs"
  by (auto simp: traverse_eq_Inr dest: list_all2_lengthD)

lemma traverse_unit_Inr: "traverse f xs = Inr us \<Longrightarrow> x \<in> set xs \<Longrightarrow> \<exists>u. f x = Inr u"
  by (auto simp: traverse_eq_Inr list_all2_conv_all_nth in_set_conv_nth)

lemma fold_res_append: "fold_res f (xs @ ys) s = bind_res (fold_res f xs s) (fold_res f ys)"
  by (induction xs arbitrary: s) (auto simp: bind_res_def split: sum.splits)

lemma fold_res_invariant:
  assumes "fold_res f xs s = Inr s'" and "P s"
    and "\<And>x s s'. x \<in> set xs \<Longrightarrow> P s \<Longrightarrow> f x s = Inr s' \<Longrightarrow> P s'"
  shows "P s'"
  using assms
proof (induction xs arbitrary: s)
  case Nil
  then show ?case by simp
next
  case (Cons x xs)
  then obtain t where t: "f x s = Inr t" "fold_res f xs t = Inr s'"
    by (auto simp: res_simps)
  have "P t" by (rule Cons.prems(3) [OF _ Cons.prems(2) t(1)]) simp
  with t(2) show ?case
    by (rule Cons.IH) (auto intro: Cons.prems(3))
qed

text \<open>\<open>each\<close> runs a check on every element in order and stops at the first exception.\<close>

fun each :: "('a \<Rightarrow> 'e + unit) \<Rightarrow> 'a list \<Rightarrow> 'e + unit" where
  "each f [] = Inr ()"
| "each f (x # xs) = bind_res (f x) (\<lambda>_. each f xs)"

lemma each_eq_Inr [res_simps]: "each f xs = Inr u \<longleftrightarrow> (\<forall>x\<in>set xs. f x = Inr ())"
  by (induction xs) (auto simp: bind_res_eq_Inr)

lemma each_cong [fundef_cong]:
  "xs = ys \<Longrightarrow> (\<And>x. x \<in> set ys \<Longrightarrow> f x = g x) \<Longrightarrow> each f xs = each g ys"
proof (induction xs arbitrary: ys)
  case (Cons x xs)
  then show ?case by (auto intro!: bind_res_cong)
qed simp

lemma each_eq_Inl_ex: "each f xs = Inl e \<Longrightarrow> \<exists>x\<in>set xs. f x = Inl e"
  by (induction xs) (auto simp: bind_res_eq_Inl)

lemma each_Inl_or_Inr: "(\<exists>e. each f xs = Inl e) \<or> each f xs = Inr ()"
  by (cases "each f xs") auto

section \<open>Lists and maps\<close>

text \<open>The first element that satisfies a predicate: \<^verbatim>\<open>next((x for x in xs if p(x)), None)\<close>.\<close>

lemma find_Some_in_set: "find p xs = Some x \<Longrightarrow> x \<in> set xs \<and> p x"
  by (induction xs) (auto split: if_splits)

lemma find_None_set: "find p xs = None \<Longrightarrow> x \<in> set xs \<Longrightarrow> \<not> p x"
  by (auto simp: find_None_iff)

lemma mset_remove1_split: "x \<in> set xs \<Longrightarrow> mset xs = add_mset x (mset (remove1 x xs))"
  by simp

lemma map_of_distinct_iff:
  "distinct (map fst xs) \<Longrightarrow> map_of xs k = Some v \<longleftrightarrow> (k, v) \<in> set xs"
  by (simp add: map_of_eq_Some_iff)

end
