(* ===== verification/PyStr.thy ===== *)
theory PyStr
  imports Prelude
begin

text \<open>
  Python's \<^verbatim>\<open>str\<close> operations the source uses, as functions on \<^typ>\<open>string\<close>. A character
  stands for one code point below 256; the character classes (\<open>is_space\<close>, \<open>lower_char\<close>) are
  Python's on that range, so \<open>strip\<close> and \<open>words\<close> drop the non-ASCII blanks too. The lemmas show
  what the code relies on: whitespace normalisation is idempotent and its words carry no blank,
  splitting and joining at a separator are inverse, decimal printing is inverted by reading.
\<close>

section \<open>Characters\<close>

abbreviation code_point :: "char \<Rightarrow> nat" where
  "code_point c \<equiv> of_char c"

abbreviation newline :: char where "newline \<equiv> CHR 0x0A"
abbreviation carriage_return :: char where "carriage_return \<equiv> CHR 0x0D"
abbreviation quote1 :: char where "quote1 \<equiv> CHR 0x27"
abbreviation quote2 :: char where "quote2 \<equiv> CHR 0x22"
abbreviation backslash :: char where "backslash \<equiv> CHR 0x5C"

text \<open>\<^verbatim>\<open>str.isspace\<close> of one character.\<close>

definition is_space :: "char \<Rightarrow> bool" where
  "is_space c = (let n = code_point c
     in (9 \<le> n \<and> n \<le> 13) \<or> (28 \<le> n \<and> n \<le> 32) \<or> n = 133 \<or> n = 160)"

text \<open>\<^verbatim>\<open>\s\<close> of a regular expression compiled with \<^verbatim>\<open>re.ASCII\<close>.\<close>

definition ascii_space :: "char \<Rightarrow> bool" where
  "ascii_space c = (let n = code_point c in (9 \<le> n \<and> n \<le> 13) \<or> n = 32)"

definition is_digit :: "char \<Rightarrow> bool" where
  "is_digit c = (let n = code_point c in 48 \<le> n \<and> n \<le> 57)"

definition is_upper :: "char \<Rightarrow> bool" where
  "is_upper c = (let n = code_point c in 65 \<le> n \<and> n \<le> 90)"

definition is_lower :: "char \<Rightarrow> bool" where
  "is_lower c = (let n = code_point c in 97 \<le> n \<and> n \<le> 122)"

text \<open>ASCII case mapping, and \<^verbatim>\<open>str.lower\<close> of one character.\<close>

definition upper_char :: "char \<Rightarrow> char" where
  "upper_char c = (if is_lower c then char_of (code_point c - 32) else c)"

definition ascii_lower_char :: "char \<Rightarrow> char" where
  "ascii_lower_char c = (if is_upper c then char_of (code_point c + 32) else c)"

definition lower_char :: "char \<Rightarrow> char" where
  "lower_char c = (let n = code_point c
     in if is_upper c \<or> (192 \<le> n \<and> n \<le> 222 \<and> n \<noteq> 215) then char_of (n + 32) else c)"

abbreviation ascii_upper :: "string \<Rightarrow> string" where "ascii_upper \<equiv> map upper_char"
abbreviation ascii_lower :: "string \<Rightarrow> string" where "ascii_lower \<equiv> map ascii_lower_char"
abbreviation py_lower :: "string \<Rightarrow> string" where "py_lower \<equiv> map lower_char"

text \<open>
  \<^verbatim>\<open>str.casefold\<close>: lower case, with the sharp s spelled out. (The micro sign folds to a letter
  beyond this range that nothing else here folds to, so it is left alone: equality of two folded
  strings, the only use, is unchanged.)
\<close>

definition casefold :: "string \<Rightarrow> string" where
  "casefold s = concat (map (\<lambda>c. if code_point c = 223 then ''ss'' else [lower_char c]) s)"

lemma is_space_newline [simp]: "is_space newline" "is_space CHR '' ''" "is_space carriage_return"
  by (simp_all add: is_space_def)

lemma ascii_space_is_space: "ascii_space c \<Longrightarrow> is_space c"
  by (auto simp: ascii_space_def is_space_def Let_def)

lemma digit_not_space: "is_digit c \<Longrightarrow> \<not> is_space c"
  by (auto simp: is_digit_def is_space_def Let_def)

section \<open>Stripping, splitting, joining\<close>

definition lstrip :: "string \<Rightarrow> string" where
  "lstrip s = dropWhile is_space s"

definition rstrip :: "string \<Rightarrow> string" where
  "rstrip s = rev (dropWhile is_space (rev s))"

definition strip :: "string \<Rightarrow> string" where
  "strip s = rstrip (lstrip s)"

text \<open>\<^verbatim>\<open>s.rstrip(c)\<close> with one character to strip.\<close>

definition rstrip_char :: "char \<Rightarrow> string \<Rightarrow> string" where
  "rstrip_char c s = rev (dropWhile (\<lambda>x. x = c) (rev s))"

text \<open>\<^verbatim>\<open>not s.strip()\<close>.\<close>

definition blank :: "string \<Rightarrow> bool" where
  "blank s \<longleftrightarrow> strip s = []"

text \<open>\<^verbatim>\<open>s.split()\<close>: the maximal runs of non-blank characters.\<close>

function words :: "string \<Rightarrow> string list" where
  "words s = (case dropWhile is_space s of
       [] \<Rightarrow> []
     | t \<Rightarrow> takeWhile (\<lambda>c. \<not> is_space c) t # words (dropWhile (\<lambda>c. \<not> is_space c) t))"
  by pat_completeness auto
termination
proof (relation "measure length")
  fix s c t
  assume *: "dropWhile is_space s = c # t"
  have "\<not> is_space c" using hd_dropWhile [of is_space s] * by simp
  then have "length (dropWhile (\<lambda>c. \<not> is_space c) (c # t)) \<le> length t"
    by (simp add: length_dropWhile_le)
  also have "length t < length s"
    using * length_dropWhile_le [of is_space s] by simp
  finally show "(dropWhile (\<lambda>c. \<not> is_space c) (c # t), s) \<in> measure length" by simp
qed simp

declare words.simps [simp del]

text \<open>\<^verbatim>\<open>sep.join(parts)\<close>.\<close>

fun join :: "string \<Rightarrow> string list \<Rightarrow> string" where
  "join sep [] = []"
| "join sep [s] = s"
| "join sep (s # t # ts) = s @ sep @ join sep (t # ts)"

text \<open>\<^verbatim>\<open>s.split(c)\<close> with a one-character separator: never empty.\<close>

fun split_on :: "char \<Rightarrow> string \<Rightarrow> string list" where
  "split_on c [] = [[]]"
| "split_on c (x # xs) =
     (if x = c then [] # split_on c xs
      else case split_on c xs of [] \<Rightarrow> [[x]] | p # ps \<Rightarrow> (x # p) # ps)"

text \<open>\<^verbatim>\<open>before, _, after = s.partition(c)\<close>.\<close>

definition before_char :: "char \<Rightarrow> string \<Rightarrow> string" where
  "before_char c s = takeWhile (\<lambda>x. x \<noteq> c) s"

definition after_char :: "char \<Rightarrow> string \<Rightarrow> string" where
  "after_char c s = drop 1 (dropWhile (\<lambda>x. x \<noteq> c) s)"

definition starts_with :: "string \<Rightarrow> string \<Rightarrow> bool" where
  "starts_with p s \<longleftrightarrow> take (length p) s = p"

definition ends_with :: "string \<Rightarrow> string \<Rightarrow> bool" where
  "ends_with x s \<longleftrightarrow> starts_with (rev x) (rev s)"

text \<open>\<^verbatim>\<open>s.replace(c, r)\<close> for a one-character pattern.\<close>

definition replace_char :: "char \<Rightarrow> string \<Rightarrow> string \<Rightarrow> string" where
  "replace_char c r s = concat (map (\<lambda>x. if x = c then r else [x]) s)"

text \<open>\<^verbatim>\<open>" ".join(s.split())\<close>: the code's whitespace normalisation.\<close>

definition normalize_ws :: "string \<Rightarrow> string" where
  "normalize_ws s = join '' '' (words s)"

subsection \<open>Whitespace\<close>

lemma words_blank_prefix: "is_space c \<Longrightarrow> words (c # s) = words s"
  by (subst (1 2) words.simps) simp

lemma words_Nil [simp]: "words [] = []"
  by (subst words.simps) simp

lemma words_word_append:
  assumes "w \<noteq> []" and "\<forall>c\<in>set w. \<not> is_space c" and "s = [] \<or> is_space (hd s)"
  shows "words (w @ s) = w # words s"
proof -
  obtain c u where w: "w = c # u" and c: "\<not> is_space c"
    using assms(1,2) by (cases w) auto
  have "takeWhile (\<lambda>c. \<not> is_space c) (u @ s) = u"
    and "dropWhile (\<lambda>c. \<not> is_space c) (u @ s) = s"
    using assms(2,3) w by (cases s; simp add: takeWhile_append dropWhile_append)+
  then show ?thesis by (simp add: w c words.simps [of "c # u @ s"])
qed

lemma words_no_space: "w \<in> set (words s) \<Longrightarrow> w \<noteq> [] \<and> (\<forall>c\<in>set w. \<not> is_space c)"
proof (induction s rule: words.induct)
  case (1 s)
  show ?case
  proof (cases "dropWhile is_space s")
    case Nil
    with "1.prems" show ?thesis by (simp add: words.simps [of s])
  next
    case (Cons c t)
    then have c: "\<not> is_space c" using hd_dropWhile [of is_space s] by simp
    have "words s = takeWhile (\<lambda>c. \<not> is_space c) (c # t) #
        words (dropWhile (\<lambda>c. \<not> is_space c) (c # t))"
      by (simp only: words.simps [of s] Cons list.case)
    with "1.prems" consider "w = takeWhile (\<lambda>c. \<not> is_space c) (c # t)"
      | "w \<in> set (words (dropWhile (\<lambda>c. \<not> is_space c) (c # t)))"
      by (metis set_ConsD)
    then show ?thesis
    proof cases
      case 1
      then show ?thesis using c by (auto dest: set_takeWhileD)
    next
      case 2
      then show ?thesis by (rule "1.IH" [OF Cons])
    qed
  qed
qed

lemma words_join_space:
  "\<forall>w\<in>set ws. w \<noteq> [] \<and> (\<forall>c\<in>set w. \<not> is_space c) \<Longrightarrow> words (join '' '' ws) = ws"
proof (induction "'' ''" ws rule: join.induct)
  case 1
  then show ?case by simp
next
  case (2 s)
  then show ?case using words_word_append [of s "[]"] by simp
next
  case (3 s t ts)
  have "words (s @ '' '' @ join '' '' (t # ts)) = s # words ('' '' @ join '' '' (t # ts))"
    using 3(2) by (intro words_word_append) auto
  also have "words ('' '' @ join '' '' (t # ts)) = words (join '' '' (t # ts))"
    by (simp add: words_blank_prefix)
  also have "\<dots> = t # ts" using 3 by simp
  finally show ?case by simp
qed

lemma words_normalize_ws [str_simps]: "words (normalize_ws s) = words s"
  unfolding normalize_ws_def by (rule words_join_space) (use words_no_space in blast)

lemma normalize_ws_idem [str_simps]: "normalize_ws (normalize_ws s) = normalize_ws s"
  by (simp add: normalize_ws_def words_normalize_ws [unfolded normalize_ws_def])

lemma normalize_ws_eq_iff: "normalize_ws s = normalize_ws t \<longleftrightarrow> words s = words t"
  by (metis normalize_ws_def words_normalize_ws)

lemma dropWhile_all_dropWhile: "(\<forall>c\<in>set (dropWhile p s). p c) \<longleftrightarrow> (\<forall>c\<in>set s. p c)"
  by (induction s) auto

lemma blank_iff: "blank s \<longleftrightarrow> (\<forall>c\<in>set s. is_space c)"
  by (simp add: blank_def strip_def rstrip_def lstrip_def dropWhile_eq_Nil_conv dropWhile_all_dropWhile)

lemma words_eq_Nil: "words s = [] \<longleftrightarrow> dropWhile is_space s = []"
  by (cases "dropWhile is_space s") (simp_all only: words.simps [of s] list.case list.distinct simp_thms)

lemma blank_words: "blank s \<longleftrightarrow> words s = []"
  by (simp only: blank_iff words_eq_Nil dropWhile_eq_Nil_conv)

lemma set_dropWhile_subset: "set (dropWhile p s) \<subseteq> set s"
  by (auto dest: set_dropWhileD)

lemma set_strip: "set (strip s) \<subseteq> set s"
  using set_dropWhile_subset [of is_space s] set_dropWhile_subset [of is_space "rev (lstrip s)"]
  by (auto simp: strip_def rstrip_def lstrip_def)

lemma strip_blank_prefix: "\<forall>c\<in>set w. is_space c \<Longrightarrow> strip (w @ s) = strip s"
  by (simp add: strip_def lstrip_def dropWhile_append)

lemma strip_ends:
  assumes "s \<noteq> []" and "\<not> is_space (hd s)" and "\<not> is_space (last s)"
  shows "strip s = s"
proof -
  have "dropWhile is_space s = s" using assms by (simp add: dropWhile_eq_self_iff)
  moreover have "dropWhile is_space (rev s) = rev s"
    using assms by (simp add: dropWhile_eq_self_iff hd_rev)
  ultimately show ?thesis by (simp add: strip_def rstrip_def lstrip_def)
qed

lemma strip_Nil [simp]: "strip [] = []"
  by (simp add: strip_def rstrip_def lstrip_def)

lemma strip_no_space: "\<forall>c\<in>set s. \<not> is_space c \<Longrightarrow> strip s = s"
  by (cases "s = []") (simp_all add: strip_ends)

lemma last_strip: "strip s \<noteq> [] \<Longrightarrow> \<not> is_space (last (strip s))"
  using hd_dropWhile [of is_space "rev (lstrip s)"]
  by (auto simp: strip_def rstrip_def last_rev)

lemma hd_strip: "strip s \<noteq> [] \<Longrightarrow> \<not> is_space (hd (strip s))"
proof -
  assume ne: "strip s \<noteq> []"
  obtain u where u: "lstrip s = strip s @ u"
  proof
    have "rev (rev (lstrip s)) = rev (dropWhile is_space (rev (lstrip s))) @ rev (takeWhile is_space (rev (lstrip s)))"
      by (metis rev_append takeWhile_dropWhile_id)
    then show "lstrip s = strip s @ rev (takeWhile is_space (rev (lstrip s)))"
      by (simp add: strip_def rstrip_def)
  qed
  with ne have "hd (strip s) = hd (lstrip s)" "lstrip s \<noteq> []" by auto
  then show ?thesis using hd_dropWhile [of is_space s] by (simp add: lstrip_def)
qed

lemma strip_strip [simp]: "strip (strip s) = strip s"
  by (cases "strip s = []") (simp_all add: strip_ends hd_strip last_strip)

subsection \<open>Separators\<close>

lemma split_on_not_Nil [simp]: "split_on c s \<noteq> []"
  by (induction s) (auto split: list.splits)

lemma join_Cons: "ss \<noteq> [] \<Longrightarrow> join sep (s # ss) = s @ sep @ join sep ss"
  by (cases ss) auto

lemma join_split_on [str_simps]: "join [c] (split_on c s) = s"
proof (induction s)
  case Nil
  then show ?case by simp
next
  case (Cons x xs)
  then show ?case by (cases "split_on c xs"; cases "tl (split_on c xs)") (auto simp: join_Cons)
qed

lemma split_on_no_sep [str_simps]: "p \<in> set (split_on c s) \<Longrightarrow> c \<notin> set p"
  by (induction s arbitrary: p) (auto split: list.splits if_splits)

lemma split_on_free: "c \<notin> set s \<Longrightarrow> split_on c s = [s]"
  by (induction s) auto

lemma split_on_append: "c \<notin> set s \<Longrightarrow> split_on c (s @ c # t) = s # split_on c t"
  by (induction s) auto

lemma split_on_join [str_simps]:
  "ss \<noteq> [] \<Longrightarrow> \<forall>s\<in>set ss. c \<notin> set s \<Longrightarrow> split_on c (join [c] ss) = ss"
  by (induction "[c]" ss rule: join.induct) (auto simp: split_on_free split_on_append)

lemma length_split_on: "length (split_on c s) = Suc (count_list s c)"
  by (induction s) (auto split: list.splits)

lemma split_on_append2:
  "split_on c (s @ c # t) = split_on c s @ split_on c t"
  by (induction s) (auto split: list.splits)

lemma starts_with_append [simp]: "starts_with p (p @ s)"
  by (simp add: starts_with_def)

lemma starts_with_iff: "starts_with p s \<longleftrightarrow> (\<exists>t. s = p @ t)"
proof
  assume "starts_with p s"
  then have "s = p @ drop (length p) s"
    using append_take_drop_id [of "length p" s] by (simp add: starts_with_def)
  then show "\<exists>t. s = p @ t" by blast
qed auto

lemma partition_char: "c \<in> set s \<Longrightarrow> s = before_char c s @ c # after_char c s"
  by (induction s) (auto simp: before_char_def after_char_def)

lemma after_char_free: "c \<notin> set s \<Longrightarrow> after_char c s = []"
  by (induction s) (auto simp: after_char_def)

lemma before_char_free: "c \<notin> set (before_char c s)"
  by (auto simp: before_char_def dest: set_takeWhileD)

lemma before_char_append: "c \<notin> set s \<Longrightarrow> before_char c (s @ c # t) = s"
  by (simp add: before_char_def takeWhile_append)

lemma after_char_append: "c \<notin> set s \<Longrightarrow> after_char c (s @ c # t) = t"
  by (simp add: after_char_def dropWhile_append)

section \<open>Decimal numbers\<close>

definition digit_char :: "nat \<Rightarrow> char" where
  "digit_char d = char_of (48 + d)"

fun nat_str :: "nat \<Rightarrow> string" where
  "nat_str n = (if n < 10 then [digit_char n] else nat_str (n div 10) @ [digit_char (n mod 10)])"

declare nat_str.simps [simp del]

definition int_str :: "int \<Rightarrow> string" where
  "int_str i = (if i < 0 then CHR ''-'' # nat_str (nat (- i)) else nat_str (nat i))"

definition digits_val :: "string \<Rightarrow> nat" where
  "digits_val s = foldl (\<lambda>n c. 10 * n + (code_point c - 48)) 0 s"

lemma code_point_char_of [simp]: "n < 256 \<Longrightarrow> code_point (char_of n) = n"
  by simp

lemma digit_char_digit: "d < 10 \<Longrightarrow> is_digit (digit_char d) \<and> code_point (digit_char d) = 48 + d"
  by (simp add: digit_char_def is_digit_def Let_def)

lemma nat_str_digits: "c \<in> set (nat_str n) \<Longrightarrow> is_digit c"
proof (induction n rule: nat_str.induct)
  case (1 n)
  then show ?case
    by (cases "n < 10") (auto simp: nat_str.simps [of n] digit_char_digit)
qed

lemma nat_str_not_Nil [simp]: "nat_str n \<noteq> []"
  by (simp add: nat_str.simps [of n])

lemma digits_val_snoc: "digits_val (s @ [c]) = 10 * digits_val s + (code_point c - 48)"
  by (simp add: digits_val_def)

lemma digits_val_nat_str [str_simps]: "digits_val (nat_str n) = n"
proof (induction n rule: nat_str.induct)
  case (1 n)
  then show ?case
    by (cases "n < 10")
      (simp_all add: nat_str.simps [of n] digits_val_snoc digit_char_digit, simp add: digits_val_def digit_char_digit)
qed

lemma nat_str_inject: "nat_str m = nat_str n \<longleftrightarrow> m = n"
  by (metis digits_val_nat_str)

section \<open>Encoding\<close>

text \<open>\<^verbatim>\<open>s.encode()\<close>: one byte below 128, two from there to 255.\<close>

definition utf8_char :: "char \<Rightarrow> string" where
  "utf8_char c = (let n = code_point c in
     if n < 128 then [c] else [char_of (192 + n div 64), char_of (128 + n mod 64)])"

definition utf8 :: "string \<Rightarrow> string" where
  "utf8 s = concat (map utf8_char s)"

lemma utf8_ascii: "\<forall>c\<in>set s. code_point c < 128 \<Longrightarrow> utf8 s = s"
  by (induction s) (simp_all add: utf8_def utf8_char_def)

lemma utf8_append [simp]: "utf8 (s @ t) = utf8 s @ utf8 t"
  by (simp add: utf8_def)

lemma utf8_Cons: "utf8 (c # s) = utf8_char c @ utf8 s"
  by (simp add: utf8_def)

lemma utf8_char_cases:
  obtains (one) "utf8_char c = [c]" "code_point c < 128"
  | (two) a b where "utf8_char c = [a, b]" "128 \<le> code_point a" "code_point a = 192 + code_point c div 64"
      "code_point b = 128 + code_point c mod 64"
proof (cases "code_point c < 128")
  case True
  then show thesis using one by (simp add: utf8_char_def)
next
  case False
  have c: "code_point c < 256" by simp
  then have "code_point c div 64 < 4" by (simp add: less_mult_imp_div_less)
  then have "192 + code_point c div 64 < 256" "128 + code_point c mod 64 < 256" by auto
  then show thesis
    using False by (intro two) (auto simp: utf8_char_def Let_def)
qed

lemma utf8_char_cancel:
  assumes "utf8_char c @ r = utf8_char d @ s"
  shows "c = d \<and> r = s"
proof (cases c rule: utf8_char_cases)
  case 1: one
  show ?thesis
  proof (cases d rule: utf8_char_cases)
    case one
    then show ?thesis using assms 1 by simp
  next
    case (two a b)
    then show ?thesis using assms 1 by simp
  qed
next
  case 1: (two a b)
  show ?thesis
  proof (cases d rule: utf8_char_cases)
    case one
    then show ?thesis using assms 1 by simp
  next
    case (two a' b')
    then have "code_point c div 64 = code_point d div 64" "code_point c mod 64 = code_point d mod 64" "r = s"
      using assms 1 by auto
    then have "code_point c = code_point d" by (metis div_mult_mod_eq)
    with \<open>r = s\<close> show ?thesis by simp
  qed
qed

lemma utf8_inject: "utf8 s = utf8 t \<longleftrightarrow> s = t"
proof
  show "utf8 s = utf8 t \<Longrightarrow> s = t"
  proof (induction s arbitrary: t)
    case Nil
    then show ?case by (cases t; cases "hd t" rule: utf8_char_cases) (auto simp: utf8_def)
  next
    case (Cons c s)
    show ?case
    proof (cases t)
      case Nil
      then show ?thesis using Cons.prems by (cases c rule: utf8_char_cases) (auto simp: utf8_def)
    next
      case (Cons d t')
      have "utf8_char c @ utf8 s = utf8_char d @ utf8 t'"
        using Cons.prems unfolding Cons utf8_Cons .
      then show ?thesis using utf8_char_cancel Cons.IH Cons by blast
    qed
  qed
qed simp

end
