(* ===== verification/PyValue.thy ===== *)
theory PyValue
  imports PyStr
begin

text \<open>
  The Python values a parsed YAML or JSON document is made of, with the operations the source
  applies to a value it knows nothing about: \<^verbatim>\<open>type(x).__name__\<close>, \<^verbatim>\<open>isinstance\<close> tests,
  \<^verbatim>\<open>repr\<close> (the text every error message quotes), truth, hashing, dictionary lookup. A float
  carries its exact value and its shortest decimal text, which the interpreter computes; a value
  of any other class (\<^verbatim>\<open>datetime.date\<close>, \<^verbatim>\<open>bytes\<close>, a set) is \<open>POther\<close> with its class
  name and its \<^verbatim>\<open>repr\<close>. A dictionary is an association list in insertion order.
\<close>

datatype pyval =
    PNone
  | PBool bool
  | PInt int
  | PFloat rat string
  | PStr string
  | PList "pyval list"
  | PDict "(pyval \<times> pyval) list"
  | POther string string

type_synonym pydict = "(pyval \<times> pyval) list"

section \<open>Tests and conversions\<close>

fun type_name :: "pyval \<Rightarrow> string" where
  "type_name PNone = ''NoneType''"
| "type_name (PBool b) = ''bool''"
| "type_name (PInt i) = ''int''"
| "type_name (PFloat r t) = ''float''"
| "type_name (PStr s) = ''str''"
| "type_name (PList xs) = ''list''"
| "type_name (PDict kvs) = ''dict''"
| "type_name (POther t r) = t"

fun is_str :: "pyval \<Rightarrow> bool" where
  "is_str (PStr s) = True"
| "is_str _ = False"

text \<open>\<^verbatim>\<open>bool(x)\<close>; an object of another class counts as true.\<close>

fun truthy :: "pyval \<Rightarrow> bool" where
  "truthy PNone = False"
| "truthy (PBool b) = b"
| "truthy (PInt i) = (i \<noteq> 0)"
| "truthy (PFloat r t) = (r \<noteq> 0)"
| "truthy (PStr s) = (s \<noteq> [])"
| "truthy (PList xs) = (xs \<noteq> [])"
| "truthy (PDict kvs) = (kvs \<noteq> [])"
| "truthy (POther t r) = True"

lemma is_str_iff: "is_str v \<longleftrightarrow> (\<exists>s. v = PStr s)"
  by (cases v) auto

section \<open>repr\<close>

definition hex_digit :: "nat \<Rightarrow> char" where
  "hex_digit d = (if d < 10 then char_of (48 + d) else char_of (87 + d))"

definition hex2 :: "nat \<Rightarrow> string" where
  "hex2 n = [hex_digit (n div 16), hex_digit (n mod 16)]"

text \<open>The quote \<^verbatim>\<open>repr\<close> picks, and one character inside it.\<close>

definition repr_quote :: "string \<Rightarrow> char" where
  "repr_quote s = (if quote1 \<in> set s \<and> quote2 \<notin> set s then quote2 else quote1)"

definition repr_char :: "char \<Rightarrow> char \<Rightarrow> string" where
  "repr_char q c = (let n = code_point c in
     if c = q \<or> c = backslash then [backslash, c]
     else if c = newline then backslash # ''n''
     else if c = carriage_return then backslash # ''r''
     else if n = 9 then backslash # ''t''
     else if (32 \<le> n \<and> n \<le> 126) \<or> (161 \<le> n \<and> n \<noteq> 173) then [c]
     else backslash # CHR ''x'' # hex2 n)"

definition repr_str :: "string \<Rightarrow> string" where
  "repr_str s = (let q = repr_quote s in q # concat (map (repr_char q) s) @ [q])"

definition brackets :: "string list \<Rightarrow> string" where
  "brackets ss = ''['' @ join '', '' ss @ '']''"

fun repr :: "pyval \<Rightarrow> string" where
  "repr PNone = ''None''"
| "repr (PBool b) = (if b then ''True'' else ''False'')"
| "repr (PInt i) = int_str i"
| "repr (PFloat r t) = t"
| "repr (PStr s) = repr_str s"
| "repr (PList xs) = brackets (map repr xs)"
| "repr (PDict kvs) = ''{'' @ join '', '' (map (\<lambda>(k, v). repr k @ '': '' @ repr v) kvs) @ ''}''"
| "repr (POther t r) = r"

text \<open>\<^verbatim>\<open>repr\<close> of a list of strings, as the messages print lists of names.\<close>

definition repr_strs :: "string list \<Rightarrow> string" where
  "repr_strs ss = brackets (map repr_str ss)"

text \<open>\<^verbatim>\<open>sorted(set(ss))\<close>.\<close>

definition sorted_set :: "string list \<Rightarrow> string list" where
  "sorted_set ss = sort (remdups ss)"

lemma set_sorted_set [simp]: "set (sorted_set ss) = set ss"
  by (simp add: sorted_set_def)

lemma sorted_sorted_set [simp]: "sorted (sorted_set ss)" "distinct (sorted_set ss)"
  by (simp_all add: sorted_set_def)

section \<open>Dictionaries\<close>

text \<open>\<^verbatim>\<open>d.get(k)\<close> and \<^verbatim>\<open>k in d\<close> for a string key.\<close>

definition dict_get :: "pydict \<Rightarrow> string \<Rightarrow> pyval option" where
  "dict_get d k = map_of d (PStr k)"

definition get_or_none :: "pydict \<Rightarrow> string \<Rightarrow> pyval" where
  "get_or_none d k = (case dict_get d k of None \<Rightarrow> PNone | Some v \<Rightarrow> v)"

definition get_default :: "pydict \<Rightarrow> string \<Rightarrow> pyval \<Rightarrow> pyval" where
  "get_default d k v = (case dict_get d k of None \<Rightarrow> v | Some w \<Rightarrow> w)"

definition has_key :: "pydict \<Rightarrow> string \<Rightarrow> bool" where
  "has_key d k \<longleftrightarrow> dict_get d k \<noteq> None"

definition dict_keys :: "pydict \<Rightarrow> pyval list" where
  "dict_keys d = map fst d"

lemma has_key_iff: "has_key d k \<longleftrightarrow> PStr k \<in> set (dict_keys d)"
  by (auto simp: has_key_def dict_get_def dict_keys_def map_of_eq_None_iff)

text \<open>
  Keys are compared by \<^verbatim>\<open>==\<close>: \<^verbatim>\<open>True\<close>, \<^verbatim>\<open>1\<close> and \<^verbatim>\<open>1.0\<close> are one key.
  \<open>hashable\<close> is whether a value can be a key (or a set element) at all.
\<close>

fun numeric :: "pyval \<Rightarrow> rat option" where
  "numeric (PBool b) = Some (if b then 1 else 0)"
| "numeric (PInt i) = Some (of_int i)"
| "numeric (PFloat r t) = Some r"
| "numeric _ = None"

definition key_eq :: "pyval \<Rightarrow> pyval \<Rightarrow> bool" where
  "key_eq a b = (case (numeric a, numeric b) of (Some x, Some y) \<Rightarrow> x = y | _ \<Rightarrow> a = b)"

fun hashable :: "pyval \<Rightarrow> bool" where
  "hashable (PList xs) = False"
| "hashable (PDict kvs) = False"
| "hashable (POther t r) = (t \<noteq> ''set'')"
| "hashable _ = True"

lemma key_eq_refl [simp]: "key_eq a a"
  by (cases "numeric a") (simp_all add: key_eq_def)

lemma key_eq_sym: "key_eq a b \<longleftrightarrow> key_eq b a"
  by (auto simp: key_eq_def split: option.splits)

lemma key_eq_PStr [simp]: "key_eq (PStr s) v \<longleftrightarrow> v = PStr s"
  by (auto simp: key_eq_def split: option.splits)

end
