(* ===== verification/Json.thy ===== *)
theory Json
  imports PyValue
begin

text \<open>
  \<^verbatim>\<open>json.dumps\<close> with the settings the source uses (\<^verbatim>\<open>separators=(",", ":")\<close>, ASCII
  output), on JSON documents. The result block (\<^verbatim>\<open>result.py\<close>) and the canonical entry the
  content hash is taken of (\<^verbatim>\<open>hashing.py\<close>) are both written with it. A string token can be
  read back from any text that follows it (the interface \<open>delimited\<close>), the output is printable
  ASCII in one line, and two documents with the same output are equal.
\<close>

datatype json =
    JNull
  | JBool bool
  | JInt int
  | JFloat string
  | JStr string
  | JArr "json list"
  | JObj "(string \<times> json) list"

section \<open>Strings\<close>

text \<open>One character of a JSON string as \<^verbatim>\<open>py_encode_basestring_ascii\<close> writes it.\<close>

definition json_escape :: "char \<Rightarrow> string" where
  "json_escape c = (let n = code_point c in
     if c = quote2 then [backslash, quote2]
     else if c = backslash then [backslash, backslash]
     else if n = 10 then backslash # ''n''
     else if n = 13 then backslash # ''r''
     else if n = 9 then backslash # ''t''
     else if n = 8 then backslash # ''b''
     else if n = 12 then backslash # ''f''
     else if 32 \<le> n \<and> n \<le> 126 then [c]
     else backslash # ''u00'' @ hex2 n)"

definition json_string :: "string \<Rightarrow> string" where
  "json_string s = quote2 # concat (map json_escape s) @ [quote2]"

text \<open>The reader of the other side: what a string token stands for, and the text after it.\<close>

definition hex_val :: "char \<Rightarrow> nat option" where
  "hex_val c = (let n = code_point c in
     if 48 \<le> n \<and> n \<le> 57 then Some (n - 48) else if 97 \<le> n \<and> n \<le> 102 then Some (n - 87) else None)"

definition simple_escape :: "char \<Rightarrow> char option" where
  "simple_escape c = (if c = quote2 \<or> c = backslash then Some c
     else if c = CHR ''n'' then Some newline
     else if c = CHR ''r'' then Some carriage_return
     else if c = CHR ''t'' then Some (CHR 0x09)
     else if c = CHR ''b'' then Some (CHR 0x08)
     else if c = CHR ''f'' then Some (CHR 0x0C)
     else None)"

definition add_char :: "char \<Rightarrow> (string \<times> string) option \<Rightarrow> (string \<times> string) option" where
  "add_char c r = map_option (\<lambda>(s, t). (c # s, t)) r"

fun read_chars :: "string \<Rightarrow> (string \<times> string) option" where
  "read_chars [] = None"
| "read_chars (c # cs) =
     (if c = quote2 then Some ([], cs)
      else if c = backslash then
        (case cs of
           [] \<Rightarrow> None
         | e # r \<Rightarrow>
             (if e = CHR ''u'' then
                (case r of
                   z1 # z2 # h # l # r' \<Rightarrow>
                     (case (hex_val h, hex_val l) of
                        (Some a, Some b) \<Rightarrow>
                          if [z1, z2] = ''00'' then add_char (char_of (16 * a + b)) (read_chars r') else None
                      | _ \<Rightarrow> None)
                 | _ \<Rightarrow> None)
              else case simple_escape e of Some x \<Rightarrow> add_char x (read_chars r) | None \<Rightarrow> None))
      else add_char c (read_chars cs))"

definition read_string :: "string \<Rightarrow> (string \<times> string) option" where
  "read_string s = (case s of c # r \<Rightarrow> if c = quote2 then read_chars r else None | [] \<Rightarrow> None)"

section \<open>Self-delimiting encodings\<close>

text \<open>
  An encoding whose token can be read back whatever text follows: two such texts that agree agree
  on the token and on what follows it.
\<close>

locale delimited =
  fixes enc :: "'a \<Rightarrow> string" and dec :: "string \<Rightarrow> ('a \<times> string) option"
  assumes dec_enc: "dec (enc x @ r) = Some (x, r)"
begin

lemma enc_cancel: "enc x @ r = enc y @ s \<longleftrightarrow> x = y \<and> r = s"
proof
  assume "enc x @ r = enc y @ s"
  then have "Some (x, r) = Some (y, s)" by (metis dec_enc)
  then show "x = y \<and> r = s" by simp
qed simp

lemma enc_inject: "enc x = enc y \<longleftrightarrow> x = y"
  using enc_cancel [of x "[]" y "[]"] by simp

lemma dec_self: "dec (enc x) = Some (x, [])"
  using dec_enc [of x "[]"] by simp

end

lemma hex_val_digit: "n < 16 \<Longrightarrow> hex_val (hex_digit n) = Some n"
  by (auto simp: hex_val_def hex_digit_def Let_def)

lemma read_chars_escape: "read_chars (json_escape c @ r) = add_char c (read_chars r)"
proof -
  have hex: "hex_val (hex_digit (code_point c div 16)) = Some (code_point c div 16)"
    "hex_val (hex_digit (code_point c mod 16)) = Some (code_point c mod 16)"
    by (auto intro!: hex_val_digit simp: less_mult_imp_div_less)
  have whole: "char_of (16 * (code_point c div 16) + code_point c mod 16) = c"
    by simp
  consider "c = quote2" | "c = backslash" | "code_point c \<in> {10, 13, 9, 8, 12}"
    | "c \<noteq> quote2" "c \<noteq> backslash" "code_point c \<notin> {10, 13, 9, 8, 12}" "32 \<le> code_point c \<and> code_point c \<le> 126"
    | "c \<noteq> quote2" "c \<noteq> backslash" "code_point c \<notin> {10, 13, 9, 8, 12}" "\<not> (32 \<le> code_point c \<and> code_point c \<le> 126)"
    by blast
  then show ?thesis
  proof cases
    case 3
    then have "c \<in> {newline, carriage_return, CHR 0x09, CHR 0x08, CHR 0x0C}"
      using of_char_eq_iff [where 'a = nat, of c newline] of_char_eq_iff [where 'a = nat, of c carriage_return]
        of_char_eq_iff [where 'a = nat, of c "CHR 0x09"] of_char_eq_iff [where 'a = nat, of c "CHR 0x08"]
        of_char_eq_iff [where 'a = nat, of c "CHR 0x0C"] by auto
    then show ?thesis by (auto simp: json_escape_def simple_escape_def)
  next
    case 5
    then show ?thesis by (simp add: json_escape_def Let_def hex2_def hex whole)
  qed (simp_all add: json_escape_def Let_def simple_escape_def)
qed

lemma read_chars_escapes: "read_chars (concat (map json_escape s) @ quote2 # r) = Some (s, r)"
  by (induction s) (simp_all add: read_chars_escape add_char_def)

interpretation json_str: delimited json_string read_string
  by unfold_locales (simp add: json_string_def read_string_def read_chars_escapes)

section \<open>Documents\<close>

fun dumps :: "json \<Rightarrow> string" where
  "dumps JNull = ''null''"
| "dumps (JBool b) = (if b then ''true'' else ''false'')"
| "dumps (JInt i) = int_str i"
| "dumps (JFloat t) = t"
| "dumps (JStr s) = json_string s"
| "dumps (JArr xs) = ''['' @ join '','' (map dumps xs) @ '']''"
| "dumps (JObj kvs) =
     ''{'' @ join '','' (map (\<lambda>(k, v). json_string k @ '':'' @ dumps v) kvs) @ ''}''"

text \<open>
  The text of a float is a number token that no integer prints as; the interpreter's \<^verbatim>\<open>repr\<close>
  always writes a point, an exponent, or one of the words \<^verbatim>\<open>NaN\<close> and \<^verbatim>\<open>Infinity\<close>.
\<close>

definition num_char :: "char \<Rightarrow> bool" where
  "num_char c \<longleftrightarrow> is_digit c \<or> is_upper c \<or> is_lower c \<or> c \<in> set ''+-.''"

definition int_char :: "char \<Rightarrow> bool" where
  "int_char c \<longleftrightarrow> is_digit c \<or> c = CHR ''-''"

definition float_text :: "string \<Rightarrow> bool" where
  "float_text t \<longleftrightarrow> t \<noteq> [] \<and> (\<forall>c\<in>set t. num_char c) \<and> (\<exists>c\<in>set t. \<not> int_char c)
     \<and> (int_char (hd t) \<or> is_upper (hd t))"

fun wf_json :: "json \<Rightarrow> bool" where
  "wf_json (JFloat t) = float_text t"
| "wf_json (JArr xs) = (\<forall>x\<in>set xs. wf_json x)"
| "wf_json (JObj kvs) = (\<forall>(k, v)\<in>set kvs. wf_json v)"
| "wf_json _ = True"

definition token_end :: "string \<Rightarrow> bool" where
  "token_end r \<longleftrightarrow> r = [] \<or> hd r \<in> set '',]}''"

lemma token_end_simps [simp]:
  "token_end []" "token_end (CHR '','' # r)" "token_end (CHR '']'' # r)" "token_end (CHR ''}'' # r)"
  by (simp_all add: token_end_def)

lemma int_str_chars: "c \<in> set (int_str i) \<Longrightarrow> int_char c"
  by (auto simp: int_str_def int_char_def dest: nat_str_digits split: if_splits)

lemma int_str_not_Nil [simp]: "int_str i \<noteq> []"
  by (simp add: int_str_def)

lemma minus_not_digit [simp]: "\<not> is_digit CHR ''-''"
  by (simp add: is_digit_def)

lemma nat_str_no_minus: "nat_str n \<noteq> CHR ''-'' # r"
  by (metis list.set_intros(1) minus_not_digit nat_str_digits)

lemma int_str_inject: "int_str i = int_str j \<longleftrightarrow> i = j"
  using nat_str_no_minus nat_str_no_minus [symmetric]
  by (auto simp: int_str_def nat_str_inject split: if_splits)

lemma num_char_int: "int_char c \<Longrightarrow> num_char c"
  by (auto simp: int_char_def num_char_def)

lemma num_char_end: "r \<noteq> [] \<Longrightarrow> token_end r \<Longrightarrow> \<not> num_char (hd r)"
  by (auto simp: token_end_def num_char_def is_digit_def is_upper_def is_lower_def)

lemma num_token_cancel:
  assumes "t @ r = u @ s" "\<forall>c\<in>set t. num_char c" "\<forall>c\<in>set u. num_char c" "token_end r" "token_end s"
  shows "t = u \<and> r = s"
proof -
  have take: "takeWhile num_char (x @ y) = x"
    if "\<forall>c\<in>set x. num_char c" "token_end y" for x y
    using that num_char_end [of y] by (cases y) (simp_all add: takeWhile_append)
  have "t = u" using take assms by metis
  then show ?thesis using assms(1) by simp
qed

lemma join_comma_cancel:
  assumes "\<And>x y r s. x \<in> set xs \<Longrightarrow> y \<in> set ys \<Longrightarrow> token_end r \<Longrightarrow> token_end s \<Longrightarrow>
      f x @ r = f y @ s \<Longrightarrow> x = y \<and> r = s"
    and "\<And>x. x \<in> set xs \<union> set ys \<Longrightarrow> f x \<noteq> [] \<and> \<not> token_end (f x)"
    and "join '','' (map f xs) @ c # r = join '','' (map f ys) @ c # s" "c \<in> set '']}''"
  shows "xs = ys \<and> r = s"
  using assms
proof (induction xs arbitrary: ys)
  case Nil
  have "ys = []"
  proof (rule ccontr)
    assume "ys \<noteq> []"
    then obtain y ys' where y: "ys = y # ys'" by (cases ys) auto
    then obtain z where "c # r = f y @ z" using Nil(3) by (cases ys') auto
    moreover have "f y \<noteq> []" "\<not> token_end (f y)" using Nil(2) [of y] y by auto
    ultimately have "hd (f y) = c" by (cases "f y") auto
    then show False using \<open>\<not> token_end (f y)\<close> \<open>c \<in> _\<close> by (auto simp: token_end_def)
  qed
  then show ?case using Nil(3) by simp
next
  case (Cons x xs)
  have ne: "f x \<noteq> []" "\<not> token_end (f x)" using Cons.prems(2) [of x] by auto
  have c: "token_end (c # u)" for u using \<open>c \<in> _\<close> by (auto simp: token_end_def)
  obtain y ys' where ys: "ys = y # ys'"
  proof (cases ys)
    case Nil
    then obtain z where "f x @ z = c # s" using Cons.prems(3) by (cases xs) auto
    then have "hd (f x) = c" using ne(1) by (cases "f x") auto
    then show ?thesis using ne(2) \<open>c \<in> _\<close> by (auto simp: token_end_def)
  qed
  define tl where "tl zs u = (if zs = [] then c # u else CHR '','' # join '','' (map f zs) @ c # u)"
    for zs u
  have "f x @ tl xs r = f y @ tl ys' s"
    using Cons.prems(3) unfolding ys tl_def by (auto simp: join_Cons)
  moreover have "token_end (tl zs u)" for zs u using c by (auto simp: tl_def)
  ultimately have "x = y \<and> tl xs r = tl ys' s"
    by (intro Cons.prems(1)) (simp_all add: ys)
  then have xy: "x = y" and rest: "tl xs r = tl ys' s" by auto
  show ?case
  proof (cases "xs = [] \<or> ys' = []")
    case True
    then show ?thesis using rest xy ys \<open>c \<in> _\<close> by (auto simp: tl_def split: if_splits)
  next
    case False
    then have "join '','' (map f xs) @ c # r = join '','' (map f ys') @ c # s"
      using rest by (simp add: tl_def)
    then have "xs = ys' \<and> r = s"
      using Cons.IH [of ys'] Cons.prems(1,2,4) ys by (metis Un_iff list.set_intros(2))
    then show ?thesis using xy ys by simp
  qed
qed


text \<open>The first character of a document tells its constructor.\<close>

definition json_class :: "char \<Rightarrow> nat" where
  "json_class c = (if c = CHR ''n'' then 0 else if c = CHR ''t'' then 1 else if c = CHR ''f'' then 2
     else if c = quote2 then 3 else if c = CHR ''['' then 4 else if c = CHR ''{'' then 5 else 6)"

lemma json_class_int: "int_char c \<or> is_upper c \<Longrightarrow> json_class c = 6"
proof -
  have "\<forall>c\<in>set (CHR 0x22 # ''ntf[{''). \<not> (int_char c \<or> is_upper c)" by code_simp
  then show "int_char c \<or> is_upper c \<Longrightarrow> json_class c = 6" by (auto simp: json_class_def)
qed

fun json_kind :: "json \<Rightarrow> nat" where
  "json_kind JNull = 0"
| "json_kind (JBool b) = (if b then 1 else 2)"
| "json_kind (JStr s) = 3"
| "json_kind (JArr xs) = 4"
| "json_kind (JObj kvs) = 5"
| "json_kind (JInt i) = 6"
| "json_kind (JFloat t) = 6"

lemma dumps_kind: "wf_json j \<Longrightarrow> dumps j \<noteq> [] \<and> json_class (hd (dumps j)) = json_kind j"
proof (cases j)
  case (JInt i)
  have "int_char (hd (int_str i))" by (rule int_str_chars [OF hd_in_set]) simp
  with JInt show ?thesis by (simp add: json_class_int)
next
  case (JFloat t)
  moreover assume "wf_json j"
  ultimately show ?thesis by (auto simp: float_text_def json_class_int)
qed (simp_all add: json_class_def json_string_def)

lemma kind_eq:
  assumes "wf_json a" "wf_json b" "dumps a @ r = dumps b @ s"
  shows "json_kind a = json_kind b"
  using dumps_kind [OF assms(1)] dumps_kind [OF assms(2)] assms(3) by (metis hd_append2)

lemma json_kind_inv:
  "json_kind b = 0 \<Longrightarrow> b = JNull" "json_kind b = 1 \<Longrightarrow> b = JBool True" "json_kind b = 2 \<Longrightarrow> b = JBool False"
  "json_kind b = 3 \<Longrightarrow> \<exists>s. b = JStr s" "json_kind b = 4 \<Longrightarrow> \<exists>xs. b = JArr xs"
  "json_kind b = 5 \<Longrightarrow> \<exists>kvs. b = JObj kvs"
  "json_kind b = 6 \<Longrightarrow> (\<exists>i. b = JInt i) \<or> (\<exists>t. b = JFloat t)"
  by (cases b; simp split: if_splits)+

lemma end_kind: "c \<in> set '',]}'' \<Longrightarrow> \<not> (int_char c \<or> is_upper c) \<and> json_class c = 6"
proof -
  have "\<forall>c\<in>set '',]}''. \<not> (int_char c \<or> is_upper c) \<and> json_class c = 6" by code_simp
  then show "c \<in> set '',]}'' \<Longrightarrow> \<not> (int_char c \<or> is_upper c) \<and> json_class c = 6" by blast
qed

lemma dumps_not_end: "wf_json j \<Longrightarrow> \<not> token_end (dumps j)"
proof
  assume wf: "wf_json j" and "token_end (dumps j)"
  then have e: "\<not> (int_char (hd (dumps j)) \<or> is_upper (hd (dumps j)))" and "json_class (hd (dumps j)) = 6"
    using dumps_kind [OF wf] end_kind by (auto simp: token_end_def)
  then have "json_kind j = 6" using dumps_kind [OF wf] by simp
  then consider i where "j = JInt i" | t where "j = JFloat t" using json_kind_inv(7) by blast
  then show False
  proof cases
    case (1 i)
    have "int_char (hd (int_str i))" by (rule int_str_chars [OF hd_in_set]) simp
    then show False using e 1 by simp
  next
    case (2 t)
    then show False using e wf by (auto simp: float_text_def)
  qed
qed

lemma member_cancel:
  assumes "json_string k @ '':'' @ dumps v @ r = json_string k' @ '':'' @ dumps v' @ s"
    and "dumps v @ r = dumps v' @ s \<Longrightarrow> v = v' \<and> r = s"
  shows "k = k' \<and> v = v' \<and> r = s"
  using assms json_str.enc_cancel [of k "'':'' @ dumps v @ r" k' "'':'' @ dumps v' @ s"] by simp

lemma number_cancel:
  assumes "wf_json a" "wf_json b" "token_end r" "token_end s" "dumps a @ r = dumps b @ s" "json_kind a = 6"
  shows "a = b \<and> r = s"
proof -
  have kb: "json_kind b = 6" using kind_eq [OF assms(1,2,5)] assms(6) by simp
  have chars: "\<forall>c\<in>set (dumps x). num_char c" if "json_kind x = 6" "wf_json x" for x
    using json_kind_inv(7) [OF that(1)] that(2) by (auto simp: float_text_def num_char_int int_str_chars)
  have d: "dumps a = dumps b" and "r = s"
    using num_token_cancel [OF assms(5) chars chars] assms kb by simp_all
  have ints: "\<forall>c\<in>set (int_str i). int_char c" for i by (simp add: int_str_chars)
  have "a = b"
    using json_kind_inv(7) [OF assms(6)] json_kind_inv(7) [OF kb] d ints assms(1,2)
    by (auto simp: int_str_inject float_text_def)
  with \<open>r = s\<close> show ?thesis by simp
qed

lemma dumps_cancel:
  "wf_json a \<Longrightarrow> wf_json b \<Longrightarrow> token_end r \<Longrightarrow> token_end s \<Longrightarrow>
     dumps a @ r = dumps b @ s \<Longrightarrow> a = b \<and> r = s"
proof (induction a arbitrary: b r s)
  case (JArr xs)
  have "json_kind b = 4" using kind_eq [OF JArr.prems(1,2,5)] by simp
  then obtain ys where b: "b = JArr ys" using json_kind_inv(5) by blast
  have "xs = ys \<and> r = s"
  proof (rule join_comma_cancel [where f = dumps and c = "CHR '']''"])
    fix x y r s
    assume "x \<in> set xs" "y \<in> set ys" "token_end r" "token_end s" "dumps x @ r = dumps y @ s"
    then show "x = y \<and> r = s" using JArr.IH [of x y r s] JArr.prems(1,2) b by auto
  next
    fix x assume "x \<in> set xs \<union> set ys"
    then have "wf_json x" using JArr.prems(1,2) b by auto
    then show "dumps x \<noteq> [] \<and> \<not> token_end (dumps x)" using dumps_kind dumps_not_end by blast
  qed (use JArr.prems(5) b in simp_all)
  then show ?case using b by simp
next
  case (JObj kvs)
  let ?m = "\<lambda>(k, v). json_string k @ '':'' @ dumps v"
  have "json_kind b = 5" using kind_eq [OF JObj.prems(1,2,5)] by simp
  then obtain kvs' where b: "b = JObj kvs'" using json_kind_inv(6) by blast
  have "kvs = kvs' \<and> r = s"
  proof (rule join_comma_cancel [where f = ?m and c = "CHR ''}''"])
    fix x y r s
    assume *: "x \<in> set kvs" "y \<in> set kvs'" "token_end r" "token_end s" "?m x @ r = ?m y @ s"
    obtain k v k' v' where xy: "x = (k, v)" "y = (k', v')" by (cases x; cases y) auto
    have "wf_json v" "wf_json v'" using JObj.prems(1,2) b * xy by auto
    then have "dumps v @ r = dumps v' @ s \<Longrightarrow> v = v' \<and> r = s"
      using JObj.IH [of x v v' r s] * xy by (auto simp: snds.simps)
    then show "x = y \<and> r = s"
      using member_cancel [of k v r k' v' s] * xy by simp
  next
    fix x assume "x \<in> set kvs \<union> set kvs'"
    then show "?m x \<noteq> [] \<and> \<not> token_end (?m x)"
      by (cases x) (simp add: json_string_def token_end_def)
  qed (use JObj.prems(5) b in simp_all)
  then show ?case using b by simp
next
  case JNull
  have "json_kind b = 0" using kind_eq [OF JNull(1,2,5)] by simp
  then have "b = JNull" by (rule json_kind_inv(1))
  with JNull(5) show ?case by simp
next
  case (JBool v)
  have "json_kind b = (if v then 1 else 2)" using kind_eq [OF JBool(1,2,5)] by simp
  then have "b = JBool v" using json_kind_inv(2,3) by (cases v) auto
  with JBool(5) show ?case by simp
next
  case (JStr t)
  have "json_kind b = 3" using kind_eq [OF JStr(1,2,5)] by simp
  then obtain u where "b = JStr u" using json_kind_inv(4) by blast
  with JStr(5) show ?case using json_str.enc_cancel by simp
qed (rule number_cancel; simp)+

lemma dumps_inject: "wf_json a \<Longrightarrow> wf_json b \<Longrightarrow> dumps a = dumps b \<Longrightarrow> a = b"
  using dumps_cancel [of a b "[]" "[]"] by simp

text \<open>The output is one line of printable ASCII.\<close>

definition printable :: "char \<Rightarrow> bool" where
  "printable c = (let n = code_point c in 32 \<le> n \<and> n \<le> 126)"

lemma hex_digit_printable: "n < 16 \<Longrightarrow> printable (hex_digit n)"
  by (auto simp: printable_def hex_digit_def Let_def)

lemma json_escape_printable: "x \<in> set (json_escape c) \<Longrightarrow> printable x"
proof -
  have k: "\<forall>x\<in>set [quote2, backslash, CHR ''n'', CHR ''r'', CHR ''t'', CHR ''b'', CHR ''f'', CHR ''u'', CHR ''0'']. printable x"
    by code_simp
  have h: "printable (hex_digit (code_point c div 16))" "printable (hex_digit (code_point c mod 16))"
    by (auto intro!: hex_digit_printable simp: less_mult_imp_div_less)
  assume "x \<in> set (json_escape c)"
  then have "x \<in> set [quote2, backslash, CHR ''n'', CHR ''r'', CHR ''t'', CHR ''b'', CHR ''f'', CHR ''u'', CHR ''0'']
      \<or> x \<in> {hex_digit (code_point c div 16), hex_digit (code_point c mod 16)}
      \<or> (x = c \<and> printable c)"
    by (auto simp: json_escape_def Let_def hex2_def printable_def split: if_splits)
  then show ?thesis using k h by blast
qed

lemma json_string_printable: "x \<in> set (json_string s) \<Longrightarrow> printable x"
  using json_escape_printable by (auto simp: json_string_def printable_def)

lemma num_char_printable: "num_char c \<Longrightarrow> printable c"
  by (auto simp: num_char_def printable_def is_digit_def is_upper_def is_lower_def Let_def)

lemma set_join: "set (join sep ss) \<subseteq> set sep \<union> (\<Union>s\<in>set ss. set s)"
  by (induction sep ss rule: join.induct) auto

lemma punctuation_printable [simp]:
  "printable CHR ''['' \<and> printable CHR '']'' \<and> printable CHR ''{'' \<and> printable CHR ''}''
     \<and> printable CHR '','' \<and> printable CHR '':''"
  by code_simp

lemma dumps_printable: "wf_json j \<Longrightarrow> x \<in> set (dumps j) \<Longrightarrow> printable x"
proof (induction j arbitrary: x)
  case (JArr xs)
  then show ?case using set_join [of "'',''" "map dumps xs"] by auto
next
  case (JObj kvs)
  from JObj.prems(2) consider "x \<in> set ''{}''" | "x \<in> set (join '','' (map (\<lambda>(k, v). json_string k @ '':'' @ dumps v) kvs))"
    by auto
  then show ?case
  proof cases
    case 1
    then show ?thesis by auto
  next
    case 2
    then consider "x = CHR '',''" | k v where "(k, v) \<in> set kvs" "x \<in> set (json_string k @ '':'' @ dumps v)"
      using set_join [of "'',''" "map (\<lambda>(k, v). json_string k @ '':'' @ dumps v) kvs"] by fastforce
    then show ?thesis
    proof cases
      case (2 k v)
      then show ?thesis using JObj.IH [of "(k, v)" v x] JObj.prems(1) json_string_printable
        by auto
    qed simp
  qed
next
  case (JInt i)
  then show ?case by (simp add: int_str_chars num_char_int num_char_printable)
next
  case (JFloat t)
  then show ?case by (simp add: float_text_def num_char_printable)
next
  case (JStr s)
  then show ?case by (simp add: json_string_printable)
qed (auto simp: printable_def split: if_splits)

lemma newline_not_printable [simp]: "\<not> printable newline"
  by (simp add: printable_def)

end
