(* ===== verification/Sha256.thy ===== *)
theory Sha256
  imports PyStr "HOL-Library.Word"
begin

text \<open>
  \<^verbatim>\<open>hashlib.sha256(data).hexdigest()\<close>, which the content hash is folded with: the padding, the
  message schedule and the compression on \<open>32 word\<close>s. A byte string is a string of code points
  below 256. What the hash relies on is the shape of the result: 64 hexadecimal digits.
\<close>

unbundle bit_operations_syntax

text \<open>
  The constants of the standard, from their definition: the first 32 bits of the fractional parts of
  the cube roots of the first 64 primes, and of the square roots of the first eight.
  \<open>root_digits e n b\<close> is the greatest number below \<open>2 ^ b\<close> whose \<open>e\<close>-th power is at most \<open>n\<close>.
\<close>

fun root_digits :: "nat \<Rightarrow> nat \<Rightarrow> nat \<Rightarrow> nat \<Rightarrow> nat" where
  "root_digits e n 0 acc = acc"
| "root_digits e n (Suc b) acc =
     root_digits e n b (if (acc + 2 ^ b) ^ e \<le> n then acc + 2 ^ b else acc)"

definition root_fraction :: "nat \<Rightarrow> nat \<Rightarrow> 32 word" where
  "root_fraction e p = of_nat (root_digits e (p * 2 ^ (32 * e)) 40 0)"

definition sha_primes :: "nat list" where
  "sha_primes = filter (\<lambda>p. list_all (\<lambda>d. p mod d \<noteq> 0) [2..<p]) [2..<312]"

definition sha_k :: "32 word list" where
  "sha_k = map (root_fraction 3) sha_primes"

definition sha_init :: "32 word list" where
  "sha_init = map (root_fraction 2) [2, 3, 5, 7, 11, 13, 17, 19]"

definition rotr32 :: "nat \<Rightarrow> 32 word \<Rightarrow> 32 word" where
  "rotr32 n x = drop_bit n x OR push_bit (32 - n) x"

definition small_sigma0 :: "32 word \<Rightarrow> 32 word" where
  "small_sigma0 x = rotr32 7 x XOR rotr32 18 x XOR drop_bit 3 x"

definition small_sigma1 :: "32 word \<Rightarrow> 32 word" where
  "small_sigma1 x = rotr32 17 x XOR rotr32 19 x XOR drop_bit 10 x"

definition big_sigma0 :: "32 word \<Rightarrow> 32 word" where
  "big_sigma0 x = rotr32 2 x XOR rotr32 13 x XOR rotr32 22 x"

definition big_sigma1 :: "32 word \<Rightarrow> 32 word" where
  "big_sigma1 x = rotr32 6 x XOR rotr32 11 x XOR rotr32 25 x"

text \<open>Padding to a multiple of 64 bytes, the bit length last.\<close>

fun bytes_be :: "nat \<Rightarrow> nat \<Rightarrow> nat list" where
  "bytes_be 0 n = []"
| "bytes_be (Suc k) n = bytes_be k (n div 256) @ [n mod 256]"

definition sha_pad :: "string \<Rightarrow> nat list" where
  "sha_pad m = (let n = length m in
     map code_point m @ [128] @ replicate ((119 - n mod 64) mod 64) 0 @ bytes_be 8 (8 * n))"

fun words_be :: "nat list \<Rightarrow> 32 word list" where
  "words_be (a # b # c # d # r) = of_nat (((a * 256 + b) * 256 + c) * 256 + d) # words_be r"
| "words_be _ = []"

fun blocks_of :: "nat \<Rightarrow> 'a list \<Rightarrow> 'a list list" where
  "blocks_of k [] = []"
| "blocks_of k (x # xs) = (x # take k xs) # blocks_of k (drop k xs)"

text \<open>The message schedule, newest word first.\<close>

fun sha_extend :: "nat \<Rightarrow> 32 word list \<Rightarrow> 32 word list" where
  "sha_extend 0 ws = ws"
| "sha_extend (Suc k) ws =
     sha_extend k ((small_sigma1 (ws ! 1) + ws ! 6 + small_sigma0 (ws ! 14) + ws ! 15) # ws)"

fun sha_round :: "32 word \<times> 32 word \<Rightarrow> 32 word list \<Rightarrow> 32 word list" where
  "sha_round (k, w) [a, b, c, d, e, f, g, h] =
     (let t1 = h + big_sigma1 e + ((e AND f) XOR (NOT e AND g)) + k + w;
          t2 = big_sigma0 a + ((a AND b) XOR (a AND c) XOR (b AND c))
      in [t1 + t2, a, b, c, d + t1, e, f, g])"
| "sha_round kw s = s"

definition sha_compress :: "32 word list \<Rightarrow> 32 word list \<Rightarrow> 32 word list" where
  "sha_compress block s =
     map2 (+) s (fold sha_round (zip sha_k (rev (sha_extend 48 (rev block)))) s)"

definition hex_of_nibble :: "nat \<Rightarrow> char" where
  "hex_of_nibble d = (if d < 10 then char_of (48 + d) else char_of (87 + d))"

fun nibbles :: "nat \<Rightarrow> nat \<Rightarrow> string" where
  "nibbles 0 n = []"
| "nibbles (Suc k) n = nibbles k (n div 16) @ [hex_of_nibble (n mod 16)]"

definition sha256_hex :: "string \<Rightarrow> string" where
  "sha256_hex m = concat (map (\<lambda>w. nibbles 8 (unat w))
     (fold sha_compress (blocks_of 15 (words_be (sha_pad m))) sha_init))"

section \<open>The shape of a digest\<close>

definition is_hex :: "char \<Rightarrow> bool" where
  "is_hex c \<longleftrightarrow> c \<in> set ''0123456789abcdef''"

lemma hex_ascii: "is_hex c \<Longrightarrow> code_point c < 128"
  by (auto simp: is_hex_def)

lemma hex_of_nibble_hex: "d < 16 \<Longrightarrow> is_hex (hex_of_nibble d)"
proof -
  have "\<forall>d\<in>set [0..<16]. is_hex (hex_of_nibble d)" by code_simp
  then show "d < 16 \<Longrightarrow> is_hex (hex_of_nibble d)" by simp
qed

lemma nibbles_shape: "length (nibbles k n) = k" "c \<in> set (nibbles k n) \<Longrightarrow> is_hex c"
  by (induction k n rule: nibbles.induct) (auto intro: hex_of_nibble_hex)

lemma sha_round_length: "length (sha_round kw s) = length s"
  by (cases "(kw, s)" rule: sha_round.cases) (simp_all add: Let_def)

lemma sha_compress_length: "length (sha_compress b s) = length s"
proof -
  have "length (fold sha_round kws t) = length t" for kws t
    by (induction kws arbitrary: t) (simp_all add: sha_round_length)
  then show ?thesis by (simp add: sha_compress_def)
qed

lemma sha256_hex_length [simp]: "length (sha256_hex m) = 64"
proof -
  have "length (fold sha_compress bs s) = length s" for bs s
    by (induction bs arbitrary: s) (simp_all add: sha_compress_length)
  then have "length (fold sha_compress bs sha_init) = 8" for bs
    by (simp add: sha_init_def)
  then show ?thesis
    by (simp add: sha256_hex_def length_concat comp_def nibbles_shape(1) sum_list_triv)
qed

lemma sha256_hex_chars: "c \<in> set (sha256_hex m) \<Longrightarrow> is_hex c"
  by (auto simp: sha256_hex_def dest: nibbles_shape(2))

lemma sha256_hex_not_Nil [simp]: "sha256_hex m \<noteq> []"
  using sha256_hex_length [of m] by force

end
