(* ===== verification/SqlTypes.thy ===== *)
theory SqlTypes
  imports PyValue
begin

text \<open>
  The column-type grammar and what is computed from it: \<open>validate_column_type\<close>
  (\<^verbatim>\<open>contract/continuo_engine_contract/types.py\<close>), \<open>parse_sql_type\<close> and \<open>arrow_type\<close>
  (\<^verbatim>\<open>continuo_python_runtime/types.py\<close>). The regular expression is modelled as a scanner
  that reads the alternatives in the order of the pattern. The lemmas show the guard the adapters
  rely on (no accepted type carries a character that could leave a DDL statement), when a parsed
  type is well formed and has an Arrow type, and that every well-formed type is parsed back from
  its canonical spelling.
\<close>

section \<open>The grammar guard\<close>

text \<open>\<open>scan_digits\<close> is \<^verbatim>\<open>\d+\<close>: the digits, and the rest, if there is a digit.\<close>

definition scan_digits :: "string \<Rightarrow> (string \<times> string) option" where
  "scan_digits s = (let d = takeWhile is_digit s
     in if d = [] then None else Some (d, dropWhile is_digit s))"

definition drop_prefix :: "string \<Rightarrow> string \<Rightarrow> string option" where
  "drop_prefix p s = (if starts_with p s then Some (drop (length p) s) else None)"

text \<open>\<^verbatim>\<open>\(\d+,\s*\d+\)\Z\<close> and \<^verbatim>\<open>\(\d+\)\Z\<close>, after the opening parenthesis.\<close>

definition two_args :: "string \<Rightarrow> bool" where
  "two_args s = (case scan_digits s of
       Some (d1, c # r) \<Rightarrow> c = CHR '','' \<and>
         (case scan_digits (dropWhile ascii_space r) of
            Some (d2, r') \<Rightarrow> r' = '')''
          | None \<Rightarrow> False)
     | _ \<Rightarrow> False)"

definition one_arg :: "string \<Rightarrow> bool" where
  "one_arg s = (case scan_digits s of None \<Rightarrow> False | Some (d, r) \<Rightarrow> r = '')'')"

definition bare_types :: "string list" where
  "bare_types = [''BIGINT'', ''INT'', ''INTEGER'', ''DOUBLE PRECISION'', ''TEXT'', ''TIMESTAMP'',
     ''DATE'', ''BOOLEAN'']"

definition args_of :: "string \<Rightarrow> string \<Rightarrow> (string \<Rightarrow> bool) \<Rightarrow> bool" where
  "args_of base s p = (case drop_prefix (base @ ''('') s of None \<Rightarrow> False | Some r \<Rightarrow> p r)"

text \<open>
  \<open>TYPE_RE\<close>: the flags \<^verbatim>\<open>re.IGNORECASE | re.ASCII\<close> make a letter of the pattern match its
  two ASCII cases, so the scanner reads the upper-cased text.
\<close>

definition type_re :: "string \<Rightarrow> bool" where
  "type_re s = (let u = ascii_upper s in
     u \<in> set bare_types
     \<or> args_of ''NUMERIC'' u two_args \<or> args_of ''DECIMAL'' u two_args
     \<or> args_of ''VARCHAR'' u one_arg \<or> args_of ''CHAR'' u one_arg)"

definition validate_column_type :: "string \<Rightarrow> unit res" where
  "validate_column_type t =
     require (type_re t) (Exn ValueError (''unsupported or invalid SQL type: '' @ repr_str t))"

section \<open>Parsing\<close>

record sql_type =
  base :: string
  precision :: "nat option"
  scale :: "nat option"
  len :: "nat option"

definition bare_type :: "string \<Rightarrow> sql_type" where
  "bare_type b = \<lparr>base = b, precision = None, scale = None, len = None\<rparr>"

text \<open>
  \<^verbatim>\<open>re.match(r"^([A-Z_]+)\s*\((.*)\)$", normalized)\<close>: the base, the blanks before the
  parenthesis, then everything up to a closing parenthesis at the end. The dot does not match a
  line feed, and \<^verbatim>\<open>$\<close> also matches before one final line feed.
\<close>

definition is_base_char :: "char \<Rightarrow> bool" where
  "is_base_char c \<longleftrightarrow> is_upper c \<or> c = CHR ''_''"

definition drop_final_newline :: "string \<Rightarrow> string" where
  "drop_final_newline s = (if s \<noteq> [] \<and> last s = newline then butlast s else s)"

definition match_params :: "string \<Rightarrow> (string \<times> string) option" where
  "match_params s = (let b = takeWhile is_base_char s;
       r = dropWhile is_space (dropWhile is_base_char s) in
     if b = [] then None else case r of
       [] \<Rightarrow> None
     | c # r' \<Rightarrow> (let t = drop_final_newline r' in
         if c = CHR ''('' \<and> t \<noteq> [] \<and> last t = CHR '')'' \<and> newline \<notin> set (butlast t)
         then Some (b, butlast t) else None))"

text \<open>\<^verbatim>\<open>int(s)\<close> on a text that the guard let through: blanks around it are ignored.\<close>

definition py_int :: "string \<Rightarrow> nat" where
  "py_int s = digits_val (strip s)"

definition numeric_type :: "string \<Rightarrow> sql_type res" where
  "numeric_type params = (case split_on (CHR '','') params of
       [p, s] \<Rightarrow> (let pr = py_int p; sc = py_int s in
         if \<not> (1 \<le> pr \<and> pr \<le> 38) then
           raise_contract (''type: NUMERIC precision must be between 1 and 38, got '' @ nat_str pr)
         else if \<not> (sc \<le> pr) then
           raise_contract (''type: NUMERIC scale must be between 0 and precision ('' @ nat_str pr
             @ ''), got '' @ nat_str sc)
         else Inr \<lparr>base = ''NUMERIC'', precision = Some pr, scale = Some sc, len = None\<rparr>)
     | _ \<Rightarrow> raise_value ''not enough or too many values to unpack (expected 2)'')"

definition param_type :: "string \<Rightarrow> string \<Rightarrow> sql_type res" where
  "param_type b params = (let b' = (if b = ''DECIMAL'' then ''NUMERIC'' else b) in
     if b' = ''NUMERIC'' then numeric_type params
     else Inr \<lparr>base = b', precision = None, scale = None, len = Some (py_int params)\<rparr>)"

definition parse_sql_type :: "string \<Rightarrow> sql_type res" where
  "parse_sql_type raw0 = (let raw = strip raw0 in
     bind_res (map_exn (\<lambda>e. Exn (Harness ContractError) (exn_text e)) (validate_column_type raw)) (\<lambda>_.
     let normalized = ascii_upper raw in
     if normalized = ''DOUBLE PRECISION'' then Inr (bare_type ''DOUBLE_PRECISION'')
     else case match_params normalized of
       Some (b, params) \<Rightarrow> param_type (strip b) (strip params)
     | None \<Rightarrow> Inr (bare_type (if normalized = ''INT'' then ''INTEGER'' else normalized))))"

section \<open>Arrow types\<close>

text \<open>
  The Arrow types the code names or tests for; any other source type is \<open>ArrowOther\<close> with its
  name.
\<close>

datatype arrow_type =
    Int64 | Int32 | Float16 | Float32 | Float64
  | Decimal128 nat nat
  | Utf8 | TimestampArrow string | Date32 | BoolArrow
  | ArrowOther string

definition repr_opt :: "nat option \<Rightarrow> string" where
  "repr_opt v = (case v of None \<Rightarrow> ''None'' | Some n \<Rightarrow> nat_str n)"

definition repr_sql_type :: "sql_type \<Rightarrow> string" where
  "repr_sql_type t = ''SqlType(base='' @ repr_str (base t) @ '', precision='' @ repr_opt (precision t)
     @ '', scale='' @ repr_opt (scale t) @ '', length='' @ repr_opt (len t) @ '')''"

definition arrow_type_of :: "sql_type \<Rightarrow> arrow_type res" where
  "arrow_type_of t =
     (if base t = ''BIGINT'' then Inr Int64
      else if base t = ''INTEGER'' then Inr Int32
      else if base t = ''DOUBLE_PRECISION'' then Inr Float64
      else if base t = ''NUMERIC'' then
        (case (precision t, scale t) of
           (Some p, Some s) \<Rightarrow> Inr (Decimal128 p s)
         | _ \<Rightarrow> raise_value (''NUMERIC requires precision and scale, got '' @ repr_sql_type t))
      else if base t = ''VARCHAR'' then Inr Utf8
      else if base t = ''CHAR'' then Inr Utf8
      else if base t = ''TEXT'' then Inr Utf8
      else if base t = ''TIMESTAMP'' then Inr (TimestampArrow ''us'')
      else if base t = ''DATE'' then Inr Date32
      else if base t = ''BOOLEAN'' then Inr BoolArrow
      else raise_value (''unknown SQL type base: '' @ base t))"

text \<open>What a parsed type is meant to be, and its canonical spelling.\<close>

definition wf_sql_type :: "sql_type \<Rightarrow> bool" where
  "wf_sql_type t \<longleftrightarrow>
     (base t \<in> {''BIGINT'', ''INTEGER'', ''DOUBLE_PRECISION'', ''TEXT'', ''TIMESTAMP'', ''DATE'', ''BOOLEAN''}
        \<and> precision t = None \<and> scale t = None \<and> len t = None)
     \<or> (base t = ''NUMERIC'' \<and> len t = None
        \<and> (\<exists>p s. precision t = Some p \<and> scale t = Some s \<and> 1 \<le> p \<and> p \<le> 38 \<and> s \<le> p))
     \<or> (base t \<in> {''VARCHAR'', ''CHAR''} \<and> precision t = None \<and> scale t = None \<and> len t \<noteq> None)"

definition show_sql_type :: "sql_type \<Rightarrow> string" where
  "show_sql_type t =
     (if base t = ''DOUBLE_PRECISION'' then ''DOUBLE PRECISION''
      else case (precision t, scale t, len t) of
        (Some p, Some s, _) \<Rightarrow> base t @ ''('' @ nat_str p @ '','' @ nat_str s @ '')''
      | (_, _, Some n) \<Rightarrow> base t @ ''('' @ nat_str n @ '')''
      | _ \<Rightarrow> base t)"

section \<open>The scanner\<close>

lemma scan_digits_iff:
  "scan_digits s = Some (d, r) \<longleftrightarrow>
     s = d @ r \<and> d \<noteq> [] \<and> (\<forall>c\<in>set d. is_digit c) \<and> (r = [] \<or> \<not> is_digit (hd r))"
proof
  assume "scan_digits s = Some (d, r)"
  then have d: "d = takeWhile is_digit s" "d \<noteq> []" and r: "r = dropWhile is_digit s"
    by (auto simp: scan_digits_def Let_def split: if_splits)
  then show "s = d @ r \<and> d \<noteq> [] \<and> (\<forall>c\<in>set d. is_digit c) \<and> (r = [] \<or> \<not> is_digit (hd r))"
    using hd_dropWhile [of is_digit s] by (auto dest: set_takeWhileD)
next
  assume *: "s = d @ r \<and> d \<noteq> [] \<and> (\<forall>c\<in>set d. is_digit c) \<and> (r = [] \<or> \<not> is_digit (hd r))"
  then have "takeWhile is_digit s = d" "dropWhile is_digit s = r"
    by (cases r; simp add: takeWhile_append dropWhile_append)+
  with * show "scan_digits s = Some (d, r)" by (simp add: scan_digits_def)
qed

lemma drop_prefix_eq_Some: "drop_prefix p s = Some r \<longleftrightarrow> s = p @ r"
  by (auto simp: drop_prefix_def starts_with_iff)

lemma not_digit_simps [simp]:
  "\<not> is_digit CHR '')''" "\<not> is_digit CHR '',''" "\<not> ascii_space CHR '')''" "\<not> is_digit newline"
  by (simp_all add: is_digit_def ascii_space_def)

lemma digit_not_ascii_space: "is_digit c \<Longrightarrow> \<not> ascii_space c"
  using digit_not_space ascii_space_is_space by blast

lemma dropWhile_prefix: "\<forall>c\<in>set w. p c \<Longrightarrow> s \<noteq> [] \<Longrightarrow> \<not> p (hd s) \<Longrightarrow> dropWhile p (w @ s) = s"
  by (cases s) (simp_all add: dropWhile_append)

text \<open>The arguments of \<^verbatim>\<open>NUMERIC\<close>: digits, a comma, blanks, digits, the parenthesis.\<close>

lemma two_args_iff:
  "two_args s \<longleftrightarrow> (\<exists>d1 w d2. s = d1 @ CHR '','' # w @ d2 @ '')''
     \<and> d1 \<noteq> [] \<and> (\<forall>c\<in>set d1. is_digit c) \<and> (\<forall>c\<in>set w. ascii_space c)
     \<and> d2 \<noteq> [] \<and> (\<forall>c\<in>set d2. is_digit c))"
proof
  assume "two_args s"
  then obtain d1 r where s0: "scan_digits s = Some (d1, r)" and c0: "r \<noteq> []"
    by (cases "scan_digits s") (auto simp: two_args_def split: list.splits)
  from c0 obtain c r' where r0: "r = c # r'" by (cases r) auto
  with \<open>two_args s\<close> s0 obtain d2 where s: "scan_digits s = Some (d1, CHR '','' # r')"
    and r: "scan_digits (dropWhile ascii_space r') = Some (d2, '')'')"
    by (auto simp: two_args_def split: option.splits)
  have "r' = takeWhile ascii_space r' @ d2 @ '')''"
    using r takeWhile_dropWhile_id [of ascii_space r'] by (simp add: scan_digits_iff)
  with s r show "\<exists>d1 w d2. s = d1 @ CHR '','' # w @ d2 @ '')''
     \<and> d1 \<noteq> [] \<and> (\<forall>c\<in>set d1. is_digit c) \<and> (\<forall>c\<in>set w. ascii_space c)
     \<and> d2 \<noteq> [] \<and> (\<forall>c\<in>set d2. is_digit c)"
    unfolding scan_digits_iff by (metis set_takeWhileD)
next
  assume "\<exists>d1 w d2. s = d1 @ CHR '','' # w @ d2 @ '')''
     \<and> d1 \<noteq> [] \<and> (\<forall>c\<in>set d1. is_digit c) \<and> (\<forall>c\<in>set w. ascii_space c)
     \<and> d2 \<noteq> [] \<and> (\<forall>c\<in>set d2. is_digit c)"
  then obtain d1 w d2 where s: "s = d1 @ CHR '','' # w @ d2 @ '')''"
    and d1: "d1 \<noteq> []" "\<forall>c\<in>set d1. is_digit c" and w: "\<forall>c\<in>set w. ascii_space c"
    and d2: "d2 \<noteq> []" "\<forall>c\<in>set d2. is_digit c" by blast
  have 1: "scan_digits s = Some (d1, CHR '','' # w @ d2 @ '')'')"
    unfolding scan_digits_iff using s d1 by simp
  have 2: "dropWhile ascii_space (w @ d2 @ '')'') = d2 @ '')''"
    using w d2 by (intro dropWhile_prefix) (auto simp: digit_not_ascii_space)
  have 3: "scan_digits (d2 @ '')'') = Some (d2, '')'')"
    unfolding scan_digits_iff using d2 by simp
  show "two_args s" unfolding two_args_def using 1 2 3 by simp
qed

lemma one_arg_iff:
  "one_arg s \<longleftrightarrow> (\<exists>d. s = d @ '')'' \<and> d \<noteq> [] \<and> (\<forall>c\<in>set d. is_digit c))"
proof
  assume "one_arg s"
  then show "\<exists>d. s = d @ '')'' \<and> d \<noteq> [] \<and> (\<forall>c\<in>set d. is_digit c)"
    by (auto simp: one_arg_def scan_digits_iff split: option.splits)
next
  assume "\<exists>d. s = d @ '')'' \<and> d \<noteq> [] \<and> (\<forall>c\<in>set d. is_digit c)"
  then obtain d where "s = d @ '')''" "d \<noteq> []" "\<forall>c\<in>set d. is_digit c" by blast
  then have "scan_digits s = Some (d, '')'')" unfolding scan_digits_iff by simp
  then show "one_arg s" by (simp add: one_arg_def)
qed

text \<open>The three shapes of an accepted type, after upper-casing.\<close>

lemma type_re_cases:
  assumes "type_re s"
  obtains (bare) "ascii_upper s \<in> set bare_types"
    | (num) b d1 w d2 where "ascii_upper s = b @ ''('' @ (d1 @ CHR '','' # w @ d2) @ '')''"
        "b = ''NUMERIC'' \<or> b = ''DECIMAL''" "d1 \<noteq> []" "\<forall>c\<in>set d1. is_digit c"
        "\<forall>c\<in>set w. ascii_space c" "d2 \<noteq> []" "\<forall>c\<in>set d2. is_digit c"
    | (chars) b d where "ascii_upper s = b @ ''('' @ d @ '')''" "b = ''VARCHAR'' \<or> b = ''CHAR''"
        "d \<noteq> []" "\<forall>c\<in>set d. is_digit c"
proof -
  let ?u = "ascii_upper s"
  have args: "args_of b ?u p \<Longrightarrow> \<exists>r. ?u = b @ ''('' @ r \<and> p r" for b p
    by (auto simp: args_of_def drop_prefix_eq_Some split: option.splits)
  from assms consider "?u \<in> set bare_types"
    | b where "args_of b ?u two_args" "b = ''NUMERIC'' \<or> b = ''DECIMAL''"
    | b where "args_of b ?u one_arg" "b = ''VARCHAR'' \<or> b = ''CHAR''"
    unfolding type_re_def Let_def by blast
  then show thesis
  proof cases
    case 1
    then show ?thesis by (rule bare)
  next
    case (2 b)
    then obtain r where r: "?u = b @ ''('' @ r" "two_args r" using args by blast
    from r(2) obtain d1 w d2 where "r = d1 @ CHR '','' # w @ d2 @ '')''" "d1 \<noteq> []"
      "\<forall>c\<in>set d1. is_digit c" "\<forall>c\<in>set w. ascii_space c" "d2 \<noteq> []" "\<forall>c\<in>set d2. is_digit c"
      unfolding two_args_iff by blast
    then show ?thesis using num [of b d1 w d2] r 2(2) by simp
  next
    case (3 b)
    then obtain r where r: "?u = b @ ''('' @ r" "one_arg r" using args by blast
    then show ?thesis using chars [of b] 3(2) unfolding one_arg_iff by auto
  qed
qed

section \<open>Parsing an accepted type\<close>

lemma is_upper_is_lower: "is_upper c \<Longrightarrow> \<not> is_lower c"
  by (auto simp: is_upper_def is_lower_def Let_def)

lemma upper_char_newline [simp]: "upper_char c = newline \<longleftrightarrow> c = newline"
proof
  assume *: "upper_char c = newline"
  show "c = newline"
  proof (cases "is_lower c")
    case True
    then have "code_point (upper_char c) = code_point c - 32"
      by (auto simp: upper_char_def is_lower_def Let_def intro!: mod_less)
    with * have "code_point c - 32 = 10" by simp
    with True have False unfolding is_lower_def Let_def by arith
    then show ?thesis ..
  qed (use * in \<open>simp add: upper_char_def\<close>)
qed (simp add: upper_char_def is_lower_def)

lemma newline_ascii_upper [simp]: "newline \<in> upper_char ` A \<longleftrightarrow> newline \<in> A"
  by (auto simp: image_iff eq_commute [of newline])

lemma base_char_not_space: "is_base_char c \<Longrightarrow> \<not> is_space c"
  by (auto simp: is_base_char_def is_upper_def is_space_def Let_def)

lemma match_params_paren:
  assumes "b \<noteq> []" and "\<forall>c\<in>set b. is_base_char c"
  shows "match_params (b @ ''('' @ body @ '')'') =
    (if newline \<in> set body then None else Some (b, body))"
proof -
  have "\<not> is_base_char CHR ''(''" "\<not> is_space CHR ''(''"
    by (simp_all add: is_base_char_def is_upper_def is_space_def)
  then have "takeWhile is_base_char (b @ ''('' @ body @ '')'') = b"
    and "dropWhile is_base_char (b @ ''('' @ body @ '')'') = ''('' @ body @ '')''"
    using assms(2) by (simp_all add: takeWhile_append dropWhile_append)
  then show ?thesis
    using assms(1) \<open>\<not> is_space CHR ''(''\<close>
    by (simp add: match_params_def Let_def drop_final_newline_def)
qed

lemma match_params_bare: "CHR ''('' \<notin> set s \<Longrightarrow> match_params s = None"
  by (auto simp: match_params_def Let_def split: list.splits dest!: set_dropWhileD)
    (metis list.set_intros(1) set_dropWhileD)

lemma comma_not_digit [simp]: "is_digit c \<Longrightarrow> c \<noteq> CHR '',''" "ascii_space c \<Longrightarrow> c \<noteq> CHR '',''"
  by (auto simp: is_digit_def ascii_space_def Let_def)

lemma strip_digits: "\<forall>c\<in>set d. is_digit c \<Longrightarrow> strip d = d"
  by (rule strip_no_space) (auto simp: digit_not_space)

lemma numeric_params:
  assumes "d1 \<noteq> []" "\<forall>c\<in>set d1. is_digit c" "\<forall>c\<in>set w. ascii_space c"
    "d2 \<noteq> []" "\<forall>c\<in>set d2. is_digit c"
  shows "strip (d1 @ CHR '','' # w @ d2) = d1 @ CHR '','' # w @ d2"
    and "split_on (CHR '','') (d1 @ CHR '','' # w @ d2) = [d1, w @ d2]"
    and "py_int d1 = digits_val d1" "py_int (w @ d2) = digits_val d2"
proof -
  show "strip (d1 @ CHR '','' # w @ d2) = d1 @ CHR '','' # w @ d2"
    using assms by (intro strip_ends) (auto simp: digit_not_space)
  have "\<not> is_digit CHR '',''" "\<not> ascii_space CHR '',''"
    by (simp_all add: is_digit_def ascii_space_def)
  then have "CHR '','' \<notin> set d1" "CHR '','' \<notin> set (w @ d2)" using assms by auto
  then show "split_on (CHR '','') (d1 @ CHR '','' # w @ d2) = [d1, w @ d2]"
    by (simp add: split_on_append split_on_free)
  show "py_int d1 = digits_val d1" using assms by (simp add: py_int_def strip_digits)
  show "py_int (w @ d2) = digits_val d2"
    using assms by (simp add: py_int_def strip_blank_prefix ascii_space_is_space strip_digits)
qed

text \<open>What \<open>parse_sql_type\<close> returns, shape by shape.\<close>

lemma parse_type_rejected:
  "\<not> type_re (strip raw) \<Longrightarrow> parse_sql_type raw =
     raise_contract (''unsupported or invalid SQL type: '' @ repr_str (strip raw))"
  by (simp add: parse_sql_type_def validate_column_type_def)

lemma parse_type_accepted:
  "type_re (strip raw) \<Longrightarrow> parse_sql_type raw = (let normalized = ascii_upper (strip raw) in
     if normalized = ''DOUBLE PRECISION'' then Inr (bare_type ''DOUBLE_PRECISION'')
     else case match_params normalized of
       Some (b, params) \<Rightarrow> param_type (strip b) (strip params)
     | None \<Rightarrow> Inr (bare_type (if normalized = ''INT'' then ''INTEGER'' else normalized)))"
  by (simp add: parse_sql_type_def validate_column_type_def)

lemma base_names [simp]:
  "\<forall>c\<in>set ''NUMERIC''. is_base_char c" "\<forall>c\<in>set ''DECIMAL''. is_base_char c"
  "\<forall>c\<in>set ''VARCHAR''. is_base_char c" "\<forall>c\<in>set ''CHAR''. is_base_char c"
  "strip ''NUMERIC'' = ''NUMERIC''" "strip ''DECIMAL'' = ''DECIMAL''"
  "strip ''VARCHAR'' = ''VARCHAR''" "strip ''CHAR'' = ''CHAR''"
  by (simp_all add: is_base_char_def is_upper_def strip_def lstrip_def rstrip_def is_space_def)


text \<open>
  The main dichotomy: without a line feed in the text, an accepted type is well formed; with one
  (inside the blanks after the comma of \<^verbatim>\<open>NUMERIC(p,s)\<close>, where the guard allows it), the
  whole text becomes the base name, and no range is checked.
\<close>

lemma parse_num_shape:
  assumes "ascii_upper (strip raw) = b @ ''('' @ (d1 @ CHR '','' # w @ d2) @ '')''"
    and "b = ''NUMERIC'' \<or> b = ''DECIMAL''" and "type_re (strip raw)"
    and "d1 \<noteq> []" "\<forall>c\<in>set d1. is_digit c" "\<forall>c\<in>set w. ascii_space c"
    and "d2 \<noteq> []" "\<forall>c\<in>set d2. is_digit c"
  shows "parse_sql_type raw =
    (if newline \<in> set w then Inr (bare_type (ascii_upper (strip raw)))
     else if \<not> (1 \<le> digits_val d1 \<and> digits_val d1 \<le> 38) then
       raise_contract (''type: NUMERIC precision must be between 1 and 38, got '' @ nat_str (digits_val d1))
     else if \<not> digits_val d2 \<le> digits_val d1 then
       raise_contract (''type: NUMERIC scale must be between 0 and precision (''
         @ nat_str (digits_val d1) @ ''), got '' @ nat_str (digits_val d2))
     else Inr \<lparr>base = ''NUMERIC'', precision = Some (digits_val d1),
       scale = Some (digits_val d2), len = None\<rparr>)"
proof -
  let ?u = "ascii_upper (strip raw)"
  let ?p = "d1 @ CHR '','' # w @ d2"
  have u: "?u \<noteq> ''DOUBLE PRECISION''" "?u \<noteq> ''INT''"
    unfolding assms(1) using assms(2) by auto
  have nl: "newline \<in> set ?p \<longleftrightarrow> newline \<in> set w"
    using assms(5,8) by auto
  have b: "b \<noteq> []" "\<forall>c\<in>set b. is_base_char c" "strip b = b" using assms(2) by auto
  have m: "match_params ?u = (if newline \<in> set w then None else Some (b, ?p))"
    unfolding assms(1) by (subst match_params_paren [OF b(1,2)]) (simp only: nl)
  note num = numeric_params [OF assms(4-8)]
  have "param_type b ?p = numeric_type ?p" using assms(2) by (auto simp: param_type_def)
  then show ?thesis
    using parse_type_accepted [OF assms(3)] u
    by (cases "newline \<in> set w") (simp_all add: m Let_def b num numeric_type_def)
qed

lemma parse_char_shape:
  assumes "ascii_upper (strip raw) = b @ ''('' @ d @ '')''" "b = ''VARCHAR'' \<or> b = ''CHAR''"
    and "type_re (strip raw)" "d \<noteq> []" "\<forall>c\<in>set d. is_digit c"
  shows "parse_sql_type raw =
    Inr \<lparr>base = b, precision = None, scale = None, len = Some (digits_val d)\<rparr>"
    and "newline \<notin> set (strip raw)"
proof -
  let ?u = "ascii_upper (strip raw)"
  have u: "?u \<noteq> ''DOUBLE PRECISION''" "?u \<noteq> ''INT''"
    unfolding assms(1) using assms(2) by auto
  have b: "b \<noteq> []" "\<forall>c\<in>set b. is_base_char c" "strip b = b" using assms(2) by auto
  have d: "newline \<notin> set d" using assms(5) by auto
  have m: "match_params ?u = Some (b, d)"
    unfolding assms(1) using match_params_paren [OF b(1,2), of d] d by simp
  have "param_type b d = Inr \<lparr>base = b, precision = None, scale = None, len = Some (digits_val d)\<rparr>"
    using assms(2,5) by (auto simp: param_type_def py_int_def strip_digits)
  then show "parse_sql_type raw =
    Inr \<lparr>base = b, precision = None, scale = None, len = Some (digits_val d)\<rparr>"
    using parse_type_accepted [OF assms(3)] u assms(5) by (simp add: m b strip_digits)
  have "newline \<notin> set ?u" unfolding assms(1) using assms(2) d by auto
  then show "newline \<notin> set (strip raw)" by simp
qed

lemma parse_bare_shape:
  assumes "ascii_upper (strip raw) \<in> set bare_types"
  shows "\<exists>b. parse_sql_type raw = Inr (bare_type b) \<and> wf_sql_type (bare_type b)"
    and "newline \<notin> set (strip raw)"
proof -
  have t: "type_re (strip raw)" using assms by (simp add: type_re_def)
  have "\<forall>u\<in>set bare_types. CHR ''('' \<notin> set u" by (simp add: bare_types_def)
  then have "CHR ''('' \<notin> set (ascii_upper (strip raw))" using assms by blast
  then have "match_params (ascii_upper (strip raw)) = None" by (rule match_params_bare)
  then show "\<exists>b. parse_sql_type raw = Inr (bare_type b) \<and> wf_sql_type (bare_type b)"
    using parse_type_accepted [OF t] assms
    by (auto simp: bare_types_def wf_sql_type_def bare_type_def)
  have "\<forall>u\<in>set bare_types. newline \<notin> set u" by (simp add: bare_types_def)
  then have "newline \<notin> set (ascii_upper (strip raw))" using assms by blast
  then show "newline \<notin> set (strip raw)" by simp
qed

lemma arrow_type_of_wf: "wf_sql_type t \<Longrightarrow> \<exists>a. arrow_type_of t = Inr a"
  by (auto simp: wf_sql_type_def arrow_type_of_def)

lemma parse_sql_type_dichotomy:
  assumes "parse_sql_type raw = Inr t"
  shows "if newline \<in> set (strip raw)
    then t = bare_type (ascii_upper (strip raw)) \<and> (\<forall>a. arrow_type_of t \<noteq> Inr a)
    else wf_sql_type t"
proof -
  have acc: "type_re (strip raw)"
    using assms parse_type_rejected by fastforce
  then show ?thesis
  proof (cases rule: type_re_cases)
    case bare
    then show ?thesis using parse_bare_shape [OF bare] assms by auto
  next
    case (num b d1 w d2)
    note sh = parse_num_shape [OF num(1,2) acc num(3-7)]
    have nl: "newline \<in> set (ascii_upper (strip raw)) \<longleftrightarrow> newline \<in> set w"
      unfolding num(1) using num(2,4,7) by auto
    show ?thesis
    proof (cases "newline \<in> set w")
      case True
      then have t: "t = bare_type (ascii_upper (strip raw))" using sh assms by simp
      have "CHR ''('' \<in> set (base t)" unfolding t bare_type_def sql_type.simps num(1) by simp
      then have "arrow_type_of t \<noteq> Inr a" for a by (auto simp: arrow_type_of_def split: if_splits option.splits)
      with t True nl show ?thesis by simp
    next
      case False
      then show ?thesis using sh assms nl
        by (auto simp: wf_sql_type_def split: if_splits)
    qed
  next
    case (chars b d)
    then show ?thesis using parse_char_shape [OF chars(1,2) acc chars(3,4)] assms
      by (auto simp: wf_sql_type_def)
  qed
qed

section \<open>The guard, the canonical spelling\<close>

text \<open>The only characters an accepted type can carry: none of them ends or quotes a DDL token.\<close>

definition ddl_safe_char :: "char \<Rightarrow> bool" where
  "ddl_safe_char c \<longleftrightarrow>
     is_upper c \<or> is_lower c \<or> is_digit c \<or> ascii_space c \<or> c \<in> {CHR ''('', CHR '')'', CHR '',''}"

lemma upper_char_cases: "upper_char c = c \<or> is_lower c"
  by (simp add: upper_char_def)

lemma ddl_safe_upper: "ddl_safe_char (upper_char c) \<Longrightarrow> ddl_safe_char c"
  using upper_char_cases [of c] by (auto simp: ddl_safe_char_def)

lemma ddl_safe_intros:
  "is_upper c \<Longrightarrow> ddl_safe_char c" "is_digit c \<Longrightarrow> ddl_safe_char c" "ascii_space c \<Longrightarrow> ddl_safe_char c"
  "ddl_safe_char CHR ''(''" "ddl_safe_char CHR '')''" "ddl_safe_char CHR '',''"
  by (simp_all add: ddl_safe_char_def)

lemma type_re_safe:
  assumes "type_re s"
  shows "\<forall>c\<in>set s. ddl_safe_char c"
proof -
  have bare_ok: "\<forall>u\<in>set bare_types. \<forall>c\<in>set u. ddl_safe_char c"
    by code_simp
  have name_ok: "\<forall>b\<in>set [''NUMERIC'', ''DECIMAL'', ''VARCHAR'', ''CHAR'']. \<forall>c\<in>set b. ddl_safe_char c"
    by code_simp
  have "\<forall>c\<in>set (ascii_upper s). ddl_safe_char c"
    using assms
  proof (cases rule: type_re_cases)
    case bare
    then show ?thesis using bare_ok by blast
  next
    case (num b d1 w d2)
    then have "\<forall>c\<in>set b. ddl_safe_char c" using name_ok by auto
    with num(4,5,7) show ?thesis
      unfolding num(1) by (simp add: ball_Un ddl_safe_intros)
  next
    case (chars b d)
    then have "\<forall>c\<in>set b. ddl_safe_char c" using name_ok by auto
    with chars(4) show ?thesis
      unfolding chars(1) by (simp add: ball_Un ddl_safe_intros)
  qed
  then show ?thesis by (auto intro: ddl_safe_upper)
qed

lemma upper_digits: "\<forall>c\<in>set d. is_digit c \<Longrightarrow> ascii_upper d = d"
  by (auto simp: upper_char_def is_lower_def is_digit_def Let_def intro!: map_idI)

lemma nat_str_all_digits [simp]: "\<forall>c\<in>set (nat_str n). is_digit c"
  using nat_str_digits by blast

lemma type_re_args:
  "p r \<Longrightarrow> args_of b (b @ ''('' @ r) p"
  using drop_prefix_eq_Some [of "b @ ''(''" "b @ ''('' @ r" r] by (simp add: args_of_def)

lemma parse_show_numeric:
  assumes "1 \<le> p" "p \<le> 38" "s \<le> p"
  shows "parse_sql_type (''NUMERIC('' @ nat_str p @ '','' @ nat_str s @ '')'') =
    Inr \<lparr>base = ''NUMERIC'', precision = Some p, scale = Some s, len = None\<rparr>"
proof -
  let ?raw = "''NUMERIC'' @ ''('' @ (nat_str p @ CHR '','' # [] @ nat_str s) @ '')''"
  have st: "strip ?raw = ?raw" by (rule strip_ends) (simp_all add: is_space_def)
  have up: "ascii_upper ?raw = ?raw"
    by (simp add: upper_digits) (simp add: upper_char_def is_lower_def)
  have "two_args (nat_str p @ CHR '','' # [] @ nat_str s @ '')'')"
    unfolding two_args_iff
    by (intro exI [of _ "nat_str p"] exI [of _ "[]"] exI [of _ "nat_str s"]) simp
  then have "args_of ''NUMERIC'' ?raw two_args" using type_re_args [where b = "''NUMERIC''"] by simp
  then have acc: "type_re (strip ?raw)" unfolding type_re_def Let_def st up by blast
  have sh: "parse_sql_type ?raw = Inr \<lparr>base = ''NUMERIC'', precision = Some p, scale = Some s, len = None\<rparr>"
    by (subst parse_num_shape [of ?raw "''NUMERIC''" "nat_str p" "[]" "nat_str s"])
      (use st up acc assms in \<open>simp_all add: str_simps\<close>)
  then show ?thesis by simp
qed

lemma parse_show_chars:
  assumes "b = ''VARCHAR'' \<or> b = ''CHAR''"
  shows "parse_sql_type (b @ ''('' @ nat_str n @ '')'') =
    Inr \<lparr>base = b, precision = None, scale = None, len = Some n\<rparr>"
proof -
  let ?raw = "b @ ''('' @ nat_str n @ '')''"
  have st: "strip ?raw = ?raw" using assms by (intro strip_ends) (auto simp: is_space_def)
  have up: "ascii_upper ?raw = ?raw"
    using assms by (auto simp: upper_digits) (auto simp: upper_char_def is_lower_def)
  have "one_arg (nat_str n @ '')'')" by (simp add: one_arg_iff)
  then have "args_of b ?raw one_arg" using type_re_args [where b = b] by simp
  then have acc: "type_re (strip ?raw)" unfolding type_re_def Let_def st up using assms by blast
  show ?thesis
    using parse_char_shape(1) [of ?raw b "nat_str n"] st up acc assms by (simp add: str_simps)
qed

lemma parse_show_bare:
  "b \<in> {''BIGINT'', ''INTEGER'', ''TEXT'', ''TIMESTAMP'', ''DATE'', ''BOOLEAN''} \<Longrightarrow>
     parse_sql_type b = Inr (bare_type b)"
  "parse_sql_type ''DOUBLE PRECISION'' = Inr (bare_type ''DOUBLE_PRECISION'')"
  by (auto, code_simp+)

lemma parse_show_sql_type:
  assumes "wf_sql_type t"
  shows "parse_sql_type (show_sql_type t) = Inr t"
proof -
  from assms consider
      (bare) "base t \<in> {''BIGINT'', ''INTEGER'', ''DOUBLE_PRECISION'', ''TEXT'', ''TIMESTAMP'', ''DATE'', ''BOOLEAN''}"
        "precision t = None" "scale t = None" "len t = None"
    | (num) p s where "base t = ''NUMERIC''" "len t = None" "precision t = Some p" "scale t = Some s"
        "1 \<le> p" "p \<le> 38" "s \<le> p"
    | (chars) n where "base t = ''VARCHAR'' \<or> base t = ''CHAR''" "precision t = None" "scale t = None"
        "len t = Some n"
    unfolding wf_sql_type_def by auto
  then show ?thesis
  proof cases
    case bare
    then have t: "t = bare_type (base t)" by (cases t) (simp add: bare_type_def)
    from bare have s: "show_sql_type t =
        (if base t = ''DOUBLE_PRECISION'' then ''DOUBLE PRECISION'' else base t)"
      by (simp add: show_sql_type_def)
    have "parse_sql_type (show_sql_type t) = Inr (bare_type (base t))"
      using bare(1) parse_show_bare unfolding s by (cases "base t = ''DOUBLE_PRECISION''") auto
    with t show ?thesis by simp
  next
    case (num p s)
    then show ?thesis using parse_show_numeric [of p s]
      by (cases t) (simp add: show_sql_type_def)
  next
    case (chars n)
    then show ?thesis using parse_show_chars [of "base t" n]
      by (cases t) (auto simp: show_sql_type_def)
  qed
qed

end
