(* ===== verification/EngineContract.thy ===== *)
theory EngineContract
  imports SqlTypes
begin

text \<open>
  The guards of the engine contract that every adapter runs before it builds a statement: the
  layout vocabulary (\<^verbatim>\<open>contract/continuo_engine_contract/config.py\<close>) and the single-read gate
  (\<^verbatim>\<open>contract/continuo_engine_contract/sql.py\<close>). The SQL parser is a parameter: what
  \<^verbatim>\<open>sqlglot.parse\<close> returns for a text and a dialect.
\<close>

section \<open>The config vocabulary\<close>

definition unknown_keys :: "pydict \<Rightarrow> string list \<Rightarrow> string list" where
  "unknown_keys d known = sort (map repr (filter (\<lambda>k. k \<notin> PStr ` set known) (dict_keys d)))"

definition ensure_known_keys :: "pyval \<Rightarrow> string list \<Rightarrow> string \<Rightarrow> string \<Rightarrow> unit res" where
  "ensure_known_keys config known engine place = (case config of
       PDict d \<Rightarrow> (let unknown = unknown_keys d known in
         require (unknown = []) (Exn ValueError
           (''unrecognized '' @ place @ '' key(s) '' @ join '', '' unknown @ '' for engine ''
             @ repr_str engine @ ''; known keys: ''
             @ (if known = [] then ''(none)'' else join '', '' (sorted_set known)))))
     | _ \<Rightarrow> raise_value (place @ '' must be a mapping, got '' @ type_name config))"

lemma unknown_keys_Nil: "unknown_keys d known = [] \<longleftrightarrow> set (dict_keys d) \<subseteq> PStr ` set known"
proof -
  have "unknown_keys d known = [] \<longleftrightarrow> filter (\<lambda>k. k \<notin> PStr ` set known) (dict_keys d) = []"
    by (metis (no_types, lifting) map_is_Nil_conv mset_sort mset_zero_iff unknown_keys_def)
  also have "\<dots> \<longleftrightarrow> set (dict_keys d) \<subseteq> PStr ` set known" by (auto simp: filter_empty_conv)
  finally show ?thesis .
qed

lemma ensure_known_keys_eq_Inr:
  "ensure_known_keys c known e w = Inr u \<longleftrightarrow> (\<exists>d. c = PDict d \<and> set (dict_keys d) \<subseteq> PStr ` set known)"
  by (cases c) (auto simp: ensure_known_keys_def res_simps unknown_keys_Nil Let_def)

lemma ensure_known_keys_eq_Inl:
  "ensure_known_keys c known e w = Inl x \<Longrightarrow> exn_kind x = ValueError"
  by (cases c) (auto simp: ensure_known_keys_def res_simps Let_def)

section \<open>The single-read gate\<close>

text \<open>The statement classes the gate tells apart; any other carries its \<^verbatim>\<open>key\<close>.\<close>

datatype sql_stmt = SelectStmt | UnionStmt | ValuesStmt | SubqueryStmt | OtherStmt string

text \<open>
  What \<^verbatim>\<open>sqlglot.parse\<close> does with a text: it raises \<^verbatim>\<open>ParseError\<close> or
  \<^verbatim>\<open>TokenError\<close>, or returns the statements, \<^verbatim>\<open>None\<close> standing for an empty one.
\<close>

datatype sql_parse = SqlParseError string | SqlTokenError string | SqlParsed "sql_stmt option list"

type_synonym sql_parser = "string option \<Rightarrow> string \<Rightarrow> sql_parse"

definition max_excerpt :: nat where "max_excerpt = 200"

definition excerpt :: "string \<Rightarrow> string" where
  "excerpt text = (let collapsed = normalize_ws text in
     if length collapsed > max_excerpt then take max_excerpt collapsed @ ''... (truncated)'' else collapsed)"

fun is_read_stmt :: "sql_stmt \<Rightarrow> bool" where
  "is_read_stmt (OtherStmt k) = False"
| "is_read_stmt _ = True"

fun stmt_key :: "sql_stmt \<Rightarrow> string" where
  "stmt_key SelectStmt = ''select''"
| "stmt_key UnionStmt = ''union''"
| "stmt_key ValuesStmt = ''values''"
| "stmt_key SubqueryStmt = ''subquery''"
| "stmt_key (OtherStmt k) = k"

text \<open>\<^verbatim>\<open>[s for s in parsed if s is not None]\<close>.\<close>

fun present :: "'a option list \<Rightarrow> 'a list" where
  "present [] = []"
| "present (None # xs) = present xs"
| "present (Some x # xs) = x # present xs"

definition ensure_single_read :: "sql_parser \<Rightarrow> string \<Rightarrow> string option \<Rightarrow> unit res" where
  "ensure_single_read parse sql dialect = (case parse dialect sql of
       SqlParseError m \<Rightarrow> raise_value
         (''check_binds accepts a single read query, and this read does not parse as ''
           @ (case dialect of None \<Rightarrow> ''SQL'' | Some d \<Rightarrow> if d = [] then ''SQL'' else d)
           @ '': '' @ excerpt sql @ '' ['' @ excerpt m @ '']'')
     | SqlTokenError m \<Rightarrow> Inl (Exn TokenError m)
     | SqlParsed parsed \<Rightarrow> (case present parsed of
           [s] \<Rightarrow> if is_read_stmt s then Inr ()
             else raise_value (''check_binds accepts a single read query, but this read is a ''
               @ ascii_upper (stmt_key s) @ '' statement: '' @ excerpt sql)
         | ss \<Rightarrow> raise_value (''check_binds accepts exactly one read query, but this read parses as ''
             @ nat_str (length ss) @ '' statements: '' @ excerpt sql)))"

lemma ensure_single_read_eq_Inr:
  "ensure_single_read parse sql d = Inr u \<longleftrightarrow>
     (\<exists>parsed s. parse d sql = SqlParsed parsed \<and> present parsed = [s] \<and> is_read_stmt s)"
  by (auto simp: ensure_single_read_def split: sql_parse.splits list.splits)

lemma ensure_single_read_error_kind:
  "ensure_single_read parse sql d = Inl x \<Longrightarrow>
     exn_kind x = (case parse d sql of SqlTokenError m \<Rightarrow> TokenError | _ \<Rightarrow> ValueError)"
  by (auto simp: ensure_single_read_def split: sql_parse.splits list.splits if_splits)

lemma excerpt_length: "length (excerpt s) \<le> 215"
  by (simp add: excerpt_def max_excerpt_def Let_def)

lemma present_append: "present (xs @ ys) = present xs @ present ys"
  by (induction xs rule: present.induct) auto

end
