(* ===== verification/CsvSource.thy ===== *)
theory CsvSource
  imports PyValue
begin

text \<open>
  The rules for a csv source that the harness and the validation runner share
  (\<^verbatim>\<open>continuo_python_runtime/csv_source.py\<close>): the uri grammar and the header check.
\<close>

record csv_uri =
  uri_scheme :: string
  uri_raw :: string
  uri_bucket :: string
  uri_key :: string

definition parse_csv_uri :: "pyval \<Rightarrow> csv_uri res" where
  "parse_csv_uri v = (case v of
     PStr uri \<Rightarrow>
       if starts_with ''s3://'' uri then
         (let rest = drop (length ''s3://'') uri;
              bucket = before_char (CHR ''/'') rest;
              key = after_char (CHR ''/'') rest in
          if bucket = [] \<or> key = [] then
            raise_value (''invalid s3 csv uri (missing bucket or key): '' @ repr v)
          else Inr \<lparr>uri_scheme = ''s3'', uri_raw = uri, uri_bucket = bucket, uri_key = key\<rparr>)
       else if starts_with ''https://'' uri \<and> before_char (CHR ''/'') (drop (length ''https://'') uri) \<noteq> [] then
         Inr \<lparr>uri_scheme = ''https'', uri_raw = uri, uri_bucket = [], uri_key = []\<rparr>
       else raise_value (''invalid csv uri '' @ repr v @ '': must be s3://bucket/key or https://...'')
   | _ \<Rightarrow> raise_value (''csv uri must be a string, got '' @ type_name v @ '': '' @ repr v))"

definition check_header :: "string list \<Rightarrow> string list \<Rightarrow> string set res" where
  "check_header header_cols declared_cols = (let missing = filter (\<lambda>c. c \<notin> set header_cols) declared_cols in
     if missing \<noteq> [] then
       raise_value (''csv header missing declared column(s): '' @ repr_strs (sort missing))
     else Inr (set header_cols - set declared_cols))"

section \<open>Facts\<close>

lemma parse_csv_uri_error: "parse_csv_uri v = Inl e \<Longrightarrow> exn_kind e = ValueError"
  by (auto simp: parse_csv_uri_def Let_def split: pyval.splits if_splits)

lemma parse_csv_uri_str: "parse_csv_uri v = Inr u \<Longrightarrow> v = PStr (uri_raw u)"
  by (auto simp: parse_csv_uri_def Let_def split: pyval.splits if_splits)

text \<open>An s3 uri splits into exactly one bucket and key, and they rebuild it.\<close>

lemma parse_csv_uri_s3:
  assumes "parse_csv_uri v = Inr u" and "uri_scheme u = ''s3''"
  shows "uri_raw u = ''s3://'' @ uri_bucket u @ ''/'' @ uri_key u"
    and "uri_bucket u \<noteq> []" "uri_key u \<noteq> []" "CHR ''/'' \<notin> set (uri_bucket u)"
proof -
  from assms obtain rest where raw: "uri_raw u = ''s3://'' @ rest"
    and b: "uri_bucket u = before_char (CHR ''/'') rest" and k: "uri_key u = after_char (CHR ''/'') rest"
    and ne: "uri_bucket u \<noteq> []" "uri_key u \<noteq> []"
    by (auto simp: parse_csv_uri_def Let_def starts_with_iff split: pyval.splits if_splits)
  have "CHR ''/'' \<in> set rest"
  proof (rule ccontr)
    assume "CHR ''/'' \<notin> set rest"
    then have "after_char (CHR ''/'') rest = []" by (rule after_char_free)
    with ne k show False by simp
  qed
  then have "rest = uri_bucket u @ CHR ''/'' # uri_key u"
    using partition_char b k by metis
  with raw show "uri_raw u = ''s3://'' @ uri_bucket u @ ''/'' @ uri_key u" by simp
  show "CHR ''/'' \<notin> set (uri_bucket u)" unfolding b by (rule before_char_free)
qed (use assms in \<open>auto simp: parse_csv_uri_def Let_def split: pyval.splits if_splits\<close>)

lemma parse_csv_uri_build_s3:
  assumes "b \<noteq> []" "k \<noteq> []" "CHR ''/'' \<notin> set b"
  shows "parse_csv_uri (PStr (''s3://'' @ b @ ''/'' @ k)) =
    Inr \<lparr>uri_scheme = ''s3'', uri_raw = ''s3://'' @ b @ ''/'' @ k, uri_bucket = b, uri_key = k\<rparr>"
  using assms starts_with_append [of "''s3://''" "b @ CHR ''/'' # k"]
  by (simp add: parse_csv_uri_def Let_def before_char_append after_char_append)

lemma check_header_eq_Inr:
  "check_header h d = Inr x \<longleftrightarrow> set d \<subseteq> set h \<and> x = set h - set d"
  by (auto simp: check_header_def Let_def filter_empty_conv)

end
