(* ===== verification/Model.thy ===== *)
theory Model
  imports PyValue
begin

text \<open>The contract's data (\<^verbatim>\<open>continuo_python_runtime/contract/model.py\<close>).\<close>

definition criticalities :: "string list" where
  "criticalities = [''REGULATORY'', ''CORE'', ''SECONDARY'']"

definition extra_columns_policies :: "string list" where
  "extra_columns_policies = [''raise'', ''warn'']"

definition kinds :: "string list" where
  "kinds = [''python-node'', ''python-csv'', ''python-api'']"

definition default_kind :: string where "default_kind = ''python-node''"

definition mode_types :: "string list" where
  "mode_types = [''append'', ''upsert'', ''replace'']"

definition default_mode_type :: string where "default_mode_type = ''replace''"

definition contract_version :: int where "contract_version = 1"

record column =
  col_name :: string
  col_type :: string
  col_nullable :: bool

record node =
  node_schema :: string
  node_table :: string
  node_owner :: string
  node_schedule :: string
  node_criticality :: string
  node_script :: string
  node_reads :: "(string \<times> string) list"
  node_output_columns :: "column list"
  node_description :: string
  node_extra_columns :: string
  node_config :: pydict
  node_content_hash :: "string option"
  node_kind :: string
  node_secret_ref :: string
  node_mode_type :: string
  node_primary_key :: "string list"
  node_timeout_minutes :: "int option"

definition relation :: "node \<Rightarrow> string" where
  "relation n = node_schema n @ ''.'' @ node_table n"

end
