(* ===== verification/Kinds.thy ===== *)
theory Kinds
  imports EngineContract CsvSource Model
begin

text \<open>
  The per-kind contract rules (\<^verbatim>\<open>continuo_python_runtime/contract/kinds.py\<close>) and the Secret
  name a node may carry (\<^verbatim>\<open>contract/secret_ref.py\<close>). The interface \<open>reads_rule\<close> states
  what the loader relies on of a kind's \<open>ReadsRule\<close>: the mapping comes back unchanged, every
  rejection is a contract error, and a mapping accepted with the read gate on is accepted with it
  off. The three rules are shown to keep it, and so is their dispatch.
\<close>

section \<open>The reads rules\<close>

text \<open>
  \<^verbatim>\<open>dict(reads)\<close> after the checks: every key and value is a string. A pair that is not is
  dropped here, but no rule returns such a mapping.
\<close>

fun str_pair :: "pyval \<times> pyval \<Rightarrow> (string \<times> string) list" where
  "str_pair (PStr k, PStr v) = [(k, v)]"
| "str_pair _ = []"

definition str_pairs :: "pydict \<Rightarrow> (string \<times> string) list" where
  "str_pairs d = concat (map str_pair d)"

definition reads_name_ok :: "pyval \<Rightarrow> bool" where
  "reads_name_ok v = (case v of PStr s \<Rightarrow> \<not> blank s | _ \<Rightarrow> False)"

text \<open>\<^verbatim>\<open>f"{name}"\<close> of a name that the check above let through.\<close>

fun text_of :: "pyval \<Rightarrow> string" where
  "text_of (PStr s) = s"
| "text_of v = repr v"

text \<open>\<open>SqlReads.validate\<close>: one declared read, then all of them.\<close>

definition sql_read_ok :: "sql_parser \<Rightarrow> string \<Rightarrow> string option \<Rightarrow> bool \<Rightarrow> pyval \<times> pyval \<Rightarrow> unit res" where
  "sql_read_ok parse label dialect check_reads kv = (case kv of (name, sql) \<Rightarrow>
     bind_res (require (reads_name_ok name) (Exn (Harness ContractError)
       (label @ '': 'reads' name '' @ repr name @ '' must be a non-empty string''))) (\<lambda>_.
     bind_res (require (reads_name_ok sql) (Exn (Harness ContractError)
       (label @ '': 'reads.'' @ text_of name @ CHR 0x27 # '' must be a non-empty SQL string''))) (\<lambda>_.
     if \<not> check_reads then Inr ()
     else map_exn (\<lambda>e. if is_value_error e \<or> exn_kind e = TokenError
         then Exn (Harness ContractError) (label @ '': 'reads.'' @ text_of name
           @ CHR 0x27 # '' must be a single read query ('' @ exn_text e @ '')'')
         else e)
       (ensure_single_read parse (text_of sql) dialect))))"

definition sql_reads :: "sql_parser \<Rightarrow> pyval \<Rightarrow> string \<Rightarrow> string option \<Rightarrow> bool \<Rightarrow> (string \<times> string) list res" where
  "sql_reads parse reads label dialect check_reads = (case reads of
     PDict (kv # kvs) \<Rightarrow>
       bind_res (each (sql_read_ok parse label dialect check_reads) (kv # kvs)) (\<lambda>_.
       Inr (str_pairs (kv # kvs)))
   | _ \<Rightarrow> raise_contract (label @ '': 'reads' must be a non-empty mapping of name -> SQL''))"

text \<open>\<open>CsvRead.validate\<close>.\<close>

definition csv_read :: "pyval \<Rightarrow> string \<Rightarrow> string option \<Rightarrow> bool \<Rightarrow> (string \<times> string) list res" where
  "csv_read reads label dialect check_reads = (case reads of
     PDict [(PStr k, v)] \<Rightarrow>
       if k = ''csv'' then
         bind_res (map_exn (\<lambda>e. Exn (Harness ContractError) (label @ '': invalid csv uri: '' @ exn_text e))
           (parse_csv_uri v)) (\<lambda>_. Inr (str_pairs [(PStr k, v)]))
       else raise_contract (label @ '': a python-csv node's 'reads' must be exactly {csv: <uri>}'')
   | _ \<Rightarrow> raise_contract (label @ '': a python-csv node's 'reads' must be exactly {csv: <uri>}''))"

text \<open>\<open>NoReads.validate\<close>.\<close>

definition no_reads :: "pyval \<Rightarrow> string \<Rightarrow> string option \<Rightarrow> bool \<Rightarrow> (string \<times> string) list res" where
  "no_reads reads label dialect check_reads =
     (if reads = PNone \<or> reads = PDict [] then Inr []
      else raise_contract (label
        @ '': a python-api node declares no 'reads' (its script fetches its own data)''))"

section \<open>The kinds\<close>

datatype reads_kind = SqlReads | CsvRead | NoReads

fun validate_reads ::
  "reads_kind \<Rightarrow> sql_parser \<Rightarrow> pyval \<Rightarrow> string \<Rightarrow> string option \<Rightarrow> bool \<Rightarrow> (string \<times> string) list res" where
  "validate_reads SqlReads parse = sql_reads parse"
| "validate_reads CsvRead parse = csv_read"
| "validate_reads NoReads parse = no_reads"

record kind_rules =
  script_required :: bool
  reads_rule_of :: reads_kind
  secret_allowed :: bool
  rule_mode_types :: "string list"

definition kind_rule_table :: "(string \<times> kind_rules) list" where
  "kind_rule_table =
     [(''python-node'', \<lparr>script_required = True, reads_rule_of = SqlReads, secret_allowed = False,
         rule_mode_types = mode_types\<rparr>),
      (''python-csv'', \<lparr>script_required = False, reads_rule_of = CsvRead, secret_allowed = False,
         rule_mode_types = [default_mode_type]\<rparr>),
      (''python-api'', \<lparr>script_required = True, reads_rule_of = NoReads, secret_allowed = True,
         rule_mode_types = mode_types\<rparr>)]"

definition rules_for :: "pyval \<Rightarrow> string \<Rightarrow> kind_rules res" where
  "rules_for kind label = (case kind of
     PStr k \<Rightarrow> (case map_of kind_rule_table k of
         Some r \<Rightarrow> Inr r
       | None \<Rightarrow> raise_contract (label @ '': 'kind' must be one of '' @ repr_strs (sort kinds)
           @ '', got '' @ repr kind))
   | _ \<Rightarrow> raise_contract (label @ '': 'kind' must be one of '' @ repr_strs (sort kinds)
       @ '', got '' @ repr kind))"

section \<open>The Secret name\<close>

definition secret_ref_max_len :: nat where "secret_ref_max_len = 253"

definition secret_alnum :: "char \<Rightarrow> bool" where
  "secret_alnum c \<longleftrightarrow> is_lower c \<or> is_digit c"

text \<open>
  \<^verbatim>\<open>^continuo-api-[a-z0-9]([-a-z0-9]*[a-z0-9])?$\<close>, matched in full: after the prefix, a
  letter or digit first, a letter or digit last, and only those and hyphens between.
\<close>

definition secret_ref_pattern :: "string \<Rightarrow> bool" where
  "secret_ref_pattern s = (case drop_prefix ''continuo-api-'' s of
     None \<Rightarrow> False
   | Some r \<Rightarrow> r \<noteq> [] \<and> secret_alnum (hd r) \<and> secret_alnum (last r)
       \<and> (\<forall>c\<in>set r. secret_alnum c \<or> c = CHR ''-''))"

definition validate_secret_ref :: "pyval \<Rightarrow> string \<Rightarrow> string res" where
  "validate_secret_ref value label = (case value of
     PStr s \<Rightarrow> if length s > secret_ref_max_len \<or> \<not> secret_ref_pattern s
       then raise_contract (label @ '': 'secret_ref' must be a Kubernetes Secret name starting with ''
         @ CHR 0x27 # ''continuo-api-' (lowercase letters, digits, '-'; at most ''
         @ nat_str secret_ref_max_len @ '' chars), got '' @ repr value)
       else Inr s
   | _ \<Rightarrow> raise_contract (label @ '': 'secret_ref' must be a Kubernetes Secret name starting with ''
         @ CHR 0x27 # ''continuo-api-' (lowercase letters, digits, '-'; at most ''
         @ nat_str secret_ref_max_len @ '' chars), got '' @ repr value))"

lemma validate_secret_ref_eq_Inr:
  "validate_secret_ref v label = Inr s \<longleftrightarrow>
     v = PStr s \<and> length s \<le> secret_ref_max_len \<and> secret_ref_pattern s"
  by (cases v) (auto simp: validate_secret_ref_def)

text \<open>The prefix and the alphabet: no other Secret of the namespace can be named.\<close>

lemma secret_ref_pattern_shape:
  assumes "secret_ref_pattern s"
  shows "\<exists>r. s = ''continuo-api-'' @ r \<and> r \<noteq> []" and "\<forall>c\<in>set s. secret_alnum c \<or> c = CHR ''-''"
    and "secret_alnum (last s)"
proof -
  from assms obtain r where r: "s = ''continuo-api-'' @ r" "r \<noteq> []" "secret_alnum (last r)"
    "\<forall>c\<in>set r. secret_alnum c \<or> c = CHR ''-''"
    by (auto simp: secret_ref_pattern_def drop_prefix_eq_Some split: option.splits)
  show "\<exists>r. s = ''continuo-api-'' @ r \<and> r \<noteq> []" using r by blast
  have "\<forall>c\<in>set ''continuo-api-''. secret_alnum c \<or> c = CHR ''-''" by code_simp
  then show "\<forall>c\<in>set s. secret_alnum c \<or> c = CHR ''-''" unfolding r(1) using r(4) by (simp only: set_append) blast
  show "secret_alnum (last s)" unfolding r(1) using r(2,3) by simp
qed

section \<open>The interface of a reads rule\<close>

definition is_contract_error :: "exn \<Rightarrow> bool" where
  "is_contract_error e \<longleftrightarrow> exn_kind e = Harness ContractError"

lemma is_contract_error_Exn [simp]: "is_contract_error (Exn (Harness ContractError) m)"
  by (simp add: is_contract_error_def)

lemma is_contract_errorI: "Exn (Harness ContractError) m = e \<Longrightarrow> is_contract_error e"
  by auto

text \<open>The mapping a \<^verbatim>\<open>reads\<close> value stands for.\<close>

definition reads_content :: "pyval \<Rightarrow> pydict" where
  "reads_content v = (case v of PDict d \<Rightarrow> d | _ \<Rightarrow> [])"

locale reads_rule =
  fixes rule :: "pyval \<Rightarrow> string \<Rightarrow> string option \<Rightarrow> bool \<Rightarrow> (string \<times> string) list res"
  assumes unchanged: "rule v label d c = Inr rs \<Longrightarrow> reads_content v = map (\<lambda>(k, s). (PStr k, PStr s)) rs"
    and contract_error: "rule v label d c = Inl e \<Longrightarrow> is_contract_error e"
    and ungated: "rule v label d c = Inr rs \<Longrightarrow> rule v label d' False = Inr rs"
begin

lemma lookup: "rule v label d c = Inr rs \<Longrightarrow> dict_get (reads_content v) k = map_option PStr (map_of rs k)"
proof (drule unchanged, simp add: dict_get_def)
  show "map_of (map (\<lambda>(k, s). (PStr k, PStr s)) rs) (PStr k) = map_option PStr (map_of rs k)"
    by (induction rs) auto
qed

lemma gate_only_rejects: "rule v label d False = Inl e \<Longrightarrow> \<exists>e'. rule v label d' True = Inl e'"
  using ungated by (cases "rule v label d' True") fastforce+

end

lemma str_pairs_all_str:
  "\<forall>(k, v)\<in>set d. is_str k \<and> is_str v \<Longrightarrow> d = map (\<lambda>(k, s). (PStr k, PStr s)) (str_pairs d)"
  by (induction d) (auto simp: str_pairs_def is_str_iff)

lemma reads_name_ok_str: "reads_name_ok v \<Longrightarrow> is_str v"
  by (cases v) (simp_all add: reads_name_ok_def)

lemma sql_read_ok_Inr:
  "sql_read_ok parse label d c (k, v) = Inr u \<longleftrightarrow>
     reads_name_ok k \<and> reads_name_ok v \<and> (c \<longrightarrow> ensure_single_read parse (text_of v) d = Inr ())"
  by (auto simp: sql_read_ok_def res_simps)

lemma gate_errors_caught:
  "ensure_single_read parse s d = Inl x \<Longrightarrow> is_value_error x \<or> exn_kind x = TokenError"
  using ensure_single_read_error_kind [of parse s d x]
  by (auto simp: is_value_error_def split: sql_parse.splits)

lemma sql_read_ok_Inl: "sql_read_ok parse label d c kv = Inl e \<Longrightarrow> is_contract_error e"
proof (cases kv)
  case (Pair k v)
  moreover assume "sql_read_ok parse label d c kv = Inl e"
  ultimately show ?thesis
    by (auto simp: sql_read_ok_def res_simps split: if_splits
        dest: gate_errors_caught is_contract_errorI)
qed

interpretation sql_rule: reads_rule "sql_reads parse" for parse
proof
  fix v label d c rs
  assume "sql_reads parse v label d c = Inr rs"
  then obtain kvs where v: "v = PDict kvs" "kvs \<noteq> []" and rs: "rs = str_pairs kvs"
    and ok: "\<forall>kv\<in>set kvs. sql_read_ok parse label d c kv = Inr ()"
    by (auto simp: sql_reads_def res_simps split: pyval.splits list.splits)
  have "\<forall>(k, s)\<in>set kvs. is_str k \<and> is_str s"
    using ok by (auto simp: sql_read_ok_Inr reads_name_ok_str)
  then show "reads_content v = map (\<lambda>(k, s). (PStr k, PStr s)) rs"
    by (simp add: v rs reads_content_def str_pairs_all_str)
next
  fix v label d c e
  assume "sql_reads parse v label d c = Inl e"
  then show "is_contract_error e"
    by (auto simp: sql_reads_def bind_res_eq_Inl split: pyval.splits list.splits
        dest!: each_eq_Inl_ex sql_read_ok_Inl dest: is_contract_errorI)
next
  fix v label d c rs and d' :: "string option"
  assume "sql_reads parse v label d c = Inr rs"
  then show "sql_reads parse v label d' False = Inr rs"
    by (auto simp: sql_reads_def bind_res_eq_Inr each_eq_Inr sql_read_ok_Inr split: pyval.splits list.splits
        intro!: bind_res_eq_Inr [THEN iffD2])
qed

interpretation csv_rule: reads_rule csv_read
proof
  fix v label c rs and d :: "string option"
  assume "csv_read v label d c = Inr rs"
  then show "reads_content v = map (\<lambda>(k, s). (PStr k, PStr s)) rs"
    by (auto simp: csv_read_def res_simps reads_content_def str_pairs_def dest!: parse_csv_uri_str
        split: pyval.splits list.splits if_splits prod.splits)
next
  fix v label c e and d :: "string option"
  assume "csv_read v label d c = Inl e"
  then show "is_contract_error e"
    by (auto simp: csv_read_def res_simps dest: is_contract_errorI
        split: pyval.splits list.splits if_splits prod.splits)
next
  fix v label c rs and d d' :: "string option"
  assume "csv_read v label d c = Inr rs"
  then show "csv_read v label d' False = Inr rs" by (simp add: csv_read_def)
qed

interpretation no_rule: reads_rule no_reads
  by unfold_locales (auto simp: no_reads_def reads_content_def split: if_splits dest: is_contract_errorI)

interpretation kind_rule: reads_rule "validate_reads k parse" for k parse
  by (cases k) (simp_all add: sql_rule.reads_rule_axioms csv_rule.reads_rule_axioms no_rule.reads_rule_axioms)

end
