(* ===== verification/Loader.thy ===== *)
theory Loader
  imports Kinds
begin

text \<open>
  The contract loader (\<^verbatim>\<open>continuo_python_runtime/contract/loader.py\<close>): duplicate keys, one
  node, a directory of contract files. The order of the checks is the code's. The YAML parser is a
  parameter; so are the two methods of its base class that the loader's own mapping constructor
  calls. What a successful load promises is \<open>node_ok\<close>, the invariant every later component
  relies on.
\<close>

section \<open>Keys\<close>

definition allowed_keys :: "string list" where
  "allowed_keys = [''schema'', ''table'', ''description'', ''owner'', ''schedule'', ''criticality'',
     ''kind'', ''script'', ''extra_columns'', ''reads'', ''output_columns'', ''config'',
     ''content_hash'', ''secret_ref'', ''mode_type'', ''primary_key'', ''timeout_minutes'']"

definition min_timeout_minutes :: int where "min_timeout_minutes = 1"
definition max_timeout_minutes :: int where "max_timeout_minutes = 10080"

definition allowed_output_column_keys :: "string list" where
  "allowed_output_column_keys = [''name'', ''type'', ''nullable'']"

text \<open>
  \<^verbatim>\<open>f"{sorted(keys)}"\<close>: strings sort, numbers sort, one key of any kind sorts, and two keys
  that cannot be compared make \<^verbatim>\<open>sorted\<close> raise.
\<close>

definition same_class :: "pyval list \<Rightarrow> bool" where
  "same_class ks \<longleftrightarrow> (\<forall>k\<in>set ks. \<forall>k'\<in>set ks. type_name k = type_name k' \<and> k \<noteq> PNone)"

definition sorted_repr :: "pyval list \<Rightarrow> string res" where
  "sorted_repr ks =
     (if \<forall>k\<in>set ks. is_str k then Inr (repr_strs (sort (map text_of ks)))
      else if \<forall>k\<in>set ks. numeric k \<noteq> None then
        Inr (brackets (map repr (sort_key (\<lambda>k. case numeric k of Some r \<Rightarrow> r | None \<Rightarrow> 0) ks)))
      else if length ks < 2 \<or> same_class ks then Inr (brackets (map repr ks))
      else Inl (Exn TypeError ''comparison not supported between these keys''))"

definition foreign_keys :: "pydict \<Rightarrow> string list \<Rightarrow> pyval list" where
  "foreign_keys d allowed = filter (\<lambda>k. k \<notin> PStr ` set allowed) (dict_keys d)"

definition reject_foreign :: "pydict \<Rightarrow> string list \<Rightarrow> string \<Rightarrow> unit res" where
  "reject_foreign d allowed message = (case foreign_keys d allowed of
       [] \<Rightarrow> Inr ()
     | ks \<Rightarrow> bind_res (sorted_repr ks) (\<lambda>shown. raise_contract (message @ shown)))"

definition node_label :: "pydict \<Rightarrow> string \<Rightarrow> string" where
  "node_label raw source = (case (get_or_none raw ''schema'', get_or_none raw ''table'') of
       (PStr s, PStr t) \<Rightarrow> if s \<noteq> [] \<and> t \<noteq> [] then source @ '' ('' @ s @ ''.'' @ t @ '')'' else source
     | _ \<Rightarrow> source)"

section \<open>The config block\<close>

text \<open>
  \<open>_validate_config\<close> on a block without sharing; the check on the object graph, cycles included,
  is the theory of the config graph.
\<close>

function check_config_value :: "string \<Rightarrow> pyval \<Rightarrow> pyval \<Rightarrow> unit res" where
  "check_config_value label val key = (case val of
       PDict kvs \<Rightarrow> each (\<lambda>(k, v).
         bind_res (require (is_str k) (Exn (Harness ContractError)
           (label @ '': 'config' keys must be strings, got '' @ repr k))) (\<lambda>_.
         check_config_value label v k)) kvs
     | PList xs \<Rightarrow> each (\<lambda>x. check_config_value label x key) xs
     | POther t r \<Rightarrow> raise_contract (label @ '': 'config' value for '' @ repr key
         @ '' is not JSON-serializable: '' @ r)
     | _ \<Rightarrow> Inr ())"
  by pat_completeness auto
termination
proof (relation "measure (\<lambda>(label, val, key). size val)")
  fix label val key kvs k v z
  assume "val = PDict kvs" "z \<in> set kvs" "(k, v) = z"
  then have "(k, v) \<in> set kvs" by simp
  then have "size_prod size size (k, v) \<le> size_list (size_prod size size) kvs"
    by (induction kvs) auto
  then show "((label, v, k), label, val, key) \<in> measure (\<lambda>(label, val, key). size val)"
    using \<open>val = PDict kvs\<close> by simp
next
  fix label val key xs x
  assume *: "val = PList xs" and "x \<in> set xs"
  from this(2) have "size x \<le> size_list size xs" by (induction xs) auto
  then show "((label, x, key), label, val, key) \<in> measure (\<lambda>(label, val, key). size val)"
    using * by simp
qed simp

declare check_config_value.simps [simp del]

definition validate_config :: "pyval \<Rightarrow> string \<Rightarrow> pydict res" where
  "validate_config raw label = (case raw of
       PNone \<Rightarrow> Inr []
     | PDict d \<Rightarrow> bind_res (check_config_value label raw PNone) (\<lambda>_. Inr d)
     | _ \<Rightarrow> raise_contract (label @ '': 'config' must be a mapping''))"

section \<open>The scalar fields\<close>

definition required_string :: "pydict \<Rightarrow> string \<Rightarrow> string \<Rightarrow> string res" where
  "required_string raw label field = (case get_or_none raw field of
       PStr s \<Rightarrow> if blank s then raise_contract (label @ '': required field ''
           @ CHR 0x27 # field @ CHR 0x27 # '' must be a non-empty string'') else Inr s
     | _ \<Rightarrow> raise_contract (label @ '': required field ''
           @ CHR 0x27 # field @ CHR 0x27 # '' must be a non-empty string''))"

definition parse_script :: "kind_rules \<Rightarrow> pyval \<Rightarrow> pydict \<Rightarrow> string \<Rightarrow> string res" where
  "parse_script rules kind raw label =
     (if script_required rules then required_string raw label ''script''
      else if has_key raw ''script'' then
        raise_contract (label @ '': 'script' is forbidden for kind '' @ text_of kind
          @ '' (it is a contract-only kind)'')
      else Inr [])"

text \<open>A field whose value must be one of a fixed set of strings.\<close>

definition parse_choice :: "pyval \<Rightarrow> string list \<Rightarrow> string \<Rightarrow> string \<Rightarrow> string res" where
  "parse_choice value allowed label field = (case value of
       PStr s \<Rightarrow> if s \<in> set allowed then Inr s
         else raise_contract (label @ '': '' @ CHR 0x27 # field @ CHR 0x27 # '' must be one of ''
           @ repr_strs (sort allowed) @ '', got '' @ repr value)
     | _ \<Rightarrow> raise_contract (label @ '': '' @ CHR 0x27 # field @ CHR 0x27 # '' must be one of ''
           @ repr_strs (sort allowed) @ '', got '' @ repr value))"

definition parse_secret :: "kind_rules \<Rightarrow> pyval \<Rightarrow> pydict \<Rightarrow> string \<Rightarrow> string res" where
  "parse_secret rules kind raw label = (case dict_get raw ''secret_ref'' of
       None \<Rightarrow> Inr []
     | Some v \<Rightarrow>
         if \<not> secret_allowed rules then
           raise_contract (label @ '': 'secret_ref' is not allowed for kind '' @ text_of kind)
         else validate_secret_ref v label)"

definition parse_timeout :: "pydict \<Rightarrow> string \<Rightarrow> int option res" where
  "parse_timeout raw label = (case dict_get raw ''timeout_minutes'' of
       None \<Rightarrow> Inr None
     | Some v \<Rightarrow> (case v of
           PInt i \<Rightarrow> if min_timeout_minutes \<le> i \<and> i \<le> max_timeout_minutes then Inr (Some i)
             else raise_contract (label @ '': 'timeout_minutes' must be an integer between ''
               @ int_str min_timeout_minutes @ '' and '' @ int_str max_timeout_minutes @ '', got '' @ repr v)
         | _ \<Rightarrow> raise_contract (label @ '': 'timeout_minutes' must be an integer between ''
               @ int_str min_timeout_minutes @ '' and '' @ int_str max_timeout_minutes @ '', got '' @ repr v)))"

definition parse_mode :: "kind_rules \<Rightarrow> pyval \<Rightarrow> pydict \<Rightarrow> string \<Rightarrow> string res" where
  "parse_mode rules kind raw label =
     bind_res (parse_choice (get_default raw ''mode_type'' (PStr default_mode_type)) mode_types label ''mode_type'') (\<lambda>m.
     bind_res (require (m \<in> set (rule_mode_types rules)) (Exn (Harness ContractError)
       (label @ '': 'mode_type' '' @ repr_str m @ '' is not allowed for kind '' @ repr kind
         @ '' (allowed: '' @ repr_strs (sort (rule_mode_types rules)) @ '')''))) (\<lambda>_. Inr m))"

definition parse_description :: "pydict \<Rightarrow> string \<Rightarrow> string res" where
  "parse_description raw label = (case get_default raw ''description'' (PStr []) of
       PStr s \<Rightarrow> Inr s
     | _ \<Rightarrow> raise_contract (label @ '': 'description' must be a string''))"

definition parse_content_hash :: "pydict \<Rightarrow> string \<Rightarrow> string option res" where
  "parse_content_hash raw label = (case get_or_none raw ''content_hash'' of
       PNone \<Rightarrow> Inr None
     | PStr s \<Rightarrow> Inr (Some s)
     | _ \<Rightarrow> raise_contract (label @ '': 'content_hash' must be a string''))"

section \<open>The output columns and the primary key\<close>

definition column_error :: "string \<Rightarrow> string \<Rightarrow> string \<Rightarrow> exn" where
  "column_error label name what = Exn (Harness ContractError)
     (label @ '': output column '' @ CHR 0x27 # name @ CHR 0x27 # what)"

definition parse_column :: "string \<Rightarrow> string list \<Rightarrow> pyval \<Rightarrow> column res" where
  "parse_column label seen entry = (case entry of
     PDict d \<Rightarrow>
       bind_res (reject_foreign d allowed_output_column_keys
         (label @ '': output column has unknown key(s) '')) (\<lambda>_.
       (case get_or_none d ''name'' of
          PStr name \<Rightarrow>
            if blank name then raise_contract (label @ '': output column missing non-empty '' @ repr_str ''name'')
            else (case get_or_none d ''type'' of
              PStr ty \<Rightarrow>
                bind_res (map_exn (\<lambda>e. if exn_kind e = Harness ContractError
                    then column_error label name ('' has unsupported '' @ exn_text e) else e)
                  (parse_sql_type ty)) (\<lambda>_.
                (case get_default d ''nullable'' (PBool True) of
                   PBool b \<Rightarrow>
                     if name \<in> set seen then
                       raise_contract (label @ '': duplicate column '' @ CHR 0x27 # name @ CHR 0x27 # '' in output_columns'')
                     else Inr \<lparr>col_name = name, col_type = ty, col_nullable = b\<rparr>
                 | v \<Rightarrow> Inl (column_error label name ('' has non-boolean 'nullable' '' @ repr v))))
            | v \<Rightarrow> Inl (column_error label name ('' has unsupported 'type' '' @ repr v)))
        | _ \<Rightarrow> raise_contract (label @ '': output column missing non-empty '' @ repr_str ''name'')))
   | _ \<Rightarrow> raise_contract (label @ '': each 'output_columns' entry must be a mapping, got '' @ repr entry))"

fun parse_columns :: "string \<Rightarrow> string list \<Rightarrow> pyval list \<Rightarrow> column list res" where
  "parse_columns label seen [] = Inr []"
| "parse_columns label seen (e # es) =
     bind_res (parse_column label seen e) (\<lambda>c.
     bind_res (parse_columns label (col_name c # seen) es) (\<lambda>cs. Inr (c # cs)))"

definition parse_output_columns :: "pydict \<Rightarrow> string \<Rightarrow> column list res" where
  "parse_output_columns raw label = (case get_or_none raw ''output_columns'' of
       PList (e # es) \<Rightarrow> parse_columns label [] (e # es)
     | _ \<Rightarrow> raise_contract (label @ '': 'output_columns' must be a non-empty list''))"

definition key_error :: "string \<Rightarrow> string \<Rightarrow> exn" where
  "key_error label what = Exn (Harness ContractError) (label @ '': 'primary_key' '' @ what)"

definition find_column :: "column list \<Rightarrow> string \<Rightarrow> column option" where
  "find_column columns name = find (\<lambda>c. col_name c = name) columns"

definition key_column_ok :: "string \<Rightarrow> column list \<Rightarrow> string list \<Rightarrow> pyval \<Rightarrow> string res" where
  "key_column_ok label columns seen v = (case v of
     PStr name \<Rightarrow>
       if blank name then Inl (key_error label (''entry '' @ repr v @ '' must be a non-empty string''))
       else if py_lower name \<in> set seen then
         Inl (key_error label (''names '' @ repr v @ '' more than once (names are compared case-insensitively)''))
       else (case find_column columns name of
           None \<Rightarrow> Inl (key_error label (''column '' @ repr v @ '' is not in output_columns''))
         | Some c \<Rightarrow>
             if col_nullable c then
               Inl (key_error label (''column '' @ repr v @ '' must be declared nullable: false''))
             else bind_res (parse_sql_type (col_type c)) (\<lambda>t.
               if base t = ''DOUBLE_PRECISION'' then
                 Inl (key_error label (''column '' @ repr v @ '' is floating-point ('' @ col_type c
                   @ ''); a floating-point column cannot be a primary key''))
               else Inr name))
   | _ \<Rightarrow> Inl (key_error label (''entry '' @ repr v @ '' must be a non-empty string'')))"

fun key_columns :: "string \<Rightarrow> column list \<Rightarrow> string list \<Rightarrow> pyval list \<Rightarrow> string list res" where
  "key_columns label columns seen [] = Inr []"
| "key_columns label columns seen (v # vs) =
     bind_res (key_column_ok label columns seen v) (\<lambda>n.
     bind_res (key_columns label columns (py_lower n # seen) vs) (\<lambda>ns. Inr (n # ns)))"

definition validate_primary_key :: "pydict \<Rightarrow> string \<Rightarrow> column list \<Rightarrow> string \<Rightarrow> string list res" where
  "validate_primary_key raw mode columns label =
     (if mode \<noteq> ''upsert'' then
        (if has_key raw ''primary_key'' then
           Inl (key_error label (''is only allowed when mode_type is upsert (got '' @ mode @ '')''))
         else Inr [])
      else case dict_get raw ''primary_key'' of
        None \<Rightarrow> Inl (key_error label ''is required when mode_type is upsert'')
      | Some v \<Rightarrow> (case v of
            PList (k # ks) \<Rightarrow> key_columns label columns [] (k # ks)
          | _ \<Rightarrow> Inl (key_error label ''must be a non-empty list of output column names'')))"

section \<open>One node\<close>

definition parse_node ::
  "sql_parser \<Rightarrow> pyval \<Rightarrow> string \<Rightarrow> string option \<Rightarrow> bool \<Rightarrow> node res" where
  "parse_node parse rawv source dialect check_reads = (case rawv of
     PDict raw \<Rightarrow>
       let label = node_label raw source; kind = get_default raw ''kind'' (PStr default_kind) in
       bind_res (reject_foreign raw allowed_keys (label @ '': unknown key(s) '')) (\<lambda>_.
       bind_res (rules_for kind label) (\<lambda>rules.
       bind_res (required_string raw label ''schema'') (\<lambda>schema.
       bind_res (required_string raw label ''table'') (\<lambda>table.
       bind_res (required_string raw label ''owner'') (\<lambda>owner.
       bind_res (required_string raw label ''schedule'') (\<lambda>schedule.
       bind_res (parse_script rules kind raw label) (\<lambda>script.
       bind_res (parse_choice (get_or_none raw ''criticality'') criticalities label ''criticality'') (\<lambda>criticality.
       bind_res (parse_choice (get_default raw ''extra_columns'' (PStr ''raise'')) extra_columns_policies label
         ''extra_columns'') (\<lambda>extra_columns.
       bind_res (validate_reads (reads_rule_of rules) parse (get_or_none raw ''reads'') label dialect check_reads) (\<lambda>reads.
       bind_res (parse_secret rules kind raw label) (\<lambda>secret_ref.
       bind_res (parse_timeout raw label) (\<lambda>timeout.
       bind_res (parse_mode rules kind raw label) (\<lambda>mode.
       bind_res (parse_output_columns raw label) (\<lambda>columns.
       bind_res (validate_primary_key raw mode columns label) (\<lambda>primary_key.
       bind_res (parse_description raw label) (\<lambda>description.
       bind_res (validate_config (get_or_none raw ''config'') label) (\<lambda>config.
       bind_res (parse_content_hash raw label) (\<lambda>content_hash.
       Inr \<lparr>node_schema = schema, node_table = table, node_owner = owner, node_schedule = schedule,
         node_criticality = criticality, node_script = script, node_reads = reads,
         node_output_columns = columns, node_description = description,
         node_extra_columns = extra_columns, node_config = config,
         node_content_hash = content_hash, node_kind = text_of kind, node_secret_ref = secret_ref,
         node_mode_type = mode, node_primary_key = primary_key, node_timeout_minutes = timeout\<rparr>))))))))))))))))))
   | _ \<Rightarrow> raise_contract (source @ '': node must be a mapping, got '' @ type_name rawv))"

section \<open>The strict mapping constructor\<close>

text \<open>
  \<open>_strict_construct_mapping\<close>: \<open>construct_object\<close> and \<open>construct_mapping\<close> are the methods of
  PyYAML's \<^verbatim>\<open>SafeLoader\<close>, \<open>start_mark\<close> the text of a node's position.
\<close>

fun check_mapping_keys ::
  "('n \<Rightarrow> pyval res) \<Rightarrow> ('n \<Rightarrow> string) \<Rightarrow> pyval list \<Rightarrow> ('n \<times> 'n) list \<Rightarrow> unit res" where
  "check_mapping_keys construct_object start_mark seen [] = Inr ()"
| "check_mapping_keys construct_object start_mark seen ((key_node, value_node) # rest) =
     bind_res (construct_object key_node) (\<lambda>key.
     if \<not> hashable key then Inl (Exn TypeError (''unhashable type: '' @ repr_str (type_name key)))
     else if \<exists>s\<in>set seen. key_eq key s then
       raise_contract (''duplicate key '' @ repr key @ '' at '' @ start_mark key_node)
     else check_mapping_keys construct_object start_mark (key # seen) rest)"

definition strict_construct_mapping ::
  "('n \<Rightarrow> pyval res) \<Rightarrow> (('n \<times> 'n) list \<Rightarrow> pyval res) \<Rightarrow> ('n \<Rightarrow> string) \<Rightarrow> ('n \<times> 'n) list \<Rightarrow> pyval res" where
  "strict_construct_mapping construct_object construct_mapping start_mark entries =
     bind_res (check_mapping_keys construct_object start_mark [] entries) (\<lambda>_. construct_mapping entries)"

section \<open>A directory of contract files\<close>

text \<open>
  \<open>unknown_dialect\<close> is sqlglot's \<^verbatim>\<open>Dialect.get_or_raise\<close>: the text of its \<^verbatim>\<open>ValueError\<close>, or
  \<open>None\<close> for a known name. \<open>read_text\<close> and \<open>yaml_load\<close> may raise; a \<^verbatim>\<open>yaml.YAMLError\<close> is an
  \<open>OtherError\<close> of that name. \<open>names\<close> are the entries of the directory.
\<close>

definition contract_files :: "string list \<Rightarrow> string list" where
  "contract_files names = sort (filter (ends_with ''.yml'') names) @ sort (filter (ends_with ''.yaml'') names)"

definition yaml_failure :: "string \<Rightarrow> exn \<Rightarrow> exn" where
  "yaml_failure file e =
     (if exn_kind e = Harness ContractError then Exn (Harness ContractError) (file @ '': '' @ exn_text e)
      else if exn_kind e = OtherError ''YAMLError'' then
        Exn (Harness ContractError) (file @ '': invalid YAML: '' @ exn_text e)
      else e)"

definition raw_nodes_of :: "(string \<Rightarrow> string res) \<Rightarrow> (string \<Rightarrow> pyval res) \<Rightarrow> string \<Rightarrow> pyval list res" where
  "raw_nodes_of read_text yaml_load file =
     bind_res (read_text file) (\<lambda>text.
     bind_res (map_exn (yaml_failure file) (yaml_load text)) (\<lambda>loaded.
     case (if loaded = PNone then PDict [] else loaded) of
       PDict document \<Rightarrow> (case get_or_none document ''nodes'' of
           PList raw_nodes \<Rightarrow> Inr raw_nodes
         | _ \<Rightarrow> raise_contract (file @ '': 'nodes' must be a list''))
     | v \<Rightarrow> raise_contract (file @ '': contract document must be a mapping, got '' @ type_name v)))"

text \<open>The loop's state: the nodes so far, and which file each relation came from.\<close>

type_synonym load_state = "node list \<times> (string \<times> string) list"

definition add_node ::
  "sql_parser \<Rightarrow> string option \<Rightarrow> bool \<Rightarrow> string \<Rightarrow> pyval \<Rightarrow> load_state \<Rightarrow> load_state res" where
  "add_node parse dialect check_reads file raw st = (case st of (nodes, sources) \<Rightarrow>
     bind_res (parse_node parse raw file dialect check_reads) (\<lambda>n.
     (case map_of sources (relation n) of
        Some existing \<Rightarrow> raise_contract (''duplicate node '' @ relation n @ '' (in '' @ existing
          @ '' and '' @ file @ '')'')
      | None \<Rightarrow> Inr (nodes @ [n], (relation n, file) # sources))))"

definition add_file ::
  "sql_parser \<Rightarrow> (string \<Rightarrow> string res) \<Rightarrow> (string \<Rightarrow> pyval res) \<Rightarrow> string option \<Rightarrow> bool \<Rightarrow>
   string \<Rightarrow> load_state \<Rightarrow> load_state res" where
  "add_file parse read_text yaml_load dialect check_reads file st =
     bind_res (raw_nodes_of read_text yaml_load file) (\<lambda>raw_nodes.
     fold_res (add_node parse dialect check_reads file) raw_nodes st)"

definition check_dialect :: "(string \<Rightarrow> string option) \<Rightarrow> string option \<Rightarrow> unit res" where
  "check_dialect unknown_dialect dialect = (case dialect of
     None \<Rightarrow> Inr ()
   | Some d \<Rightarrow> (case unknown_dialect d of
       None \<Rightarrow> Inr ()
     | Some why \<Rightarrow> raise_contract (''unknown --dialect '' @ repr_str d @ '': '' @ why)))"

definition load_contract_dir ::
  "sql_parser \<Rightarrow> (string \<Rightarrow> string option) \<Rightarrow> (string \<Rightarrow> string res) \<Rightarrow> (string \<Rightarrow> pyval res) \<Rightarrow>
   string \<Rightarrow> string list \<Rightarrow> string option \<Rightarrow> bool \<Rightarrow> node list res" where
  "load_contract_dir parse unknown_dialect read_text yaml_load path names dialect check_reads =
     bind_res (check_dialect unknown_dialect dialect) (\<lambda>_.
     bind_res (fold_res (add_file parse read_text yaml_load dialect check_reads)
       (contract_files names) ([], [])) (\<lambda>(nodes, sources).
     if nodes = [] then raise_contract (''no contract files found in '' @ path) else Inr nodes))"

end
