(* ===== verification/NodeInvariant.thy ===== *)
theory NodeInvariant
  imports Loader
begin

text \<open>
  What a loaded contract promises: \<open>node_ok\<close>, proved of every node that \<open>parse_node\<close> returns, and
  the distinct relations of a directory. The lemmas follow the fields in the order the loader
  checks them; \<open>field_facts\<close> bundles them.
\<close>

section \<open>The invariant\<close>

fun json_value :: "pyval \<Rightarrow> bool" where
  "json_value (PDict kvs) \<longleftrightarrow> (\<forall>kv\<in>set kvs. is_str (fst kv) \<and> json_value (snd kv))"
| "json_value (PList xs) \<longleftrightarrow> (\<forall>x\<in>set xs. json_value x)"
| "json_value (POther t r) \<longleftrightarrow> False"
| "json_value _ \<longleftrightarrow> True"

definition column_ok :: "column \<Rightarrow> bool" where
  "column_ok c \<longleftrightarrow> \<not> blank (col_name c) \<and> (\<exists>t. parse_sql_type (col_type c) = Inr t)"

definition key_name_ok :: "column list \<Rightarrow> string \<Rightarrow> bool" where
  "key_name_ok columns k \<longleftrightarrow> \<not> blank k \<and>
     (\<exists>c\<in>set columns. col_name c = k \<and> \<not> col_nullable c
        \<and> (\<exists>t. parse_sql_type (col_type c) = Inr t \<and> base t \<noteq> ''DOUBLE_PRECISION''))"

definition key_ok :: "node \<Rightarrow> bool" where
  "key_ok n \<longleftrightarrow> (node_mode_type n = ''upsert'' \<longleftrightarrow> node_primary_key n \<noteq> [])
     \<and> distinct (map py_lower (node_primary_key n))
     \<and> (\<forall>k\<in>set (node_primary_key n). key_name_ok (node_output_columns n) k)"

definition kind_ok :: "node \<Rightarrow> bool" where
  "kind_ok n \<longleftrightarrow> (case map_of kind_rule_table (node_kind n) of
       None \<Rightarrow> False
     | Some r \<Rightarrow> (if script_required r then \<not> blank (node_script n) else node_script n = [])
         \<and> (node_secret_ref n = [] \<or> secret_allowed r \<and> secret_ref_pattern (node_secret_ref n)
              \<and> length (node_secret_ref n) \<le> secret_ref_max_len)
         \<and> node_mode_type n \<in> set (rule_mode_types r) \<inter> set mode_types)"

definition node_ok :: "node \<Rightarrow> bool" where
  "node_ok n \<longleftrightarrow>
     \<not> blank (node_schema n) \<and> \<not> blank (node_table n) \<and> \<not> blank (node_owner n) \<and> \<not> blank (node_schedule n)
     \<and> node_criticality n \<in> set criticalities \<and> node_extra_columns n \<in> set extra_columns_policies
     \<and> kind_ok n
     \<and> node_output_columns n \<noteq> [] \<and> distinct (map col_name (node_output_columns n))
     \<and> (\<forall>c\<in>set (node_output_columns n). column_ok c)
     \<and> key_ok n
     \<and> (\<forall>i. node_timeout_minutes n = Some i \<longrightarrow> min_timeout_minutes \<le> i \<and> i \<le> max_timeout_minutes)
     \<and> json_value (PDict (node_config n))"

section \<open>The fields\<close>

lemma required_string_eq_Inr:
  "required_string raw label field = Inr s \<longleftrightarrow> get_or_none raw field = PStr s \<and> \<not> blank s"
  by (auto simp: required_string_def split: pyval.splits if_splits)

lemma parse_choice_eq_Inr: "parse_choice v allowed label field = Inr s \<longleftrightarrow> v = PStr s \<and> s \<in> set allowed"
  by (auto simp: parse_choice_def split: pyval.splits if_splits)

lemma parse_script_Inr:
  "parse_script rules kind raw label = Inr s \<Longrightarrow> if script_required rules then \<not> blank s else s = []"
  by (auto simp: parse_script_def required_string_eq_Inr split: if_splits)

lemma parse_secret_Inr:
  "parse_secret rules kind raw label = Inr s \<Longrightarrow>
     s = [] \<or> secret_allowed rules \<and> secret_ref_pattern s \<and> length s \<le> secret_ref_max_len"
  by (auto simp: parse_secret_def validate_secret_ref_eq_Inr split: option.splits if_splits)

lemma parse_timeout_Inr:
  "parse_timeout raw label = Inr t \<Longrightarrow>
     (case t of None \<Rightarrow> \<not> has_key raw ''timeout_minutes''
      | Some i \<Rightarrow> dict_get raw ''timeout_minutes'' = Some (PInt i) \<and> min_timeout_minutes \<le> i \<and> i \<le> max_timeout_minutes)"
  by (auto simp: parse_timeout_def has_key_def split: option.splits pyval.splits if_splits)

lemma parse_mode_Inr:
  "parse_mode rules kind raw label = Inr m \<Longrightarrow> m \<in> set (rule_mode_types rules) \<and> m \<in> set mode_types"
  by (auto simp: parse_mode_def res_simps parse_choice_eq_Inr)

lemma parse_column_Inr:
  "parse_column label seen e = Inr c \<Longrightarrow> column_ok c \<and> col_name c \<notin> set seen"
  by (auto simp: parse_column_def column_ok_def res_simps split: pyval.splits if_splits)

lemma parse_columns_Inr:
  "parse_columns label seen es = Inr cs \<Longrightarrow>
     length cs = length es \<and> (\<forall>c\<in>set cs. column_ok c \<and> col_name c \<notin> set seen) \<and> distinct (map col_name cs)"
proof (induction es arbitrary: seen cs)
  case (Cons e es)
  then obtain c cs' where c: "parse_column label seen e = Inr c"
    and cs': "parse_columns label (col_name c # seen) es = Inr cs'" and cs: "cs = c # cs'"
    by (auto simp: res_simps)
  show ?case
    using parse_column_Inr [OF c] Cons.IH [OF cs'] unfolding cs by auto
qed simp

lemma parse_output_columns_Inr:
  "parse_output_columns raw label = Inr cs \<Longrightarrow>
     cs \<noteq> [] \<and> (\<forall>c\<in>set cs. column_ok c) \<and> distinct (map col_name cs)"
  by (auto simp: parse_output_columns_def simp del: parse_columns.simps split: pyval.splits list.splits
      dest!: parse_columns_Inr)

lemma key_column_ok_Inr:
  "key_column_ok label columns seen v = Inr k \<Longrightarrow> key_name_ok columns k \<and> py_lower k \<notin> set seen"
  by (auto simp: key_column_ok_def key_name_ok_def find_column_def res_simps
      dest: find_Some_in_set split: pyval.splits if_splits option.splits)

lemma key_columns_Inr:
  "key_columns label columns seen vs = Inr ks \<Longrightarrow>
     length ks = length vs \<and> (\<forall>k\<in>set ks. key_name_ok columns k \<and> py_lower k \<notin> set seen)
     \<and> distinct (map py_lower ks)"
proof (induction vs arbitrary: seen ks)
  case (Cons v vs)
  then obtain k ks' where k: "key_column_ok label columns seen v = Inr k"
    and ks': "key_columns label columns (py_lower k # seen) vs = Inr ks'" and ks: "ks = k # ks'"
    by (auto simp: res_simps)
  show ?case
    using key_column_ok_Inr [OF k] Cons.IH [OF ks'] unfolding ks by auto
qed simp

lemma validate_primary_key_Inr:
  "validate_primary_key raw mode columns label = Inr ks \<Longrightarrow>
     (mode = ''upsert'' \<longleftrightarrow> ks \<noteq> []) \<and> distinct (map py_lower ks) \<and> (\<forall>k\<in>set ks. key_name_ok columns k)"
  by (auto simp: validate_primary_key_def simp del: key_columns.simps split: if_splits option.splits pyval.splits list.splits
      dest: key_columns_Inr)

lemma check_config_value_Inr: "check_config_value label v key = Inr () \<longleftrightarrow> json_value v"
proof (induction v arbitrary: key rule: json_value.induct)
  case (1 kvs)
  then show ?case
    by (subst check_config_value.simps) (auto simp: res_simps)
next
  case (2 xs)
  then show ?case
    by (subst check_config_value.simps) (auto simp: res_simps)
qed (subst check_config_value.simps; simp)+

lemma validate_config_Inr:
  "validate_config raw label = Inr d \<longleftrightarrow> (raw = PNone \<and> d = [] \<or> raw = PDict d \<and> json_value raw)"
  by (auto simp: validate_config_def res_simps check_config_value_Inr split: pyval.splits)

lemma rules_for_eq_Inr: "rules_for kind label = Inr r \<longleftrightarrow> (\<exists>k. kind = PStr k \<and> map_of kind_rule_table k = Some r)"
  by (auto simp: rules_for_def split: pyval.splits option.splits)

lemmas field_facts = required_string_eq_Inr parse_choice_eq_Inr rules_for_eq_Inr

section \<open>One node\<close>

lemma parse_node_fields:
  assumes "parse_node parse rawv source dialect c = Inr n"
  obtains raw rules where "rawv = PDict raw"
    "foreign_keys raw allowed_keys = []"
    "rules_for (get_default raw ''kind'' (PStr default_kind)) (node_label raw source) = Inr rules"
    "get_default raw ''kind'' (PStr default_kind) = PStr (node_kind n)"
    "required_string raw (node_label raw source) ''schema'' = Inr (node_schema n)"
    "required_string raw (node_label raw source) ''table'' = Inr (node_table n)"
    "required_string raw (node_label raw source) ''owner'' = Inr (node_owner n)"
    "required_string raw (node_label raw source) ''schedule'' = Inr (node_schedule n)"
    "parse_script rules (PStr (node_kind n)) raw (node_label raw source) = Inr (node_script n)"
    "parse_choice (get_or_none raw ''criticality'') criticalities (node_label raw source) ''criticality'' = Inr (node_criticality n)"
    "parse_choice (get_default raw ''extra_columns'' (PStr ''raise'')) extra_columns_policies (node_label raw source)
       ''extra_columns'' = Inr (node_extra_columns n)"
    "validate_reads (reads_rule_of rules) parse (get_or_none raw ''reads'') (node_label raw source) dialect c = Inr (node_reads n)"
    "parse_secret rules (PStr (node_kind n)) raw (node_label raw source) = Inr (node_secret_ref n)"
    "parse_timeout raw (node_label raw source) = Inr (node_timeout_minutes n)"
    "parse_mode rules (PStr (node_kind n)) raw (node_label raw source) = Inr (node_mode_type n)"
    "parse_output_columns raw (node_label raw source) = Inr (node_output_columns n)"
    "validate_primary_key raw (node_mode_type n) (node_output_columns n) (node_label raw source) = Inr (node_primary_key n)"
    "parse_description raw (node_label raw source) = Inr (node_description n)"
    "validate_config (get_or_none raw ''config'') (node_label raw source) = Inr (node_config n)"
    "parse_content_hash raw (node_label raw source) = Inr (node_content_hash n)"
proof -
  from assms obtain raw where raw: "rawv = PDict raw"
    by (cases rawv) (simp_all add: parse_node_def)
  show ?thesis
    using assms
    by (clarsimp simp: raw parse_node_def Let_def bind_res_eq_Inr rules_for_eq_Inr reject_foreign_def split: list.splits)
      (rule that [OF raw]; simp add: rules_for_eq_Inr)
qed

lemma parse_node_ok:
  assumes "parse_node parse rawv source dialect c = Inr n"
  shows "node_ok n"
  using assms
proof (rule parse_node_fields)
  fix raw rules
  let ?l = "node_label raw source"
  assume f: "rules_for (get_default raw ''kind'' (PStr default_kind)) ?l = Inr rules"
    "get_default raw ''kind'' (PStr default_kind) = PStr (node_kind n)"
    "required_string raw ?l ''schema'' = Inr (node_schema n)"
    "required_string raw ?l ''table'' = Inr (node_table n)"
    "required_string raw ?l ''owner'' = Inr (node_owner n)"
    "required_string raw ?l ''schedule'' = Inr (node_schedule n)"
    "parse_choice (get_or_none raw ''criticality'') criticalities ?l ''criticality'' = Inr (node_criticality n)"
    "parse_choice (get_default raw ''extra_columns'' (PStr ''raise'')) extra_columns_policies ?l
       ''extra_columns'' = Inr (node_extra_columns n)"
    and script: "parse_script rules (PStr (node_kind n)) raw ?l = Inr (node_script n)"
    and secret: "parse_secret rules (PStr (node_kind n)) raw ?l = Inr (node_secret_ref n)"
    and timeout: "parse_timeout raw ?l = Inr (node_timeout_minutes n)"
    and mode: "parse_mode rules (PStr (node_kind n)) raw ?l = Inr (node_mode_type n)"
    and cols: "parse_output_columns raw ?l = Inr (node_output_columns n)"
    and key: "validate_primary_key raw (node_mode_type n) (node_output_columns n) ?l = Inr (node_primary_key n)"
    and config: "validate_config (get_or_none raw ''config'') ?l = Inr (node_config n)"
  have "map_of kind_rule_table (node_kind n) = Some rules"
    using f(1,2) by (auto simp: rules_for_eq_Inr)
  then have "kind_ok n"
    using parse_script_Inr [OF script] parse_secret_Inr [OF secret] parse_mode_Inr [OF mode]
    by (simp add: kind_ok_def)
  moreover have "key_ok n"
    using validate_primary_key_Inr [OF key] by (simp add: key_ok_def)
  moreover have "json_value (PDict (node_config n))"
    using config unfolding validate_config_Inr by (elim disjE conjE) (simp, simp only:)
  ultimately show "node_ok n"
    using f(3-) parse_timeout_Inr [OF timeout] parse_output_columns_Inr [OF cols]
    by (auto simp: node_ok_def field_facts simp del: json_value.simps)
qed

text \<open>The read gate is the only rule that \<^verbatim>\<open>check_reads=False\<close> turns off, whatever the dialect.\<close>

lemma parse_node_ungated:
  assumes "parse_node parse rawv source dialect c = Inr n"
  shows "parse_node parse rawv source dialect' False = Inr n"
proof -
  obtain raw where raw: "rawv = PDict raw" using assms by (cases rawv) (simp_all add: parse_node_def)
  show ?thesis
    using assms by (clarsimp simp: raw parse_node_def Let_def bind_res_eq_Inr kind_rule.ungated)
qed

section \<open>Errors\<close>

definition str_keys :: "pyval \<Rightarrow> bool" where
  "str_keys v = (case v of PDict d \<Rightarrow> \<forall>k\<in>set (dict_keys d). is_str k | _ \<Rightarrow> True)"

text \<open>The keys that a file of this contract can have without an unknown one among them: strings.\<close>

definition raw_str_keys :: "pyval \<Rightarrow> bool" where
  "raw_str_keys v \<longleftrightarrow> str_keys v \<and>
     (case get_or_none (reads_content v) ''output_columns'' of PList es \<Rightarrow> \<forall>e\<in>set es. str_keys e | _ \<Rightarrow> True)"

lemma reject_foreign_Inl:
  assumes "reject_foreign d allowed m = Inl e" and "str_keys (PDict d)"
  shows "is_contract_error e"
proof -
  obtain k ks where k: "foreign_keys d allowed = k # ks"
    using assms(1) by (auto simp: reject_foreign_def split: list.splits)
  have "\<forall>x\<in>set (k # ks). is_str x"
    using assms(2) unfolding k [symmetric] by (auto simp: foreign_keys_def str_keys_def)
  then have "sorted_repr (k # ks) = Inr (repr_strs (sort (map text_of (k # ks))))"
    unfolding sorted_repr_def by simp
  then show ?thesis using assms(1) by (auto simp: reject_foreign_def k)
qed

lemma parse_sql_type_Inl:
  assumes "parse_sql_type s = Inl e"
  shows "is_contract_error e"
proof (cases "type_re (strip s)")
  case False
  then show ?thesis using assms by (auto simp: parse_type_rejected)
next
  case acc: True
  then show ?thesis
  proof (cases rule: type_re_cases)
    case bare
    then show ?thesis using parse_bare_shape [OF bare] assms by auto
  next
    case (num b d1 w d2)
    then show ?thesis
      using parse_num_shape [OF num(1,2) acc num(3-7)] assms by (auto split: if_splits)
  next
    case (chars b d)
    then show ?thesis using parse_char_shape [OF chars(1,2) acc chars(3,4)] assms by auto
  qed
qed

lemma required_string_Inl: "required_string raw label field = Inl e \<Longrightarrow> is_contract_error e"
  by (auto simp: required_string_def split: pyval.splits if_splits)

lemma parse_choice_Inl: "parse_choice v allowed label field = Inl e \<Longrightarrow> is_contract_error e"
  by (auto simp: parse_choice_def split: pyval.splits if_splits)

lemma rules_for_Inl: "rules_for kind label = Inl e \<Longrightarrow> is_contract_error e"
  by (auto simp: rules_for_def split: pyval.splits option.splits)

lemma parse_script_Inl: "parse_script rules kind raw label = Inl e \<Longrightarrow> is_contract_error e"
  by (auto simp: parse_script_def dest: required_string_Inl split: if_splits)

lemma parse_secret_Inl: "parse_secret rules kind raw label = Inl e \<Longrightarrow> is_contract_error e"
  by (auto simp: parse_secret_def validate_secret_ref_def split: option.splits if_splits pyval.splits)

lemma parse_timeout_Inl: "parse_timeout raw label = Inl e \<Longrightarrow> is_contract_error e"
  by (auto simp: parse_timeout_def split: option.splits if_splits pyval.splits)

lemma parse_mode_Inl: "parse_mode rules kind raw label = Inl e \<Longrightarrow> is_contract_error e"
  by (auto simp: parse_mode_def res_simps dest: parse_choice_Inl)

lemma parse_description_Inl: "parse_description raw label = Inl e \<Longrightarrow> is_contract_error e"
  by (auto simp: parse_description_def split: pyval.splits)

lemma parse_content_hash_Inl: "parse_content_hash raw label = Inl e \<Longrightarrow> is_contract_error e"
  by (auto simp: parse_content_hash_def split: pyval.splits)

lemma check_config_value_Inl: "check_config_value label v key = Inl e \<Longrightarrow> is_contract_error e"
proof (induction v arbitrary: key rule: json_value.induct)
  case (1 kvs)
  from 1(2) obtain kv where kv: "kv \<in> set kvs"
    "(case kv of (k, w) \<Rightarrow> bind_res (require (is_str k) (Exn (Harness ContractError)
        (label @ '': 'config' keys must be strings, got '' @ repr k))) (\<lambda>_. check_config_value label w k)) = Inl e"
    by (subst (asm) check_config_value.simps) (auto dest!: each_eq_Inl_ex)
  obtain k w where kw: "kv = (k, w)" by (cases kv)
  then consider "is_contract_error e" | "check_config_value label w k = Inl e"
    using kv(2) by (auto simp: res_simps)
  then show ?case using 1(1) [OF kv(1)] by cases (simp_all add: kw)
next
  case (2 xs)
  from 2(2) obtain x where "x \<in> set xs" "check_config_value label x key = Inl e"
    by (subst (asm) check_config_value.simps) (auto dest!: each_eq_Inl_ex)
  then show ?case using 2(1) by blast
qed (subst (asm) check_config_value.simps; auto)+

lemma validate_config_Inl: "validate_config raw label = Inl e \<Longrightarrow> is_contract_error e"
  by (auto simp: validate_config_def res_simps split: pyval.splits dest: check_config_value_Inl)

lemma parse_column_Inl:
  "parse_column label seen v = Inl e \<Longrightarrow> str_keys v \<Longrightarrow> is_contract_error e"
  by (cases v; simp add: parse_column_def)
    (auto simp: res_simps column_error_def split: pyval.splits if_splits
      dest: reject_foreign_Inl parse_sql_type_Inl)

lemma parse_columns_Inl:
  "parse_columns label seen es = Inl e \<Longrightarrow> (\<And>v. v \<in> set es \<Longrightarrow> str_keys v) \<Longrightarrow> is_contract_error e"
  by (induction es arbitrary: seen) (auto simp: res_simps dest: parse_column_Inl)

lemma key_column_ok_Inl: "key_column_ok label columns seen v = Inl e \<Longrightarrow> is_contract_error e"
  by (auto simp: key_column_ok_def key_error_def res_simps dest: parse_sql_type_Inl
      split: pyval.splits if_splits option.splits)

lemma key_columns_Inl: "key_columns label columns seen vs = Inl e \<Longrightarrow> is_contract_error e"
  by (induction vs arbitrary: seen) (auto simp: res_simps dest: key_column_ok_Inl)

lemma validate_primary_key_Inl: "validate_primary_key raw mode columns label = Inl e \<Longrightarrow> is_contract_error e"
  by (auto simp: validate_primary_key_def key_error_def simp del: key_columns.simps
      split: if_splits option.splits pyval.splits list.splits dest: key_columns_Inl)

lemmas field_errors = required_string_Inl parse_choice_Inl rules_for_Inl parse_script_Inl parse_secret_Inl
  parse_timeout_Inl parse_mode_Inl parse_description_Inl parse_content_hash_Inl validate_config_Inl
  validate_primary_key_Inl kind_rule.contract_error

lemma parse_output_columns_Inl:
  "parse_output_columns raw label = Inl e \<Longrightarrow> raw_str_keys (PDict raw) \<Longrightarrow> is_contract_error e"
  by (auto simp: parse_output_columns_def raw_str_keys_def reads_content_def simp del: parse_columns.simps
      split: pyval.splits list.splits elim!: parse_columns_Inl)

lemma parse_node_Inl:
  assumes "parse_node parse rawv source dialect c = Inl e" and "raw_str_keys rawv"
  shows "is_contract_error e"
proof (cases rawv)
  case (PDict raw)
  then have "str_keys (PDict raw)" using assms(2) by (simp add: raw_str_keys_def)
  then show ?thesis
    using assms unfolding PDict parse_node_def Let_def pyval.case
    by (elim bind_res_eq_Inl [THEN iffD1, THEN disjE] exE conjE)
      (auto dest: field_errors reject_foreign_Inl parse_output_columns_Inl)
qed (use assms in \<open>auto simp: parse_node_def\<close>)

section \<open>A directory\<close>

lemma check_mapping_keys_Inr:
  "check_mapping_keys co sm seen entries = Inr u \<Longrightarrow>
     \<exists>keys. list_all2 (\<lambda>(k, v) key. co k = Inr key) entries keys \<and> (\<forall>k\<in>set keys. hashable k)
       \<and> (\<forall>k\<in>set keys. \<forall>s\<in>set seen. \<not> key_eq k s)
       \<and> (\<forall>i j. i < j \<longrightarrow> j < length keys \<longrightarrow> \<not> key_eq (keys ! i) (keys ! j))"
proof (induction entries arbitrary: seen)
  case (Cons e entries)
  obtain kn vn where e: "e = (kn, vn)" by (cases e)
  from Cons.prems obtain key where key: "co kn = Inr key" "hashable key" "\<forall>s\<in>set seen. \<not> key_eq key s"
    and rest: "check_mapping_keys co sm (key # seen) entries = Inr u"
    by (auto simp: e res_simps split: if_splits)
  from Cons.IH [OF rest] obtain keys where keys:
    "list_all2 (\<lambda>(k, v) key. co k = Inr key) entries keys" "\<forall>k\<in>set keys. hashable k"
    "\<forall>k\<in>set keys. \<forall>s\<in>set (key # seen). \<not> key_eq k s"
    "\<forall>i j. i < j \<longrightarrow> j < length keys \<longrightarrow> \<not> key_eq (keys ! i) (keys ! j)" by blast
  have "\<not> key_eq ((key # keys) ! i) ((key # keys) ! j)" if "i < j" "j < length (key # keys)" for i j
    using that keys(3,4) by (cases i; cases j) (auto simp: key_eq_sym)
  then show ?case using key keys by (intro exI [of _ "key # keys"]) (auto simp: e)
qed simp

definition load_inv :: "load_state \<Rightarrow> bool" where
  "load_inv st \<longleftrightarrow> (case st of (nodes, sources) \<Rightarrow>
     map fst sources = rev (map relation nodes) \<and> distinct (map relation nodes) \<and> (\<forall>n\<in>set nodes. node_ok n))"

lemma add_node_inv:
  assumes "add_node parse dialect c file raw st = Inr st'" and "load_inv st"
  shows "load_inv st'"
proof -
  obtain nodes sources where st: "st = (nodes, sources)" by (cases st)
  from assms(1) obtain n where n: "parse_node parse raw file dialect c = Inr n"
    and new: "map_of sources (relation n) = None" and st': "st' = (nodes @ [n], (relation n, file) # sources)"
    by (auto simp: add_node_def st res_simps split: option.splits)
  have keys: "map fst sources = rev (map relation nodes)" using assms(2) by (simp add: st load_inv_def)
  have "relation n \<notin> set (map fst sources)" using new by (simp add: map_of_eq_None_iff)
  then have "relation n \<notin> set (map relation nodes)" unfolding keys by simp
  then show ?thesis
    using assms(2) parse_node_ok [OF n] by (auto simp: st st' load_inv_def)
qed

lemma add_file_inv:
  "add_file parse rt yl dialect c file st = Inr st' \<Longrightarrow> load_inv st \<Longrightarrow> load_inv st'"
  by (auto simp: add_file_def bind_res_eq_Inr intro: fold_res_invariant [where P = load_inv] add_node_inv)

lemma load_contract_dir_Inr:
  assumes "load_contract_dir parse ud rt yl path names dialect c = Inr nodes"
  shows "nodes \<noteq> [] \<and> distinct (map relation nodes) \<and> (\<forall>n\<in>set nodes. node_ok n)"
proof -
  from assms obtain sources where
    run: "fold_res (add_file parse rt yl dialect c) (contract_files names) ([], []) = Inr (nodes, sources)"
    and ne: "nodes \<noteq> []"
    by (auto simp: load_contract_dir_def res_simps split: if_splits)
  have "load_inv (nodes, sources)"
    by (rule fold_res_invariant [OF run]) (auto simp: load_inv_def [of "([], [])"] intro: add_file_inv)
  then show ?thesis using ne by (simp add: load_inv_def)
qed

text \<open>Turning the read gate off, under any dialect, loads the same nodes.\<close>

lemma add_node_ungated:
  "add_node parse dialect c file raw st = Inr st' \<Longrightarrow> add_node parse dialect' False file raw st = Inr st'"
  by (auto simp: add_node_def res_simps dest: parse_node_ungated split: prod.splits)

lemma fold_res_mono:
  assumes "fold_res f xs s = Inr s'" and "\<And>x s s'. f x s = Inr s' \<Longrightarrow> g x s = Inr s'"
  shows "fold_res g xs s = Inr s'"
  using assms(1) by (induction xs arbitrary: s) (auto simp: res_simps dest: assms(2))

lemma add_file_ungated:
  "add_file parse rt yl dialect c file st = Inr st' \<Longrightarrow> add_file parse rt yl dialect' False file st = Inr st'"
  by (auto simp: add_file_def res_simps intro: fold_res_mono add_node_ungated)

lemma load_contract_dir_ungated:
  assumes "load_contract_dir parse ud rt yl path names dialect c = Inr nodes"
  shows "load_contract_dir parse ud rt yl path names None False = Inr nodes"
proof -
  from assms obtain sources where
    run: "fold_res (add_file parse rt yl dialect c) (contract_files names) ([], []) = Inr (nodes, sources)"
    and ne: "nodes \<noteq> []"
    by (auto simp: load_contract_dir_def res_simps split: if_splits)
  have "fold_res (add_file parse rt yl None False) (contract_files names) ([], []) = Inr (nodes, sources)"
    by (rule fold_res_mono [OF run]) (rule add_file_ungated)
  then show ?thesis using ne by (simp add: load_contract_dir_def check_dialect_def)
qed

end
