(* ===== verification/Hashing.thy ===== *)
theory Hashing
  imports Json Sha256 NodeInvariant
begin

text \<open>
  The content hash (\<^verbatim>\<open>continuo_python_runtime/hashing.py\<close>) and the wire entry it is taken of
  (\<open>node_entry\<close> of \<^verbatim>\<open>contract/merge.py\<close>). Two nodes with one content hash agree on every
  hashed field, on the script and on the closure's files, or a collision of SHA-256 is at hand;
  the timeout, the hash fields and the blanks of a read do not change it.
\<close>

section \<open>From Python values to JSON\<close>

text \<open>
  What \<^verbatim>\<open>json.dumps(..., sort_keys=True)\<close> writes. The keys it meets are strings
  (\<open>validate_config\<close>); any other key is not modelled beyond being an error.
\<close>

definition float_json :: "string \<Rightarrow> string" where
  "float_json t = (if t = ''nan'' then ''NaN'' else if t = ''inf'' then ''Infinity''
     else if t = ''-inf'' then ''-Infinity'' else t)"

definition json_type_error :: "string \<Rightarrow> exn" where
  "json_type_error t = Exn TypeError (''Object of type '' @ t @ '' is not JSON serializable'')"

function to_json :: "pyval \<Rightarrow> json res" where
  "to_json v = (case v of
     PNone \<Rightarrow> Inr JNull
   | PBool b \<Rightarrow> Inr (JBool b)
   | PInt i \<Rightarrow> Inr (JInt i)
   | PFloat r t \<Rightarrow> Inr (JFloat (float_json t))
   | PStr s \<Rightarrow> Inr (JStr s)
   | PList xs \<Rightarrow> bind_res (traverse to_json xs) (\<lambda>js. Inr (JArr js))
   | PDict kvs \<Rightarrow>
       bind_res (traverse (\<lambda>(k, w). bind_res (to_json w) (\<lambda>j.
         if is_str k then Inr (text_of k, j) else Inl (json_type_error (type_name k)))) kvs) (\<lambda>ms.
       Inr (JObj (sort_key fst ms)))
   | POther t r \<Rightarrow> Inl (json_type_error t))"
  by pat_completeness auto
termination
proof (relation "measure size")
  fix v :: pyval and xs x
  assume *: "v = PList xs" and "x \<in> set xs"
  from this(2) have "size x \<le> size_list size xs" by (induction xs) auto
  then show "(x, v) \<in> measure size" using * by simp
next
  fix v :: pyval and kvs z k w
  assume *: "v = PDict kvs" and "z \<in> set kvs" "(k, w) = z"
  from this(2,3) have "(k, w) \<in> set kvs" by simp
  then have "size_prod size size (k, w) \<le> size_list (size_prod size size) kvs"
    by (induction kvs) auto
  then show "(w, v) \<in> measure size" using * by simp
qed simp

declare to_json.simps [simp del]

section \<open>Hashing\<close>

definition hash_part_fields :: "string list" where
  "hash_part_fields = [''source_hash'', ''shared_code_hash'', ''config_hash'']"

definition content_hash_field :: string where "content_hash_field = ''content_hash''"

definition non_hashed_fields :: "string list" where "non_hashed_fields = [''timeout_minutes'']"

definition normalize_read :: "pyval \<Rightarrow> pyval" where
  "normalize_read v = (case v of PStr s \<Rightarrow> PStr (normalize_ws s) | _ \<Rightarrow> v)"

definition normalize_reads :: "pyval \<Rightarrow> pyval" where
  "normalize_reads v = (case v of PDict d \<Rightarrow> PDict (map (\<lambda>(k, w). (k, normalize_read w)) d) | _ \<Rightarrow> v)"

definition dropped_fields :: "string list" where
  "dropped_fields = content_hash_field # hash_part_fields @ non_hashed_fields"

definition canonical_entry :: "pydict \<Rightarrow> pydict" where
  "canonical_entry entry =
     map (\<lambda>(k, v). (k, if k = PStr ''reads'' then normalize_reads v else v))
       (filter (\<lambda>(k, v). k \<notin> PStr ` set dropped_fields) entry)"

definition canonical_json :: "pydict \<Rightarrow> string res" where
  "canonical_json entry = bind_res (to_json (PDict (canonical_entry entry))) (\<lambda>j. Inr (dumps j))"

definition source_hash :: "string \<Rightarrow> string" where
  "source_hash script_bytes = sha256_hex script_bytes"

definition shared_code_hash :: "string list \<Rightarrow> string" where
  "shared_code_hash member_bytes = (let unit_hashes = sort (map sha256_hex member_bytes) in
     if unit_hashes = [] then [] else sha256_hex (utf8 (concat unit_hashes)))"

definition config_hash :: "pydict \<Rightarrow> string res" where
  "config_hash entry = bind_res (canonical_json entry) (\<lambda>t. Inr (sha256_hex (utf8 t)))"

definition content_hash_fold :: "string \<Rightarrow> string \<Rightarrow> string \<Rightarrow> string" where
  "content_hash_fold source shared config =
     ''sha256:'' @ sha256_hex (utf8 (source @ ''|'' @ shared @ ''|'' @ config))"

definition hash_parts :: "pydict \<Rightarrow> string \<Rightarrow> string list \<Rightarrow> (string \<times> string) list res" where
  "hash_parts entry script_bytes member_bytes =
     (let s = source_hash script_bytes; sh = shared_code_hash member_bytes in
      bind_res (config_hash entry) (\<lambda>c.
      Inr [(''source_hash'', s), (''shared_code_hash'', sh), (''config_hash'', c),
           (''content_hash'', content_hash_fold s sh c)]))"

section \<open>The wire entry of a node\<close>

definition column_entry :: "column \<Rightarrow> pyval" where
  "column_entry c = PDict [(PStr ''name'', PStr (col_name c)), (PStr ''type'', PStr (col_type c)),
     (PStr ''nullable'', PBool (col_nullable c))]"

definition node_entry :: "node \<Rightarrow> pydict" where
  "node_entry n =
     [(PStr ''schema'', PStr (node_schema n)), (PStr ''table'', PStr (node_table n)),
      (PStr ''owner'', PStr (node_owner n)), (PStr ''schedule'', PStr (node_schedule n)),
      (PStr ''criticality'', PStr (node_criticality n)), (PStr ''kind'', PStr (node_kind n)),
      (PStr ''script'', PStr (node_script n)),
      (PStr ''reads'', PDict (map (\<lambda>(k, s). (PStr k, PStr s)) (node_reads n))),
      (PStr ''output_columns'', PList (map column_entry (node_output_columns n))),
      (PStr ''description'', PStr (node_description n)),
      (PStr ''extra_columns'', PStr (node_extra_columns n)),
      (PStr ''config'', PDict (node_config n))]
     @ (if node_secret_ref n \<noteq> [] then [(PStr ''secret_ref'', PStr (node_secret_ref n))] else [])
     @ (if node_mode_type n \<noteq> default_mode_type then [(PStr ''mode_type'', PStr (node_mode_type n))] else [])
     @ (if node_mode_type n = ''upsert''
        then [(PStr ''primary_key'', PList (map PStr (node_primary_key n)))] else [])"

section \<open>JSON values\<close>

lemma list_all2_member2: "list_all2 P xs ys \<Longrightarrow> y \<in> set ys \<Longrightarrow> \<exists>x\<in>set xs. P x y"
  by (induction rule: list_all2_induct) auto

fun float_texts :: "pyval \<Rightarrow> bool" where
  "float_texts (PFloat r t) \<longleftrightarrow> float_text (float_json t)"
| "float_texts (PList xs) \<longleftrightarrow> (\<forall>x\<in>set xs. float_texts x)"
| "float_texts (PDict kvs) \<longleftrightarrow> (\<forall>kv\<in>set kvs. float_texts (snd kv))"
| "float_texts _ \<longleftrightarrow> True"

lemma to_json_leaf [simp]:
  "to_json PNone = Inr JNull" "to_json (PBool b) = Inr (JBool b)" "to_json (PInt i) = Inr (JInt i)"
  "to_json (PFloat r t) = Inr (JFloat (float_json t))" "to_json (PStr s) = Inr (JStr s)"
  "to_json (POther t x) = Inl (json_type_error t)"
  by (simp_all add: to_json.simps)

lemma to_json_list: "to_json (PList xs) = Inr j \<longleftrightarrow> (\<exists>js. j = JArr js \<and> list_all2 (\<lambda>x j. to_json x = Inr j) xs js)"
  by (subst to_json.simps) (auto simp: res_simps traverse_eq_Inr)

definition member_json :: "pyval \<times> pyval \<Rightarrow> string \<times> json \<Rightarrow> bool" where
  "member_json kv m \<longleftrightarrow> fst kv = PStr (fst m) \<and> to_json (snd kv) = Inr (snd m)"

lemma to_json_dict:
  "to_json (PDict kvs) = Inr j \<longleftrightarrow> (\<exists>ms. j = JObj (sort_key fst ms) \<and> list_all2 member_json kvs ms)"
proof -
  have eq: "(case kv of (k, w) \<Rightarrow> bind_res (to_json w) (\<lambda>j.
      if is_str k then Inr (text_of k, j) else Inl (json_type_error (type_name k)))) = Inr m \<longleftrightarrow> member_json kv m" for kv m
    by (cases kv; cases m) (auto simp: member_json_def res_simps is_str_iff split: if_splits)
  show ?thesis
    by (subst to_json.simps) (auto simp: res_simps traverse_eq_Inr eq)
qed

lemma to_json_total: "json_value v \<Longrightarrow> \<exists>j. to_json v = Inr j"
proof (induction v rule: json_value.induct)
  case (1 kvs)
  then have "\<forall>kv\<in>set kvs. \<exists>m. member_json kv m"
    by (auto simp: member_json_def is_str_iff)
  then have "\<exists>ms. list_all2 member_json kvs ms"
    by (induction kvs) (auto simp: list_all2_Cons1)
  then show ?case by (auto simp: to_json_dict)
next
  case (2 xs)
  then have "\<forall>x\<in>set xs. \<exists>j. to_json x = Inr j" by auto
  then have "\<exists>js. list_all2 (\<lambda>x j. to_json x = Inr j) xs js"
    by (induction xs) (auto simp: list_all2_Cons1)
  then show ?case by (auto simp: to_json_list)
qed auto

lemma to_json_wf: "float_texts v \<Longrightarrow> to_json v = Inr j \<Longrightarrow> wf_json j"
proof (induction v arbitrary: j rule: float_texts.induct)
  case (2 xs)
  from 2(3) obtain js where j: "j = JArr js" and l: "list_all2 (\<lambda>x j. to_json x = Inr j) xs js"
    by (auto simp: to_json_list)
  have "wf_json y" if "y \<in> set js" for y
  proof -
    from list_all2_member2 [OF l that] obtain x where "x \<in> set xs" "to_json x = Inr y" by blast
    then show ?thesis using 2(1,2) by auto
  qed
  then show ?case by (simp add: j)
next
  case (3 kvs)
  from 3(3) obtain ms where j: "j = JObj (sort_key fst ms)" and l: "list_all2 member_json kvs ms"
    by (auto simp: to_json_dict)
  have "wf_json y" if "(k, y) \<in> set ms" for k y
  proof -
    from list_all2_member2 [OF l that] obtain kv where "kv \<in> set kvs" "member_json kv (k, y)" by blast
    then show ?thesis using 3(1,2) by (auto simp: member_json_def)
  qed
  then show ?case by (auto simp: j)
qed auto

text \<open>Two values that are written alike.\<close>

definition json_eq :: "pyval \<Rightarrow> pyval \<Rightarrow> bool" where
  "json_eq v w \<longleftrightarrow> (\<exists>j. to_json v = Inr j \<and> to_json w = Inr j)"

lemma json_eq_simps [simp]:
  "json_eq (PStr s) (PStr t) \<longleftrightarrow> s = t" "json_eq (PBool a) (PBool b) \<longleftrightarrow> a = b"
  by (auto simp: json_eq_def)

lemma json_eq_list: "json_eq (PList xs) (PList ys) \<longleftrightarrow> list_all2 json_eq xs ys"
proof
  assume "json_eq (PList xs) (PList ys)"
  then obtain js where "list_all2 (\<lambda>x j. to_json x = Inr j) xs js" "list_all2 (\<lambda>x j. to_json x = Inr j) ys js"
    by (auto simp: json_eq_def to_json_list)
  then show "list_all2 json_eq xs ys"
    by (auto simp: list_all2_conv_all_nth json_eq_def)
next
  assume "list_all2 json_eq xs ys"
  then have "\<exists>js. list_all2 (\<lambda>x j. to_json x = Inr j) xs js \<and> list_all2 (\<lambda>x j. to_json x = Inr j) ys js"
    by (induction rule: list_all2_induct) (auto simp: json_eq_def list_all2_Cons1)
  then show "json_eq (PList xs) (PList ys)" by (auto simp: json_eq_def to_json_list)
qed

lemma map_of_mset:
  assumes "distinct (map fst xs)" "mset xs = mset ys"
  shows "map_of xs = map_of ys"
proof -
  have "mset (map fst xs) = mset (map fst ys)" using assms(2) by simp
  then have "distinct (map fst ys)" using assms(1) by (metis distinct_count_atmost_1 mset_eq_imp_distinct_iff)
  moreover have "set xs = set ys" using assms(2) by (metis set_mset_mset)
  ultimately show ?thesis using assms(1) by (metis map_of_inject_set)
qed

lemma member_keys: "list_all2 member_json kvs ms \<Longrightarrow> map fst kvs = map (PStr \<circ> fst) ms"
  by (induction rule: list_all2_induct) (auto simp: member_json_def)

lemma member_lookup:
  "list_all2 member_json kvs ms \<Longrightarrow>
     (case dict_get kvs k of None \<Rightarrow> map_of ms k = None
      | Some v \<Rightarrow> \<exists>j. to_json v = Inr j \<and> map_of ms k = Some j)"
  unfolding dict_get_def
  by (induction rule: list_all2_induct) (auto simp: member_json_def split: option.splits)

text \<open>A dictionary is written by its content: the insertion order of the keys plays no part.\<close>

lemma json_eq_dict:
  assumes "json_eq (PDict a) (PDict b)" "distinct (map fst a)" "distinct (map fst b)"
  shows "rel_option json_eq (dict_get a k) (dict_get b k)"
proof -
  from assms(1) obtain ms ns where l: "list_all2 member_json a ms" "list_all2 member_json b ns"
    and eq: "sort_key fst ms = sort_key fst ns"
    by (auto simp: json_eq_def to_json_dict)
  have d: "distinct (map fst ms)"
    using assms(2) unfolding member_keys [OF l(1)] by (simp add: distinct_map comp_inj_on_iff inj_on_def)
  have "mset ms = mset ns" by (metis eq mset_sort)
  then have "map_of ms = map_of ns" by (rule map_of_mset [OF d])
  then show ?thesis
    using member_lookup [OF l(1), of k] member_lookup [OF l(2), of k]
    by (auto simp: json_eq_def split: option.splits)
qed

section \<open>The digests\<close>

lemma concat_same_length:
  "concat xs = concat ys \<Longrightarrow> \<forall>x\<in>set xs \<union> set ys. length x = n \<Longrightarrow> 0 < n \<Longrightarrow> xs = ys"
proof (induction xs arbitrary: ys)
  case Nil
  then show ?case by (cases ys) auto
next
  case (Cons x xs)
  then obtain y ys' where ys: "ys = y # ys'" by (cases ys) auto
  then show ?case using Cons by auto
qed

lemma utf8_digests: "utf8 (concat (map sha256_hex ms)) = concat (map sha256_hex ms)"
  by (rule utf8_ascii) (auto dest: sha256_hex_chars hex_ascii)

text \<open>
  What is hashed on the way to a content hash, each byte string with the place it is hashed at. A
  collision is two different byte strings hashed at one place with one digest.
\<close>

datatype hash_place = AtSource | AtMember | AtShared | AtConfig | AtFold

definition shared_input :: "string list \<Rightarrow> string" where
  "shared_input member_bytes = utf8 (concat (sort (map sha256_hex member_bytes)))"

definition fold_input :: "string \<Rightarrow> string list \<Rightarrow> string \<Rightarrow> string" where
  "fold_input script_bytes member_bytes config_text =
     utf8 (source_hash script_bytes @ ''|'' @ shared_code_hash member_bytes @ ''|'' @ sha256_hex (utf8 config_text))"

definition hashed_at :: "string \<Rightarrow> string list \<Rightarrow> string \<Rightarrow> (hash_place \<times> string) list" where
  "hashed_at script_bytes member_bytes config_text =
     [(AtSource, script_bytes), (AtShared, shared_input member_bytes), (AtConfig, utf8 config_text),
      (AtFold, fold_input script_bytes member_bytes config_text)] @ map (Pair AtMember) member_bytes"

definition collision :: "(hash_place \<times> string) list \<Rightarrow> (hash_place \<times> string) list \<Rightarrow> bool" where
  "collision xs ys \<longleftrightarrow> (\<exists>(p, x)\<in>set xs. \<exists>(q, y)\<in>set ys. p = q \<and> x \<noteq> y \<and> sha256_hex x = sha256_hex y)"

lemma collisionI:
  "(p, x) \<in> set xs \<Longrightarrow> (p, y) \<in> set ys \<Longrightarrow> sha256_hex x = sha256_hex y \<Longrightarrow> x = y \<or> collision xs ys"
  unfolding collision_def by blast

lemma content_fold_cancel:
  assumes "length c = 64" "length c' = 64" "length s = 64" "length s' = 64"
    and "s @ ''|'' @ h @ ''|'' @ c = s' @ ''|'' @ h' @ ''|'' @ c'"
  shows "s = s' \<and> h = h' \<and> c = c'"
proof -
  have l: "length s = length s'" "length (h @ ''|'') = length (h' @ ''|'') \<or> length c = length c'"
    using assms(1-4) by simp_all
  have "s = s' \<and> ''|'' @ h @ ''|'' @ c = ''|'' @ h' @ ''|'' @ c'"
    using assms(5) append_eq_append_conv [OF disjI1, OF l(1)] by blast
  then have "s = s'" and "(h @ ''|'') @ c = (h' @ ''|'') @ c'" by simp_all
  from this(2) have "h @ ''|'' = h' @ ''|''" "c = c'"
    using append_eq_append_conv [OF l(2)] by blast+
  with \<open>s = s'\<close> show ?thesis by simp
qed

lemma shared_code_hash_cases:
  "shared_code_hash ms = (if ms = [] then [] else sha256_hex (shared_input ms))"
  by (cases ms) (simp_all add: shared_code_hash_def shared_input_def Let_def flip: length_0_conv)

lemma shared_code_hash_order: "mset a = mset b \<Longrightarrow> shared_code_hash a = shared_code_hash b"
proof -
  assume "mset a = mset b"
  then have "sort (map sha256_hex a) = sort (map sha256_hex b)"
    by (intro properties_for_sort) simp_all
  then show ?thesis by (simp add: shared_code_hash_def Let_def)
qed

lemma shared_digests_inject:
  assumes "shared_code_hash a = shared_code_hash b"
  shows "mset (map sha256_hex a) = mset (map sha256_hex b)
    \<or> sha256_hex (shared_input a) = sha256_hex (shared_input b) \<and> shared_input a \<noteq> shared_input b"
proof (cases "a = [] \<or> b = []")
  case True
  then show ?thesis using assms sha256_hex_not_Nil [symmetric] by (auto simp: shared_code_hash_cases split: if_splits)
next
  case False
  then have eq: "sha256_hex (shared_input a) = sha256_hex (shared_input b)"
    using assms by (simp add: shared_code_hash_cases)
  show ?thesis
  proof (cases "shared_input a = shared_input b")
    case True
    then have "concat (sort (map sha256_hex a)) = concat (sort (map sha256_hex b))"
      by (simp add: shared_input_def utf8_inject)
    then have "sort (map sha256_hex a) = sort (map sha256_hex b)"
      by (rule concat_same_length [where n = 64]) auto
    then show ?thesis by (metis mset_sort)
  qed (use eq in simp)
qed

text \<open>Equal content hashes: equal script, equal files of the closure, equal canonical text.\<close>

lemma members_inject:
  assumes "mset (map sha256_hex a) = mset (map sha256_hex b)"
    and "\<And>x y. x \<in> set a \<Longrightarrow> y \<in> set b \<Longrightarrow> sha256_hex x = sha256_hex y \<Longrightarrow> x = y"
  shows "mset a = mset b"
proof -
  have img: "sha256_hex ` set a = sha256_hex ` set b"
    using assms(1) by (metis set_map set_mset_mset)
  have sub: "set a \<subseteq> set b"
  proof
    fix x assume x: "x \<in> set a"
    then have "sha256_hex x \<in> sha256_hex ` set b" unfolding img [symmetric] by blast
    then show "x \<in> set b" using assms(2) [OF x] by blast
  qed
  show ?thesis
  proof (rule multiset.inj_map_strong)
    show "image_mset sha256_hex (mset a) = image_mset sha256_hex (mset b)" using assms(1) by simp
  qed (use sub assms(2) in auto)
qed

lemma content_hash_inject:
  assumes a: "canonical_json ea = Inr ta" and b: "canonical_json eb = Inr tb"
    and eq: "content_hash_fold (source_hash sa) (shared_code_hash ma) (sha256_hex (utf8 ta))
      = content_hash_fold (source_hash sb) (shared_code_hash mb) (sha256_hex (utf8 tb))"
  shows "(sa = sb \<and> mset ma = mset mb \<and> ta = tb) \<or> collision (hashed_at sa ma ta) (hashed_at sb mb tb)"
proof (rule disjCI)
  let ?H = "hashed_at sa ma ta" and ?K = "hashed_at sb mb tb"
  assume nc: "\<not> collision ?H ?K"
  have same: "x = y" if "(p, x) \<in> set ?H" "(p, y) \<in> set ?K" "sha256_hex x = sha256_hex y" for p x y
    using collisionI [OF that] nc by blast
  have "fold_input sa ma ta = fold_input sb mb tb"
    by (rule same [of AtFold]) (use eq in \<open>simp_all add: hashed_at_def content_hash_fold_def fold_input_def\<close>)
  then have "source_hash sa @ ''|'' @ shared_code_hash ma @ ''|'' @ sha256_hex (utf8 ta)
    = source_hash sb @ ''|'' @ shared_code_hash mb @ ''|'' @ sha256_hex (utf8 tb)"
    by (simp only: fold_input_def utf8_inject)
  then have parts: "source_hash sa = source_hash sb" "shared_code_hash ma = shared_code_hash mb"
    "sha256_hex (utf8 ta) = sha256_hex (utf8 tb)"
    using content_fold_cancel [of "sha256_hex (utf8 ta)" "sha256_hex (utf8 tb)" "source_hash sa" "source_hash sb"]
    by (simp_all only: source_hash_def sha256_hex_length)
  have "sa = sb"
    by (rule same [of AtSource]) (use parts in \<open>simp_all add: hashed_at_def source_hash_def\<close>)
  moreover have "utf8 ta = utf8 tb"
    by (rule same [of AtConfig]) (use parts in \<open>simp_all add: hashed_at_def\<close>)
  moreover have "mset ma = mset mb"
  proof (rule members_inject)
    have "shared_input ma = shared_input mb" if "sha256_hex (shared_input ma) = sha256_hex (shared_input mb)"
      by (rule same [of AtShared]) (use that in \<open>simp_all add: hashed_at_def\<close>)
    then show "mset (map sha256_hex ma) = mset (map sha256_hex mb)"
      using shared_digests_inject [OF parts(2)] by blast
  qed (rule same [of AtMember], auto simp: hashed_at_def)
  ultimately show "sa = sb \<and> mset ma = mset mb \<and> ta = tb" by (simp add: utf8_inject)
qed

section \<open>The canonical entry of a node\<close>

lemma dropped_fields_out:
  "f \<in> set dropped_fields \<Longrightarrow> canonical_entry (a @ (PStr f, v) # b) = canonical_entry (a @ b)"
  by (simp add: canonical_entry_def)

definition norm_reads :: "(string \<times> string) list \<Rightarrow> pydict" where
  "norm_reads rs = map (\<lambda>(k, s). (PStr k, PStr (normalize_ws s))) rs"

text \<open>The entry with the reads normalised: none of its keys is dropped.\<close>

lemma canonical_node_entry:
  "canonical_entry (node_entry n) =
     map (\<lambda>(k, v). (k, if k = PStr ''reads'' then PDict (norm_reads (node_reads n)) else v)) (node_entry n)"
proof -
  have keep: "\<forall>(k, v)\<in>set (node_entry n). k \<notin> PStr ` set dropped_fields"
    by (auto simp: node_entry_def dropped_fields_def content_hash_field_def hash_part_fields_def non_hashed_fields_def)
  have reads: "normalize_reads v = PDict (norm_reads (node_reads n))" if "(PStr ''reads'', v) \<in> set (node_entry n)" for v
    using that by (auto simp: node_entry_def normalize_reads_def normalize_read_def norm_reads_def split: if_splits)
  have "filter (\<lambda>(k, v). k \<notin> PStr ` set dropped_fields) (node_entry n) = node_entry n"
    using keep by (intro filter_True) auto
  then show ?thesis using reads by (auto simp: canonical_entry_def)
qed

lemma canonical_node_distinct: "distinct (map fst (canonical_entry (node_entry n)))"
proof -
  have "map fst (canonical_entry (node_entry n)) = map fst (node_entry n)"
    by (simp only: canonical_node_entry) (simp add: case_prod_unfold)
  also have "distinct (map fst (node_entry n))" by (simp add: node_entry_def)
  finally show ?thesis .
qed

lemma canonical_node_get:
  "dict_get (canonical_entry (node_entry n)) ''schema'' = Some (PStr (node_schema n))"
  "dict_get (canonical_entry (node_entry n)) ''table'' = Some (PStr (node_table n))"
  "dict_get (canonical_entry (node_entry n)) ''owner'' = Some (PStr (node_owner n))"
  "dict_get (canonical_entry (node_entry n)) ''schedule'' = Some (PStr (node_schedule n))"
  "dict_get (canonical_entry (node_entry n)) ''criticality'' = Some (PStr (node_criticality n))"
  "dict_get (canonical_entry (node_entry n)) ''kind'' = Some (PStr (node_kind n))"
  "dict_get (canonical_entry (node_entry n)) ''script'' = Some (PStr (node_script n))"
  "dict_get (canonical_entry (node_entry n)) ''reads'' = Some (PDict (norm_reads (node_reads n)))"
  "dict_get (canonical_entry (node_entry n)) ''output_columns'' = Some (PList (map column_entry (node_output_columns n)))"
  "dict_get (canonical_entry (node_entry n)) ''description'' = Some (PStr (node_description n))"
  "dict_get (canonical_entry (node_entry n)) ''extra_columns'' = Some (PStr (node_extra_columns n))"
  "dict_get (canonical_entry (node_entry n)) ''config'' = Some (PDict (node_config n))"
  "dict_get (canonical_entry (node_entry n)) ''secret_ref'' =
     (if node_secret_ref n \<noteq> [] then Some (PStr (node_secret_ref n)) else None)"
  "dict_get (canonical_entry (node_entry n)) ''mode_type'' =
     (if node_mode_type n \<noteq> default_mode_type then Some (PStr (node_mode_type n)) else None)"
  "dict_get (canonical_entry (node_entry n)) ''primary_key'' =
     (if node_mode_type n = ''upsert'' then Some (PList (map PStr (node_primary_key n))) else None)"
  by (simp_all only: canonical_node_entry)
    (simp_all add: node_entry_def dict_get_def default_mode_type_def)

text \<open>What two nodes with one canonical text have in common: every field but the timeout and the
  hash, the reads up to blanks, the config as the JSON object it is.\<close>

definition same_code :: "node \<Rightarrow> node \<Rightarrow> bool" where
  "same_code a b \<longleftrightarrow>
     node_schema a = node_schema b \<and> node_table a = node_table b \<and> node_owner a = node_owner b
     \<and> node_schedule a = node_schedule b \<and> node_criticality a = node_criticality b
     \<and> node_kind a = node_kind b \<and> node_script a = node_script b
     \<and> (\<forall>k. map_option words (map_of (node_reads a) k) = map_option words (map_of (node_reads b) k))
     \<and> node_output_columns a = node_output_columns b \<and> node_description a = node_description b
     \<and> node_extra_columns a = node_extra_columns b \<and> json_eq (PDict (node_config a)) (PDict (node_config b))
     \<and> node_secret_ref a = node_secret_ref b \<and> node_mode_type a = node_mode_type b
     \<and> node_primary_key a = node_primary_key b"

lemma json_eq_strs [simp]: "json_eq (PList (map PStr xs)) (PList (map PStr ys)) \<longleftrightarrow> xs = ys"
  by (simp add: json_eq_list list.rel_map list.rel_eq)

lemma json_eq_column: "json_eq (column_entry c) (column_entry d) \<longleftrightarrow> c = d"
proof
  assume "json_eq (column_entry c) (column_entry d)"
  then have "rel_option json_eq (dict_get [(PStr ''name'', PStr (col_name c)), (PStr ''type'', PStr (col_type c)),
       (PStr ''nullable'', PBool (col_nullable c))] k)
     (dict_get [(PStr ''name'', PStr (col_name d)), (PStr ''type'', PStr (col_type d)),
       (PStr ''nullable'', PBool (col_nullable d))] k)" for k
    unfolding column_entry_def by (rule json_eq_dict) simp_all
  from this [of "''name''"] this [of "''type''"] this [of "''nullable''"]
  show "c = d" by (simp add: dict_get_def)
next
  assume "c = d"
  moreover have "\<exists>j. to_json (column_entry d) = Inr j"
    unfolding column_entry_def by (rule to_json_total) simp
  ultimately show "json_eq (column_entry c) (column_entry d)" by (auto simp: json_eq_def)
qed

lemma norm_reads_get: "dict_get (norm_reads rs) k = map_option (\<lambda>s. PStr (normalize_ws s)) (map_of rs k)"
  by (induction rs) (auto simp: norm_reads_def dict_get_def)

lemma norm_reads_distinct: "distinct (map fst rs) \<Longrightarrow> distinct (map fst (norm_reads rs))"
proof -
  have "map fst (norm_reads rs) = map PStr (map fst rs)" by (simp add: norm_reads_def case_prod_unfold)
  then show "distinct (map fst rs) \<Longrightarrow> distinct (map fst (norm_reads rs))"
    by (simp add: distinct_map inj_on_def del: map_map)
qed

lemma canonical_json_inject:
  assumes "canonical_json (node_entry a) = Inr t" "canonical_json (node_entry b) = Inr t"
    and "node_ok a" "node_ok b"
    and floats: "float_texts (PDict (node_config a))" "float_texts (PDict (node_config b))"
    and reads: "distinct (map fst (node_reads a))" "distinct (map fst (node_reads b))"
  shows "same_code a b"
proof -
  let ?e = "\<lambda>n. canonical_entry (node_entry n)"
  obtain j j' where j: "to_json (PDict (?e a)) = Inr j" "to_json (PDict (?e b)) = Inr j'" "dumps j = dumps j'"
    using assms(1,2) by (auto simp: canonical_json_def res_simps)
  have ft: "float_texts (PDict (?e n))" if "float_texts (PDict (node_config n))" for n
    using that by (simp only: canonical_node_entry float_texts.simps)
      (auto simp: node_entry_def norm_reads_def column_entry_def split: if_splits)
  have "j = j'"
    using dumps_inject [OF to_json_wf [OF ft j(1)] to_json_wf [OF ft j(2)] j(3)] floats by blast
  then have "json_eq (PDict (?e a)) (PDict (?e b))" using j by (simp add: json_eq_def)
  then have get: "rel_option json_eq (dict_get (?e a) k) (dict_get (?e b) k)" for k
    by (rule json_eq_dict [OF _ canonical_node_distinct canonical_node_distinct])
  note g = get [of "''schema''"] get [of "''table''"] get [of "''owner''"] get [of "''schedule''"]
    get [of "''criticality''"] get [of "''kind''"] get [of "''script''"] get [of "''description''"]
    get [of "''extra_columns''"] get [of "''config''"]
  have mode: "node_mode_type a = node_mode_type b"
    using get [of "''mode_type''"] by (auto simp: canonical_node_get split: if_splits)
  have "node_primary_key n = []" if "node_ok n" "node_mode_type n \<noteq> ''upsert''" for n
    using that by (simp add: node_ok_def key_ok_def)
  then have key: "node_primary_key a = node_primary_key b"
    using get [of "''primary_key''"] mode assms(3,4) by (auto simp: canonical_node_get split: if_splits)
  have secret: "node_secret_ref a = node_secret_ref b"
    using get [of "''secret_ref''"] by (auto simp: canonical_node_get split: if_splits)
  have "list_all2 (\<lambda>c d. c = d) (node_output_columns a) (node_output_columns b)"
    using get [of "''output_columns''"] by (simp add: canonical_node_get json_eq_list list.rel_map json_eq_column)
  then have cols: "node_output_columns a = node_output_columns b" by (simp add: list.rel_eq)
  have "json_eq (PDict (norm_reads (node_reads a))) (PDict (norm_reads (node_reads b)))"
    using get [of "''reads''"] by (simp add: canonical_node_get)
  then have r: "rel_option json_eq (dict_get (norm_reads (node_reads a)) k) (dict_get (norm_reads (node_reads b)) k)" for k
    by (rule json_eq_dict) (use reads norm_reads_distinct in auto)
  have "map_option words (map_of (node_reads a) k) = map_option words (map_of (node_reads b) k)" for k
    using r [of k] by (cases "map_of (node_reads a) k"; cases "map_of (node_reads b) k")
      (simp_all add: norm_reads_get normalize_ws_eq_iff)
  with g mode key secret cols show ?thesis by (simp add: same_code_def canonical_node_get)
qed

text \<open>The canonical text exists for every loaded node, and blanks inside a read do not reach it.\<close>

lemma canonical_entry_json:
  assumes "node_ok n"
  shows "json_value (PDict (canonical_entry (node_entry n)))"
proof -
  have "json_value (PDict (node_config n))" using assms by (simp add: node_ok_def)
  then show ?thesis
    by (simp only: canonical_node_entry json_value.simps)
      (auto simp: node_entry_def norm_reads_def column_entry_def split: if_splits)
qed

lemma config_hash_total: "node_ok n \<Longrightarrow> \<exists>h. config_hash (node_entry n) = Inr h \<and> length h = 64"
  using to_json_total [OF canonical_entry_json] by (fastforce simp: config_hash_def canonical_json_def res_simps)

lemma canonical_entry_reads:
  assumes "list_all2 (\<lambda>(k, s) (k', s'). k = k' \<and> words s = words s') (node_reads n) rs"
  shows "canonical_entry (node_entry (n\<lparr>node_reads := rs\<rparr>)) = canonical_entry (node_entry n)"
proof -
  have "norm_reads (node_reads n) = norm_reads rs"
    using assms by (induction rule: list_all2_induct) (auto simp: norm_reads_def normalize_ws_def)
  then show ?thesis
    by (simp only: canonical_node_entry) (simp add: node_entry_def)
qed

end
