(* ===== verification/UniqueKey.thy ===== *)
theory UniqueKey
  imports SqlTypes
begin

text \<open>
  Arrow tables, as far as the source looks into them, and the primary-key invariant of an upsert
  (\<^verbatim>\<open>contract/continuo_engine_contract/keys.py\<close>). A table is its columns in order, each with
  its name, its Arrow type and its values, a value being the Python object \<^verbatim>\<open>to_pylist\<close>
  gives for it (\<^verbatim>\<open>None\<close> for a null). The main lemma says that the check accepts exactly the
  tables in which no two rows agree on the key.
\<close>

section \<open>Tables\<close>

type_synonym arrow_column = "string \<times> arrow_type \<times> pyval list"

record arrow_table =
  table_cols :: "arrow_column list"
  num_rows :: nat

definition column_names :: "arrow_table \<Rightarrow> string list" where
  "column_names t = map fst (table_cols t)"

definition column_type :: "arrow_table \<Rightarrow> string \<Rightarrow> arrow_type option" where
  "column_type t n = map_option fst (map_of (table_cols t) n)"

definition column_values :: "arrow_table \<Rightarrow> string \<Rightarrow> pyval list" where
  "column_values t n = (case map_of (table_cols t) n of None \<Rightarrow> [] | Some (ty, vs) \<Rightarrow> vs)"

text \<open>Every column has a value for every row.\<close>

definition wf_table :: "arrow_table \<Rightarrow> bool" where
  "wf_table t \<longleftrightarrow> (\<forall>(n, ty, vs)\<in>set (table_cols t). length vs = num_rows t)"

text \<open>The value of row \<open>i\<close> in the columns \<open>key\<close>, and all rows.\<close>

definition row_key :: "arrow_table \<Rightarrow> string list \<Rightarrow> nat \<Rightarrow> pyval list" where
  "row_key t key i = map (\<lambda>n. column_values t n ! i) key"

definition key_rows :: "arrow_table \<Rightarrow> string list \<Rightarrow> pyval list list" where
  "key_rows t key = map (row_key t key) [0..<num_rows t]"

lemma column_values_length:
  "wf_table t \<Longrightarrow> n \<in> set (column_names t) \<Longrightarrow> length (column_values t n) = num_rows t"
  by (auto simp: wf_table_def column_values_def column_names_def split: option.splits dest: map_of_SomeD)
    (metis image_eqI fst_conv map_of_eq_None_iff)

section \<open>The primary-key check\<close>

definition shown_keys :: nat where "shown_keys = 5"

definition is_floating :: "arrow_type \<Rightarrow> bool" where
  "is_floating ty \<longleftrightarrow> ty \<in> {Float16, Float32, Float64}"

definition floating_key_columns :: "arrow_table \<Rightarrow> string list \<Rightarrow> string list" where
  "floating_key_columns t key =
     filter (\<lambda>n. case column_type t n of None \<Rightarrow> False | Some ty \<Rightarrow> is_floating ty) key"

text \<open>
  \<^verbatim>\<open>group_by(key).aggregate([([], "count_all")])\<close>: one entry per distinct key with the number
  of its rows, in the order of the first row of each.
\<close>

definition group_counts :: "pyval list list \<Rightarrow> (pyval list \<times> nat) list" where
  "group_counts rows = map (\<lambda>k. (k, count_list rows k)) (rev (remdups (rev rows)))"

fun py_str :: "pyval \<Rightarrow> string" where
  "py_str (PStr s) = s"
| "py_str v = repr v"

definition shown_key :: "pyval list \<times> nat \<Rightarrow> string" where
  "shown_key kc = ''('' @ join '', '' (map py_str (fst kc)) @ '') appears '' @ nat_str (snd kc) @ '' times''"

definition duplicate_message :: "string list \<Rightarrow> (pyval list \<times> nat) list \<Rightarrow> string" where
  "duplicate_message key repeated =
     ''primary key ('' @ join '', '' key @ '') is not unique in the rows to write: ''
       @ join ''; '' (map shown_key (take shown_keys repeated))
       @ (if length repeated > shown_keys
          then ''; and '' @ nat_str (length repeated - shown_keys) @ '' more repeated key(s)'' else [])
       @ ''; nothing was written''"

definition ensure_unique_key :: "arrow_table \<Rightarrow> string list \<Rightarrow> unit res" where
  "ensure_unique_key data key =
     (if key = [] then raise_value ''primary_key must name at least one column''
      else let missing = filter (\<lambda>n. n \<notin> set (column_names data)) key in
      if missing \<noteq> [] then
        raise_value (''primary key column(s) '' @ repr_strs missing @ '' are not in the data's columns ''
          @ repr_strs (column_names data))
      else let floating = floating_key_columns data key in
      if floating \<noteq> [] then
        raise_value (''primary key column(s) '' @ repr_strs floating @ '' are floating-point; floating-point ''
          @ ''columns cannot be a primary key because the warehouse treats values like ''
          @ ''0.0 and -0.0 as equal while this check would see them as distinct'')
      else if num_rows data < 2 then Inr ()
      else let counts = group_counts (key_rows data key) in
      if length counts = num_rows data then Inr ()
      else Inl (Exn DuplicateKeyError
        (duplicate_message key (filter (\<lambda>(k, n). n > 1) counts))))"

definition key_columns_ok :: "arrow_table \<Rightarrow> string list \<Rightarrow> bool" where
  "key_columns_ok t key \<longleftrightarrow> key \<noteq> [] \<and> set key \<subseteq> set (column_names t) \<and> floating_key_columns t key = []"

lemma length_key_rows [simp]: "length (key_rows t key) = num_rows t"
  by (simp add: key_rows_def)

lemma length_group_counts: "length (group_counts rows) = card (set rows)"
  by (simp add: group_counts_def length_remdups_card_conv)

lemma group_counts_all: "length (group_counts rows) = length rows \<longleftrightarrow> distinct rows"
  unfolding length_group_counts by (metis card_distinct distinct_card)

lemma short_distinct: "length rows < 2 \<Longrightarrow> distinct rows"
  by (cases rows; cases "tl rows") auto

lemma ensure_unique_key_valid:
  assumes "key_columns_ok t key"
  shows "ensure_unique_key t key =
    (if distinct (key_rows t key) then Inr ()
     else Inl (Exn DuplicateKeyError (duplicate_message key
       (filter (\<lambda>(k, n). n > 1) (group_counts (key_rows t key))))))"
proof -
  have "filter (\<lambda>n. n \<notin> set (column_names t)) key = []"
    using assms by (auto simp: key_columns_ok_def filter_empty_conv)
  then show ?thesis
    using assms group_counts_all [of "key_rows t key"] short_distinct [of "key_rows t key"]
    by (auto simp: ensure_unique_key_def key_columns_ok_def Let_def)
qed

lemma ensure_unique_key_invalid:
  "\<not> key_columns_ok t key \<Longrightarrow> \<exists>m. ensure_unique_key t key = raise_value m"
  by (auto simp: ensure_unique_key_def key_columns_ok_def Let_def filter_empty_conv)

lemma ensure_unique_key_eq_Inr:
  "ensure_unique_key t key = Inr u \<longleftrightarrow> key_columns_ok t key \<and> distinct (key_rows t key)"
proof (cases "key_columns_ok t key")
  case False
  then obtain m where "ensure_unique_key t key = raise_value m" using ensure_unique_key_invalid by blast
  with False show ?thesis by simp
qed (simp add: ensure_unique_key_valid)

lemma distinct_key_rows:
  "distinct (key_rows t key) \<longleftrightarrow>
     (\<forall>i j. i < j \<longrightarrow> j < num_rows t \<longrightarrow> row_key t key i \<noteq> row_key t key j)"
proof -
  have "distinct (key_rows t key) \<longleftrightarrow>
      (\<forall>i<num_rows t. \<forall>j<num_rows t. i \<noteq> j \<longrightarrow> row_key t key i \<noteq> row_key t key j)"
    by (simp add: key_rows_def distinct_conv_nth)
  also have "\<dots> \<longleftrightarrow> (\<forall>i j. i < j \<longrightarrow> j < num_rows t \<longrightarrow> row_key t key i \<noteq> row_key t key j)"
    (is "?all \<longleftrightarrow> ?less")
  proof
    assume ?less
    show ?all
    proof (intro allI impI)
      fix i j
      assume "i < num_rows t" "j < num_rows t" "i \<noteq> j"
      then consider "i < j" | "j < i" by linarith
      then show "row_key t key i \<noteq> row_key t key j"
        using \<open>?less\<close> \<open>i < _\<close> \<open>j < num_rows t\<close> by cases (blast, metis)
    qed
  qed auto
  finally show ?thesis .
qed

text \<open>The keys the message counts are exactly the repeated ones.\<close>

lemma repeated_keys:
  "(k, n) \<in> set (filter (\<lambda>(k, n). n > 1) (group_counts rows)) \<longleftrightarrow> n = count_list rows k \<and> n > 1"
proof -
  have "count_list rows k > 1 \<Longrightarrow> k \<in> set rows"
    using count_notin [of k rows] by fastforce
  then show ?thesis by (auto simp: group_counts_def)
qed

end
