(* ===== verification/Conform.thy ===== *)
theory Conform
  imports Hashing UniqueKey
begin

text \<open>
  The two guards in front of a write: the shape of the live table
  (\<^verbatim>\<open>continuo_python_runtime/shape.py\<close>) and the shape of the rows
  (\<^verbatim>\<open>continuo_python_runtime/conform.py\<close>). The cast of an Arrow table to a schema is pyarrow's
  and a parameter; \<open>cast_ok\<close> states what it promises.
\<close>

section \<open>The shape of the live table\<close>

record live_column =
  live_name :: string
  live_nullable :: bool

record nullability_diff =
  nd_name :: string
  nd_declared :: bool
  nd_live :: bool

record shape_diff =
  sd_missing :: "string list"
  sd_unexpected :: "string list"
  sd_nullability :: "nullability_diff list"

definition shape_differs :: "shape_diff \<Rightarrow> bool" where
  "shape_differs d \<longleftrightarrow> sd_missing d \<noteq> [] \<or> sd_unexpected d \<noteq> [] \<or> sd_nullability d \<noteq> []"

definition yaml_bool :: "bool \<Rightarrow> string" where
  "yaml_bool b = (if b then ''true'' else ''false'')"

definition shape_message :: "shape_diff \<Rightarrow> string \<Rightarrow> string" where
  "shape_message d target = (let parts =
       (if sd_missing d \<noteq> [] then [''missing column(s) '' @ repr_strs (sd_missing d)] else [])
       @ (if sd_unexpected d \<noteq> [] then [''unexpected column(s) '' @ repr_strs (sd_unexpected d)] else [])
       @ map (\<lambda>n. ''column '' @ nd_name n @ '' is nullable: '' @ yaml_bool (nd_live n) @ '' in the table ''
           @ ''but nullable: '' @ yaml_bool (nd_declared n) @ '' in the contract'') (sd_nullability d)
     in ''table '' @ target @ '' does not match the contract's output_columns: '' @ join ''; '' parts
       @ ''. An append or upsert table keeps its rows, so its shape cannot change: ''
       @ ''write to a new table (a _v2 name) under a new contract'')"

text \<open>The live column a declared one is paired with: the same name first, then the same case-folded.\<close>

definition pair_live :: "live_column list \<Rightarrow> string \<Rightarrow> live_column option" where
  "pair_live remaining name = (case find (\<lambda>c. live_name c = name) remaining of
     Some c \<Rightarrow> Some c
   | None \<Rightarrow> find (\<lambda>c. casefold (live_name c) = casefold name) remaining)"

fun shape_loop :: "column list \<Rightarrow> live_column list \<Rightarrow> shape_diff" where
  "shape_loop [] remaining = \<lparr>sd_missing = [], sd_unexpected = map live_name remaining, sd_nullability = []\<rparr>"
| "shape_loop (c # cs) remaining = (case pair_live remaining (col_name c) of
     None \<Rightarrow> (let d = shape_loop cs remaining in d\<lparr>sd_missing := col_name c # sd_missing d\<rparr>)
   | Some l \<Rightarrow> (let d = shape_loop cs (remove1 l remaining) in
       if live_nullable l \<noteq> col_nullable c then
         d\<lparr>sd_nullability := \<lparr>nd_name = col_name c, nd_declared = col_nullable c, nd_live = live_nullable l\<rparr> # sd_nullability d\<rparr>
       else d))"

definition shape_diff_of :: "column list \<Rightarrow> live_column list \<Rightarrow> shape_diff" where
  "shape_diff_of contract_columns live_columns = shape_loop contract_columns live_columns"

text \<open>
  No difference means a pairing of the two: as many live columns as declared ones, each with the
  name of its partner up to case and with its nullability.
\<close>

definition same_shape :: "column \<Rightarrow> live_column \<Rightarrow> bool" where
  "same_shape c l \<longleftrightarrow> casefold (live_name l) = casefold (col_name c) \<and> live_nullable l = col_nullable c"

lemma pair_live_Some:
  "pair_live remaining n = Some l \<Longrightarrow> l \<in> set remaining \<and> casefold (live_name l) = casefold n"
  by (auto simp: pair_live_def split: option.splits dest: find_Some_in_set)

lemma pair_live_None:
  "pair_live remaining n = None \<Longrightarrow> l \<in> set remaining \<Longrightarrow> casefold (live_name l) \<noteq> casefold n"
  by (auto simp: pair_live_def split: option.splits dest: find_None_set)

lemma shape_loop_same:
  "\<not> shape_differs (shape_loop cs remaining) \<Longrightarrow>
     \<exists>partners. mset partners = mset remaining \<and> list_all2 same_shape cs partners"
proof (induction cs arbitrary: remaining)
  case Nil
  then show ?case by (auto simp: shape_differs_def)
next
  case (Cons c cs)
  obtain l where l: "pair_live remaining (col_name c) = Some l"
  proof (cases "pair_live remaining (col_name c)")
    case None
    then show ?thesis using Cons.prems by (simp add: shape_differs_def Let_def)
  qed
  have same: "live_nullable l = col_nullable c"
    using Cons.prems by (rule contrapos_np) (simp add: l shape_differs_def Let_def)
  then have rest: "\<not> shape_differs (shape_loop cs (remove1 l remaining))"
    using Cons.prems by (simp add: l shape_differs_def Let_def)
  from Cons.IH [OF rest] obtain ps where ps: "mset ps = mset (remove1 l remaining)" "list_all2 same_shape cs ps"
    by blast
  have "mset (l # ps) = mset remaining"
    by (simp only: mset.simps ps(1) mset_remove1_split [OF conjunct1 [OF pair_live_Some [OF l]]])
  moreover have "list_all2 same_shape (c # cs) (l # ps)"
    using ps(2) same pair_live_Some [OF l] by (simp add: same_shape_def)
  ultimately show ?case by blast
qed

text \<open>The other direction, for a contract without two names that differ only in case.\<close>

lemma shape_loop_complete:
  assumes "list_all2 same_shape cs partners" "mset partners = mset remaining"
    and "distinct (map (casefold \<circ> col_name) cs)"
  shows "\<not> shape_differs (shape_loop cs remaining)"
  using assms
proof (induction cs arbitrary: partners remaining)
  case Nil
  then show ?case by (simp add: shape_differs_def)
next
  case (Cons c cs)
  obtain p ps where p: "partners = p # ps" "same_shape c p" "list_all2 same_shape cs ps"
    using Cons.prems(1) by (auto simp: list_all2_Cons1)
  have "p \<in> set remaining" using Cons.prems(2) p(1) by (metis list.set_intros(1) set_mset_mset)
  then obtain l where l: "pair_live remaining (col_name c) = Some l"
    using pair_live_None [of remaining "col_name c" p] p(2) by (cases "pair_live remaining (col_name c)") (auto simp: same_shape_def)
  have "l = p"
  proof (rule ccontr)
    assume "l \<noteq> p"
    then have "l \<in> set ps" using pair_live_Some [OF l] Cons.prems(2) p(1)
      by (metis set_ConsD set_mset_mset)
    then obtain d where "d \<in> set cs" "same_shape d l"
      using list_all2_member2 [OF p(3)] by blast
    then have "casefold (col_name d) = casefold (col_name c)" using pair_live_Some [OF l] by (simp add: same_shape_def)
    with \<open>d \<in> set cs\<close> Cons.prems(3) show False by (auto simp: image_iff)
  qed
  have "mset ps = mset (remove1 l remaining)"
    using Cons.prems(2) p(1) \<open>l = p\<close> by (simp flip: Cons.prems(2))
  then have "\<not> shape_differs (shape_loop cs (remove1 l remaining))"
    using Cons.IH [OF p(3)] Cons.prems(3) by simp
  then show ?case using p(2) \<open>l = p\<close> by (simp add: l Let_def same_shape_def)
qed

section \<open>What a script returned\<close>

text \<open>
  The values \<open>to_arrow\<close> tells apart: an Arrow table, a pandas data frame, another object with the
  Arrow C stream, anything else by its class name. What pyarrow makes of a frame or a stream is
  part of the value.
\<close>

datatype run_value =
    TableValue arrow_table
  | FrameValue "arrow_table res" "arrow_table res option"
  | StreamValue "arrow_table res"
  | OtherValue string

definition not_arrow :: "string \<Rightarrow> arrow_table res" where
  "not_arrow t = Inl (Exn (Harness ScriptError) (''run() returned '' @ t @ ''; expected an Arrow-convertible value''))"

definition to_arrow :: "bool \<Rightarrow> run_value \<Rightarrow> arrow_table res" where
  "to_arrow pandas_importable v = (case v of
     TableValue t \<Rightarrow> Inr t
   | FrameValue from_pandas stream \<Rightarrow>
       if pandas_importable then from_pandas
       else (case stream of Some t \<Rightarrow> t | None \<Rightarrow> not_arrow ''DataFrame'')
   | StreamValue t \<Rightarrow> t
   | OtherValue name \<Rightarrow> not_arrow name)"

section \<open>Conforming the rows\<close>

text \<open>A schema: one field per column with its name, type and nullability.\<close>

type_synonym field = "string \<times> arrow_type \<times> bool"
type_synonym caster = "field list \<Rightarrow> arrow_table \<Rightarrow> arrow_table res"

fun arrow_text :: "arrow_type \<Rightarrow> string" where
  "arrow_text Int64 = ''int64''"
| "arrow_text Int32 = ''int32''"
| "arrow_text Float16 = ''halffloat''"
| "arrow_text Float32 = ''float''"
| "arrow_text Float64 = ''double''"
| "arrow_text (Decimal128 p s) = ''decimal128('' @ nat_str p @ '', '' @ nat_str s @ '')''"
| "arrow_text Utf8 = ''string''"
| "arrow_text (TimestampArrow u) = ''timestamp['' @ u @ '']''"
| "arrow_text Date32 = ''date32[day]''"
| "arrow_text BoolArrow = ''bool''"
| "arrow_text (ArrowOther n) = n"

fun lossy_reason :: "arrow_type \<Rightarrow> arrow_type \<Rightarrow> string option" where
  "lossy_reason source (Decimal128 p s) = (if is_floating source
     then Some (''floating-point column to a decimal type is not lossless ''
       @ ''(pyarrow silently rounds to the target scale) -- source must ''
       @ ''be an integer, decimal, or string column'') else None)"
| "lossy_reason source BoolArrow = (if source \<noteq> BoolArrow
     then Some (''non-boolean column to BOOLEAN is not lossless (pyarrow ''
       @ ''coerces truthiness instead of requiring an actual boolean value)'') else None)"
| "lossy_reason source Date32 = (case source of
     TimestampArrow u \<Rightarrow> Some (''TIMESTAMP column to DATE is not lossless (pyarrow silently ''
       @ ''truncates the time-of-day component)'') | _ \<Rightarrow> None)"
| "lossy_reason source _ = None"

definition reject_lossy_cast :: "string \<Rightarrow> arrow_type \<Rightarrow> arrow_type \<Rightarrow> unit res" where
  "reject_lossy_cast name source target = (case lossy_reason source target of
     None \<Rightarrow> Inr ()
   | Some why \<Rightarrow> raise_conform (''column '' @ name @ '': cannot cast '' @ arrow_text source @ '' to ''
       @ arrow_text target @ ''; casting a '' @ why))"

definition duplicate_names :: "arrow_table \<Rightarrow> string list" where
  "duplicate_names t = sort (remdups (filter (\<lambda>n. count_list (column_names t) n > 1) (column_names t)))"

definition select_columns :: "arrow_table \<Rightarrow> string list \<Rightarrow> arrow_table" where
  "select_columns t names = t\<lparr>table_cols := map (\<lambda>n. (n, the (map_of (table_cols t) n))) names\<rparr>"

definition column_field :: "bool \<Rightarrow> column \<Rightarrow> field res" where
  "column_field nullable c = bind_res (parse_sql_type (col_type c)) (\<lambda>s.
     bind_res (arrow_type_of s) (\<lambda>a. Inr (col_name c, a, nullable)))"

definition check_lossy :: "arrow_table \<Rightarrow> field \<Rightarrow> unit res" where
  "check_lossy t f = (case f of (n, target, _) \<Rightarrow> reject_lossy_cast n (the (column_type t n)) target)"

definition cast_failure :: "exn \<Rightarrow> exn" where
  "cast_failure e = (if is_value_error e
      \<or> exn_kind e \<in> OtherError ` {''ArrowInvalid'', ''ArrowNotImplementedError'', ''ArrowTypeError''}
    then Exn (Harness ConformError) (''strict cast to declared schema failed: '' @ exn_text e) else e)"

text \<open>\<^verbatim>\<open>pc.max(pc.utf8_length(column))\<close>: nulls do not count.\<close>

fun text_lengths :: "pyval list \<Rightarrow> nat list" where
  "text_lengths [] = []"
| "text_lengths (v # vs) = (case v of PStr s \<Rightarrow> length s # text_lengths vs | _ \<Rightarrow> text_lengths vs)"

definition max_length :: "pyval list \<Rightarrow> nat option" where
  "max_length vs = (case text_lengths vs of [] \<Rightarrow> None | n # ns \<Rightarrow> Some (foldl max n ns))"

definition check_values :: "arrow_table \<Rightarrow> column \<Rightarrow> unit res" where
  "check_values t c =
     bind_res (require (col_nullable c \<or> PNone \<notin> set (column_values t (col_name c))) (Exn (Harness ConformError)
       (''column '' @ col_name c @ '' is declared nullable: false but contains nulls''))) (\<lambda>_.
     bind_res (parse_sql_type (col_type c)) (\<lambda>s.
     case (len s, max_length (column_values t (col_name c))) of
       (Some n, Some m) \<Rightarrow>
         if m > n then raise_conform (''column '' @ col_name c @ '': value length '' @ nat_str m
           @ '' exceeds '' @ base s @ ''('' @ nat_str n @ '')'')
         else Inr ()
     | _ \<Rightarrow> Inr ()))"

definition conform :: "caster \<Rightarrow> arrow_table \<Rightarrow> column list \<Rightarrow> string \<Rightarrow> arrow_table res" where
  "conform cast t columns extra_columns =
     bind_res (require (extra_columns \<in> {''raise'', ''warn''})
       (Exn ValueError (''extra_columns must be 'raise' or 'warn', got '' @ repr_str extra_columns))) (\<lambda>_.
     let declared = map col_name columns;
         extra = filter (\<lambda>n. n \<notin> set declared) (column_names t);
         missing = filter (\<lambda>n. n \<notin> set (column_names t)) declared in
     bind_res (require (duplicate_names t = []) (Exn (Harness ConformError)
       (''dataframe has duplicate column(s): '' @ repr_strs (duplicate_names t)))) (\<lambda>_.
     bind_res (require (extra = [] \<or> extra_columns \<noteq> ''raise'') (Exn (Harness ConformError)
       (''dataframe has undeclared column(s): '' @ repr_strs extra @ ''; declared: '' @ repr_strs declared))) (\<lambda>_.
     bind_res (require (missing = []) (Exn (Harness ConformError)
       (''dataframe is missing column(s): '' @ repr_strs missing))) (\<lambda>_.
     let selected = select_columns t declared in
     bind_res (traverse (column_field True) columns) (\<lambda>target.
     bind_res (each (check_lossy selected) target) (\<lambda>_.
     bind_res (map_exn cast_failure (cast target selected)) (\<lambda>casted.
     bind_res (each (check_values casted) columns) (\<lambda>_.
     bind_res (traverse (\<lambda>c. column_field (col_nullable c) c) columns) (\<lambda>declared_schema.
     cast declared_schema casted)))))))))"

section \<open>What pyarrow promises\<close>

text \<open>
  A cast that succeeds has the target's columns and types and as many rows as before; casting a
  table to the types it has changes nothing.
\<close>

definition field_types :: "field list \<Rightarrow> (string \<times> arrow_type) list" where
  "field_types fs = map (\<lambda>(n, a, _). (n, a)) fs"

definition table_types :: "arrow_table \<Rightarrow> (string \<times> arrow_type) list" where
  "table_types t = map (\<lambda>(n, a, _). (n, a)) (table_cols t)"

definition cast_ok :: "caster \<Rightarrow> bool" where
  "cast_ok cast \<longleftrightarrow>
     (\<forall>fs t t'. cast fs t = Inr t' \<longrightarrow> table_types t' = field_types fs \<and> num_rows t' = num_rows t)
     \<and> (\<forall>fs t. table_types t = field_types fs \<longrightarrow> cast fs t = Inr t)"

text \<open>What a conformed table is.\<close>

definition conformed :: "column list \<Rightarrow> arrow_table \<Rightarrow> bool" where
  "conformed columns t \<longleftrightarrow> column_names t = map col_name columns
     \<and> (\<forall>c\<in>set columns. \<exists>s a. parse_sql_type (col_type c) = Inr s \<and> arrow_type_of s = Inr a
          \<and> column_type t (col_name c) = Some a
          \<and> (\<not> col_nullable c \<longrightarrow> PNone \<notin> set (column_values t (col_name c)))
          \<and> (\<forall>n v. len s = Some n \<longrightarrow> PStr v \<in> set (column_values t (col_name c)) \<longrightarrow> length v \<le> n))"

lemma foldl_max: "n \<le> foldl max n ns \<and> (\<forall>m\<in>set ns. m \<le> foldl max n ns)"
  for n :: nat
proof (induction ns arbitrary: n)
  case (Cons k ns)
  have "max n k \<le> foldl max (max n k) ns" using Cons.IH by blast
  then show ?case using Cons.IH [of "max n k"] by simp
qed simp

lemma max_length_bound: "PStr s \<in> set vs \<Longrightarrow> \<exists>m. max_length vs = Some m \<and> length s \<le> m"
proof -
  assume "PStr s \<in> set vs"
  then have "length s \<in> set (text_lengths vs)" by (induction vs) (auto split: pyval.splits)
  then show ?thesis
    using foldl_max by (auto simp: max_length_def split: list.splits)
qed

lemma check_values_Inr:
  assumes "check_values t c = Inr ()" "parse_sql_type (col_type c) = Inr s"
  shows "\<not> col_nullable c \<longrightarrow> PNone \<notin> set (column_values t (col_name c))"
    and "len s = Some n \<Longrightarrow> PStr v \<in> set (column_values t (col_name c)) \<Longrightarrow> length v \<le> n"
proof -
  show "\<not> col_nullable c \<longrightarrow> PNone \<notin> set (column_values t (col_name c))"
    using assms(1) by (auto simp: check_values_def res_simps)
  assume n: "len s = Some n" and "PStr v \<in> set (column_values t (col_name c))"
  from max_length_bound [OF this(2)] obtain m where m: "max_length (column_values t (col_name c)) = Some m" "length v \<le> m"
    by blast
  have "\<not> m > n" using assms n m(1) by (auto simp: check_values_def res_simps split: if_splits)
  with m(2) show "length v \<le> n" by simp
qed

lemma table_types_names: "map fst (table_types t) = column_names t"
  by (simp add: table_types_def column_names_def case_prod_unfold)

lemma column_type_table_types: "column_type t n = map_of (table_types t) n"
proof -
  have "map_option fst (map_of cs n) = map_of (map (\<lambda>(n, a, _). (n, a)) cs) n" for cs :: "arrow_column list"
    by (induction cs) auto
  then show ?thesis by (simp add: column_type_def table_types_def)
qed

lemma schema_names: "traverse (\<lambda>c. column_field (b c) c) cs = Inr fs \<Longrightarrow> map fst fs = map col_name cs"
  by (induction cs arbitrary: fs) (auto simp: res_simps column_field_def)

lemma schema_types:
  "traverse (\<lambda>c. column_field (b c) c) cs = Inr fs \<Longrightarrow> distinct (map col_name cs) \<Longrightarrow> c \<in> set cs \<Longrightarrow>
     \<exists>s a. parse_sql_type (col_type c) = Inr s \<and> arrow_type_of s = Inr a \<and> map_of (field_types fs) (col_name c) = Some a"
proof (induction cs arbitrary: fs)
  case (Cons d cs)
  then obtain s a fs' where d: "parse_sql_type (col_type d) = Inr s" "arrow_type_of s = Inr a"
    and fs': "traverse (\<lambda>c. column_field (b c) c) cs = Inr fs'" and fs: "fs = (col_name d, a, b d) # fs'"
    by (auto simp: res_simps column_field_def)
  show ?case
  proof (cases "c = d")
    case True
    then show ?thesis using d by (simp add: fs field_types_def)
  next
    case False
    then have "col_name c \<noteq> col_name d" "c \<in> set cs" using Cons.prems by (auto simp: image_iff)
    then show ?thesis using Cons.IH [OF fs'] Cons.prems by (auto simp: fs field_types_def)
  qed
qed simp

lemma schema_types_same:
  "traverse (\<lambda>c. column_field (b c) c) cs = Inr fs \<Longrightarrow> traverse (\<lambda>c. column_field (b' c) c) cs = Inr fs' \<Longrightarrow>
     field_types fs = field_types fs'"
  by (induction cs arbitrary: fs fs') (auto simp: res_simps column_field_def field_types_def)

lemma ex_unit: "(\<exists>u::unit. P u) \<longleftrightarrow> P ()"
  by (metis (full_types) unit.exhaust)

lemma conform_Inr:
  assumes "conform cast t columns ec = Inr r"
  obtains fs fs' casted where
    "ec \<in> {''raise'', ''warn''}" "duplicate_names t = []"
    "ec = ''raise'' \<longrightarrow> set (column_names t) \<subseteq> set (map col_name columns)"
    "set (map col_name columns) \<subseteq> set (column_names t)"
    "traverse (column_field True) columns = Inr fs"
    "each (check_lossy (select_columns t (map col_name columns))) fs = Inr ()"
    "cast fs (select_columns t (map col_name columns)) = Inr casted"
    "each (check_values casted) columns = Inr ()"
    "traverse (\<lambda>c. column_field (col_nullable c) c) columns = Inr fs'"
    "cast fs' casted = Inr r"
proof -
  from assms obtain fs fs' casted where *: "ec \<in> {''raise'', ''warn''}" "duplicate_names t = []"
    "filter (\<lambda>n. n \<notin> set (map col_name columns)) (column_names t) = [] \<or> ec \<noteq> ''raise''"
    "filter (\<lambda>n. n \<notin> set (column_names t)) (map col_name columns) = []"
    "traverse (column_field True) columns = Inr fs"
    "each (check_lossy (select_columns t (map col_name columns))) fs = Inr ()"
    "cast fs (select_columns t (map col_name columns)) = Inr casted"
    "each (check_values casted) columns = Inr ()"
    "traverse (\<lambda>c. column_field (col_nullable c) c) columns = Inr fs'"
    "cast fs' casted = Inr r"
    unfolding conform_def Let_def bind_res_eq_Inr require_eq_Inr map_exn_eq_Inr ex_unit by blast
  show thesis
    by (rule that [OF *(1,2) _ _ *(5-10)]) (use *(3,4) in \<open>auto simp: filter_empty_conv\<close>)
qed

text \<open>A conformed table has the declared columns, types and values, and the rows of the input.\<close>

lemma conform_conformed:
  assumes run: "conform cast t columns ec = Inr r" and cast: "cast_ok cast"
    and distinct: "distinct (map col_name columns)"
  shows "conformed columns r" and "num_rows r = num_rows t"
proof -
  from run obtain fs fs' casted where
    fs: "traverse (\<lambda>c. column_field True c) columns = Inr fs"
    and c1: "cast fs (select_columns t (map col_name columns)) = Inr casted"
    and vals: "each (check_values casted) columns = Inr ()"
    and fs': "traverse (\<lambda>c. column_field (col_nullable c) c) columns = Inr fs'"
    and c2: "cast fs' casted = Inr r"
    by (rule conform_Inr)
  have types: "table_types casted = field_types fs" and n: "num_rows casted = num_rows t"
  proof -
    have "table_types casted = field_types fs \<and> num_rows casted = num_rows (select_columns t (map col_name columns))"
      using cast c1 unfolding cast_ok_def by blast
    then show "table_types casted = field_types fs" "num_rows casted = num_rows t"
      by (simp_all add: select_columns_def)
  qed
  have "table_types casted = field_types fs'" using types schema_types_same [OF fs fs'] by simp
  then have "cast fs' casted = Inr casted" using cast unfolding cast_ok_def by blast
  then have r: "r = casted" using c2 by simp
  have "map fst (field_types fs) = map fst fs" by (simp add: field_types_def case_prod_unfold)
  then have "column_names casted = map col_name columns"
    using types schema_names [OF fs] by (simp flip: table_types_names)
  moreover have "\<exists>s a. parse_sql_type (col_type c) = Inr s \<and> arrow_type_of s = Inr a
          \<and> column_type casted (col_name c) = Some a
          \<and> (\<not> col_nullable c \<longrightarrow> PNone \<notin> set (column_values casted (col_name c)))
          \<and> (\<forall>n v. len s = Some n \<longrightarrow> PStr v \<in> set (column_values casted (col_name c)) \<longrightarrow> length v \<le> n)"
    if c: "c \<in> set columns" for c
  proof -
    from schema_types [OF fs distinct c] obtain s a where s: "parse_sql_type (col_type c) = Inr s"
      "arrow_type_of s = Inr a" "map_of (field_types fs) (col_name c) = Some a" by blast
    have "check_values casted c = Inr ()" using vals c by (simp add: each_eq_Inr)
    from check_values_Inr [OF this s(1)] s show ?thesis
      by (auto simp: column_type_table_types types)
  qed
  ultimately show "conformed columns r" "num_rows r = num_rows t" using r n by (auto simp: conformed_def)
qed

text \<open>A table that breaks the structural rules is refused before the cast is tried.\<close>

lemma conform_structural:
  assumes "ec \<in> {''raise'', ''warn''}"
    and "duplicate_names t \<noteq> [] \<or> (ec = ''raise'' \<and> \<not> set (column_names t) \<subseteq> set (map col_name columns))
      \<or> \<not> set (map col_name columns) \<subseteq> set (column_names t)"
  shows "\<exists>m. \<forall>cast. conform cast t columns ec = raise_conform m"
proof -
  consider "duplicate_names t \<noteq> []"
    | "duplicate_names t = []" "ec = ''raise''" "filter (\<lambda>n. n \<notin> set (map col_name columns)) (column_names t) \<noteq> []"
    | "duplicate_names t = []" "filter (\<lambda>n. n \<notin> set (map col_name columns)) (column_names t) = [] \<or> ec \<noteq> ''raise''"
      "filter (\<lambda>n. n \<notin> set (column_names t)) (map col_name columns) \<noteq> []"
    using assms(2) unfolding filter_empty_conv by blast
  then show ?thesis
  proof cases
    case 1
    then show ?thesis using assms(1) by (simp add: conform_def require_def)
  next
    case 2
    then show ?thesis by (simp add: conform_def require_def)
  next
    case 3
    then show ?thesis using assms(1) by (simp add: conform_def require_def)
  qed
qed

lemma duplicate_names_Nil: "duplicate_names t = [] \<longleftrightarrow> distinct (column_names t)"
proof -
  have "duplicate_names t = [] \<longleftrightarrow> (\<forall>n\<in>set (column_names t). \<not> count_list (column_names t) n > 1)"
    unfolding duplicate_names_def by (metis (no_types, lifting) filter_empty_conv length_0_conv length_sort remdups_eq_nil_iff)
  also have "\<dots> \<longleftrightarrow> (\<forall>n. count (mset (column_names t)) n = (if n \<in> set (column_names t) then 1 else 0))"
  proof -
    have "count_list (column_names t) n \<noteq> 0" if "n \<in> set (column_names t)" for n
      using that by (simp add: count_list_0_iff)
    then show ?thesis by (fastforce simp: count_mset count_list_0_iff)
  qed
  also have "\<dots> \<longleftrightarrow> distinct (column_names t)" by (simp only: distinct_count_atmost_1)
  finally show ?thesis .
qed

end
