(* ===== verification/RunContext.thy ===== *)
theory RunContext
  imports Conform
begin

text \<open>
  The warehouse port as the harness uses it
  (\<^verbatim>\<open>contract/continuo_engine_contract/port.py\<close>) and the context a script runs in
  (\<^verbatim>\<open>continuo_python_runtime/context.py\<close>). An adapter is a record of state-passing
  operations on a warehouse of any type; a call of one is logged. A script is user code: a tree
  of the reads it makes, each continued with the table or with the exception it got.
\<close>

section \<open>Actions\<close>

text \<open>The calls that leave the program, in the order they are made.\<close>

datatype event =
    EFetch string
  | EValidateConfig
  | EEnsureTable string string "string list"
  | ETableColumns string string
  | ELoad string string arrow_table
  | EAppend string string arrow_table
  | EUpsert string string arrow_table "string list"
  | EClose
  | EPrint string

record 'w hstate =
  warehouse :: 'w
  trace :: "event list"

type_synonym ('w, 'a) act = "'w hstate \<Rightarrow> 'a res \<times> 'w hstate"

definition return_act :: "'a \<Rightarrow> ('w, 'a) act" where
  "return_act a s = (Inr a, s)"

definition of_res :: "'a res \<Rightarrow> ('w, 'a) act" where
  "of_res r s = (r, s)"

definition bind_act :: "('w, 'a) act \<Rightarrow> ('a \<Rightarrow> ('w, 'b) act) \<Rightarrow> ('w, 'b) act" where
  "bind_act m f s = (case m s of (Inl e, s') \<Rightarrow> (Inl e, s') | (Inr a, s') \<Rightarrow> f a s')"

text \<open>\<^verbatim>\<open>except ... as exc: raise g(exc)\<close>.\<close>

definition catch_act :: "(exn \<Rightarrow> exn) \<Rightarrow> ('w, 'a) act \<Rightarrow> ('w, 'a) act" where
  "catch_act g m s = (case m s of (r, s') \<Rightarrow> (map_exn g r, s'))"

definition call :: "event \<Rightarrow> ('w \<Rightarrow> 'a res \<times> 'w) \<Rightarrow> ('w, 'a) act" where
  "call e op s = (case op (warehouse s) of (r, w) \<Rightarrow> (r, s\<lparr>warehouse := w, trace := trace s @ [e]\<rparr>))"

lemma bind_act_Inr: "bind_act m f s = (Inr b, s') \<longleftrightarrow> (\<exists>a t. m s = (Inr a, t) \<and> f a t = (Inr b, s'))"
  by (auto simp: bind_act_def split: prod.splits sum.splits)

lemma bind_act_Inl:
  "bind_act m f s = (Inl e, s') \<longleftrightarrow> m s = (Inl e, s') \<or> (\<exists>a t. m s = (Inr a, t) \<and> f a t = (Inl e, s'))"
  by (auto simp: bind_act_def split: prod.splits sum.splits)

lemma of_res_eq [simp]: "of_res r s = (r', s') \<longleftrightarrow> r = r' \<and> s = s'"
  by (simp add: of_res_def)

lemma return_act_eq [simp]: "return_act a s = (r', s') \<longleftrightarrow> r' = Inr a \<and> s' = s"
  by (auto simp: return_act_def)

lemma catch_act_Inr: "catch_act g m s = (Inr a, s') \<longleftrightarrow> m s = (Inr a, s')"
  by (auto simp: catch_act_def res_simps split: prod.splits)

lemma catch_act_Inl: "catch_act g m s = (Inl e, s') \<longleftrightarrow> (\<exists>e'. m s = (Inl e', s') \<and> e = g e')"
  by (auto simp: catch_act_def res_simps split: prod.splits)

lemma call_trace: "call e op s = (r, s') \<Longrightarrow> trace s' = trace s @ [e]"
  by (auto simp: call_def split: prod.splits)

lemmas act_simps = bind_act_Inr bind_act_Inl catch_act_Inr catch_act_Inl

text \<open>The events an action adds.\<close>

definition emits :: "(event list \<Rightarrow> bool) \<Rightarrow> ('w, 'a) act \<Rightarrow> bool" where
  "emits P m \<longleftrightarrow> (\<forall>s r s'. m s = (r, s') \<longrightarrow> (\<exists>es. trace s' = trace s @ es \<and> P es))"

lemma emits_bind:
  assumes "emits P m" "\<And>a. emits P (f a)" "\<And>xs ys. P xs \<Longrightarrow> P ys \<Longrightarrow> P (xs @ ys)"
  shows "emits P (bind_act m f)"
  unfolding emits_def
proof (intro allI impI)
  fix s r s'
  assume run: "bind_act m f s = (r, s')"
  obtain x t where m: "m s = (x, t)" by (cases "m s")
  with assms(1) obtain es where es: "trace t = trace s @ es" "P es" unfolding emits_def by blast
  show "\<exists>es. trace s' = trace s @ es \<and> P es"
  proof (cases x)
    case (Inl e)
    then show ?thesis using run m es by (auto simp: bind_act_def)
  next
    case (Inr a)
    then have "f a t = (r, s')" using run m by (simp add: bind_act_def)
    with assms(2) obtain es' where "trace s' = trace t @ es'" "P es'" unfolding emits_def by blast
    then show ?thesis using es assms(3) by auto
  qed
qed

lemma emits_of_res: "P [] \<Longrightarrow> emits P (of_res r)"
  by (auto simp: emits_def)

lemma emits_return: "P [] \<Longrightarrow> emits P (return_act a)"
  by (auto simp: emits_def)

lemma emits_call: "P [e] \<Longrightarrow> emits P (call e op)"
  by (auto simp: emits_def dest: call_trace)

lemma emits_catch: "emits P m \<Longrightarrow> emits P (catch_act g m)"
  by (auto simp: emits_def catch_act_def split: prod.splits)

section \<open>The port\<close>

text \<open>
  \<open>ad_validate_config\<close> is absent from the abstract class, so an adapter may lack it;
  \<open>ad_append\<close> and \<open>ad_upsert_rows\<close> are there when the adapter declares the capability.
\<close>

record 'w adapter =
  ad_name :: string
  ad_fetch :: "string \<Rightarrow> 'w \<Rightarrow> arrow_table res \<times> 'w"
  ad_validate_config :: "(pydict \<Rightarrow> string list \<Rightarrow> 'w \<Rightarrow> unit res \<times> 'w) option"
  ad_ensure_table :: "string \<Rightarrow> string \<Rightarrow> column list \<Rightarrow> pydict \<Rightarrow> string list \<Rightarrow> 'w \<Rightarrow> unit res \<times> 'w"
  ad_table_columns :: "string \<Rightarrow> string \<Rightarrow> 'w \<Rightarrow> live_column list res \<times> 'w"
  ad_load :: "string \<Rightarrow> string \<Rightarrow> arrow_table \<Rightarrow> 'w \<Rightarrow> unit res \<times> 'w"
  ad_append :: "(string \<Rightarrow> string \<Rightarrow> arrow_table \<Rightarrow> 'w \<Rightarrow> unit res \<times> 'w) option"
  ad_upsert_rows :: "(string \<Rightarrow> string \<Rightarrow> arrow_table \<Rightarrow> string list \<Rightarrow> 'w \<Rightarrow> unit res \<times> 'w) option"
  ad_close :: "'w \<Rightarrow> unit res \<times> 'w"

text \<open>\<open>UpsertCapable.upsert\<close>: the template method checks the key, then hands the rows to the engine.\<close>

definition port_upsert ::
  "(string \<Rightarrow> string \<Rightarrow> arrow_table \<Rightarrow> string list \<Rightarrow> 'w \<Rightarrow> unit res \<times> 'w) \<Rightarrow>
   string \<Rightarrow> string \<Rightarrow> arrow_table \<Rightarrow> string list \<Rightarrow> ('w, unit) act" where
  "port_upsert rows schema tbl data key =
     bind_act (of_res (ensure_unique_key data key)) (\<lambda>_. call (EUpsert schema tbl data key) (rows schema tbl data key))"

text \<open>\<open>discover_adapter\<close>: the installed entry points by name, each with what loading it gives: an
  exception's text, or a class (\<open>None\<close> when it is not a \<^verbatim>\<open>WarehouseAdapter\<close> subclass).\<close>

definition discover_adapter :: "(string \<times> (string + 'c option)) list \<Rightarrow> (string \<times> 'c) res" where
  "discover_adapter eps = (case eps of
     [] \<Rightarrow> Inl (Exn AdapterDiscoveryError (''no engine adapter installed (entry-point group ''
       @ repr_str ''continuo_engine.adapters'' @ '' is empty); install exactly one engine package''))
   | [(name, loaded)] \<Rightarrow> (case loaded of
         Inl why \<Rightarrow> Inl (Exn AdapterDiscoveryError (''failed to load adapter entry point '' @ repr_str name @ '': '' @ why))
       | Inr None \<Rightarrow> Inl (Exn AdapterDiscoveryError (''entry point '' @ repr_str name
           @ '' does not resolve to a WarehouseAdapter subclass''))
       | Inr (Some c) \<Rightarrow> Inr (name, c))
   | _ \<Rightarrow> Inl (Exn AdapterDiscoveryError (''multiple engine adapters installed (''
       @ join '', '' (sort (map fst eps)) @ ''); an image must install exactly one'')))"

section \<open>The context of a script\<close>

text \<open>The context keeps the declared reads and what it fetched so far.\<close>

record run_context =
  ctx_reads :: "(string \<times> string) list"
  ctx_memo :: "(string \<times> arrow_table) list"

definition new_context :: "node \<Rightarrow> run_context" where
  "new_context n = \<lparr>ctx_reads = node_reads n, ctx_memo = []\<rparr>"

definition read_error :: "string \<Rightarrow> exn" where
  "read_error m = Exn (Harness ReadError) m"

text \<open>An exception of a class below \<^verbatim>\<open>Exception\<close>; the fetch wraps every one of them.\<close>

definition ctx_read ::
  "'w adapter \<Rightarrow> string \<Rightarrow> run_context \<Rightarrow> 'w hstate \<Rightarrow> arrow_table res \<times> run_context \<times> 'w hstate" where
  "ctx_read ad name ctx s = (case map_of (ctx_reads ctx) name of
     None \<Rightarrow> (Inl (read_error (''undeclared read '' @ repr_str name @ '', declared: ''
         @ repr_strs (sort (map fst (ctx_reads ctx))))), ctx, s)
   | Some sql \<Rightarrow> (case map_of (ctx_memo ctx) name of
         Some t \<Rightarrow> (Inr t, ctx, s)
       | None \<Rightarrow> (case call (EFetch sql) (ad_fetch ad sql) s of
             (Inl e, s') \<Rightarrow> (Inl (read_error (''declared read '' @ repr_str name @ '' failed: '' @ exn_text e)), ctx, s')
           | (Inr t, s') \<Rightarrow> (Inr t, ctx\<lparr>ctx_memo := (name, t) # ctx_memo ctx\<rparr>, s'))))"

datatype script =
    Return run_value
  | Raise exn
  | Read string "arrow_table res \<Rightarrow> script"

primrec run_script :: "script \<Rightarrow> 'w adapter \<Rightarrow> run_context \<Rightarrow> ('w, run_value) act" where
  "run_script (Return v) ad ctx = return_act v"
| "run_script (Raise e) ad ctx = of_res (Inl e)"
| "run_script (Read name k) ad ctx = (\<lambda>s. case ctx_read ad name ctx s of (r, ctx', s') \<Rightarrow> run_script (k r) ad ctx' s')"

section \<open>Facts\<close>

lemma discover_adapter_Inr: "discover_adapter eps = Inr (n, c) \<longleftrightarrow> eps = [(n, Inr (Some c))]"
  by (auto simp: discover_adapter_def split: list.splits sum.splits option.splits)

lemma discover_adapter_Inl: "discover_adapter eps = Inl e \<Longrightarrow> exn_kind e = AdapterDiscoveryError"
  by (auto simp: discover_adapter_def split: list.splits sum.splits option.splits)

text \<open>A script's run only reads: every event is the fetch of a declared read.\<close>

definition only_reads :: "(string \<times> string) list \<Rightarrow> event list \<Rightarrow> bool" where
  "only_reads reads es \<longleftrightarrow> set es \<subseteq> EFetch ` snd ` set reads"

lemma ctx_read_cases:
  assumes "ctx_read ad name ctx s = (r, ctx', s')"
  shows "ctx_reads ctx' = ctx_reads ctx"
    and "r = Inl e \<Longrightarrow> exn_kind e = Harness ReadError"
    and "r = Inl e \<Longrightarrow> ctx' = ctx"
    and "r = Inr t \<Longrightarrow> map_of (ctx_memo ctx') name = Some t"
    and "map_of (ctx_memo ctx) n = Some u \<Longrightarrow> map_of (ctx_memo ctx') n = Some u"
  using assms
  by (auto simp: ctx_read_def read_error_def split: option.splits prod.splits sum.splits)

lemma ctx_read_trace:
  assumes "ctx_read ad name ctx s = (r, ctx', s')"
  shows "\<exists>es. trace s' = trace s @ es \<and> only_reads (ctx_reads ctx) es"
proof (cases "map_of (ctx_reads ctx) name")
  case None
  then show ?thesis using assms by (auto simp: ctx_read_def only_reads_def)
next
  case (Some sql)
  then have "EFetch sql \<in> EFetch ` snd ` set (ctx_reads ctx)" by (force dest: map_of_SomeD)
  then have "only_reads (ctx_reads ctx) [EFetch sql]" "only_reads (ctx_reads ctx) []" by (simp_all add: only_reads_def)
  then show ?thesis using assms Some
    by (auto simp: ctx_read_def split: option.splits prod.splits sum.splits dest!: call_trace)
qed

lemma run_script_reads:
  "run_script sc ad ctx s = (r, s') \<Longrightarrow> \<exists>es. trace s' = trace s @ es \<and> only_reads (ctx_reads ctx) es"
proof (induction sc arbitrary: ctx s)
  case (Return v)
  then show ?case by (auto simp: only_reads_def)
next
  case (Raise e)
  then show ?case by (auto simp: only_reads_def)
next
  case (Read name k)
  obtain t ctx' u where c: "ctx_read ad name ctx s = (t, ctx', u)" by (cases "ctx_read ad name ctx s")
  have "\<exists>es. trace s' = trace u @ es \<and> only_reads (ctx_reads ctx') es"
    by (rule Read.IH) (use Read.prems c in auto)
  with ctx_read_cases(1) [OF c] ctx_read_trace [OF c] show ?case by (auto simp: only_reads_def)
qed

text \<open>A memoized read does not reach the warehouse again, and answers as it did before.\<close>

lemma ctx_read_memo:
  assumes "ctx_read ad name ctx s = (Inr t, ctx', s')"
  shows "ctx_read ad name ctx' s'' = (Inr t, ctx', s'')"
proof -
  have "map_of (ctx_reads ctx) name \<noteq> None" using assms by (auto simp: ctx_read_def split: option.splits)
  then show ?thesis using ctx_read_cases(1) [OF assms] ctx_read_cases(4) [OF assms, of t]
    by (auto simp: ctx_read_def)
qed

end
