(* ===== verification/Closure.thy ===== *)
theory Closure
  imports PyValue "HOL-Library.Product_Lexorder"
begin

text \<open>
  The static import closure (\<^verbatim>\<open>continuo_python_runtime/closure.py\<close>): the part of Python's
  syntax tree it inspects, the dynamic-import check, the resolution of a dotted name to a file, and
  the worklist that collects the transitive in-repo imports of a script. The file system and
  \<^verbatim>\<open>ast.parse\<close> are parameters. The worklist is a partial function; it is shown to return on every
  file system with finitely many files, and to return exactly the files that imports reach.
\<close>

section \<open>Paths and files\<close>

text \<open>An absolute path is the list of its components; \<open>fs_resolve\<close> follows symbolic links.\<close>

type_synonym path = "string list"

record fs =
  fs_is_file :: "path \<Rightarrow> bool"
  fs_resolve :: "path \<Rightarrow> path"
  fs_read :: "path \<Rightarrow> string res"

definition is_relative_to :: "path \<Rightarrow> path \<Rightarrow> bool" where
  "is_relative_to p top_dir \<longleftrightarrow> take (length top_dir) p = top_dir"

definition path_text :: "path \<Rightarrow> string" where
  "path_text p = (if p = [] then ''.'' else join ''/'' p)"

definition relative_to :: "path \<Rightarrow> path \<Rightarrow> path res" where
  "relative_to p top_dir = (if is_relative_to p top_dir then Inr (drop (length top_dir) p)
     else raise_value (repr_str (CHR ''/'' # join ''/'' p) @ '' is not in the subpath of ''
       @ repr_str (CHR ''/'' # join ''/'' top_dir)))"

definition parent :: "path \<Rightarrow> path" where
  "parent p = butlast p"

text \<open>\<^verbatim>\<open>top_dir.joinpath(*parts)\<close>: an empty component names nothing. \<^verbatim>\<open>with_suffix\<close>, on a
  last component without a dot.\<close>

definition joinpath :: "path \<Rightarrow> string list \<Rightarrow> path" where
  "joinpath top_dir parts = top_dir @ filter (\<lambda>c. c \<noteq> []) parts"

definition with_suffix :: "path \<Rightarrow> string \<Rightarrow> path" where
  "with_suffix p suffix = (if p = [] then [] else butlast p @ [last p @ suffix])"

section \<open>The syntax tree\<close>

text \<open>
  The node classes the source tells apart, with the fields it reads; every other class is \<open>Other\<close>
  with its children. The first number of a node is its line. A string constant carries the
  identity of its object, which the linter's \<^verbatim>\<open>id(node)\<close> sets hold. \<open>Scope\<close> is a
  \<^verbatim>\<open>Module\<close>, \<^verbatim>\<open>ClassDef\<close>, \<^verbatim>\<open>FunctionDef\<close> or \<^verbatim>\<open>AsyncFunctionDef\<close>: the children before
  its body, the body, the children after.
\<close>

record import_alias =
  alias_name :: string
  alias_asname :: "string option"

datatype pyast =
    Import nat "import_alias list"
  | ImportFrom nat "string option" "import_alias list" nat
  | Name nat string
  | Attribute nat pyast string
  | StrConst nat nat string
  | JoinedStr nat "pyast list"
  | BinOp nat bool pyast pyast
  | Call nat pyast "pyast list"
  | ExprStmt pyast
  | Scope "pyast list" "pyast list" "pyast list"
  | Other "pyast list"

text \<open>The result of \<^verbatim>\<open>ast.parse\<close>: a tree, a \<^verbatim>\<open>SyntaxError\<close> with its line and message, or
  another exception.\<close>

datatype parsed = Parsed pyast | SyntaxFailure string string | ParseFailure exn

fun children :: "pyast \<Rightarrow> pyast list" where
  "children (Attribute l v a) = [v]"
| "children (JoinedStr l vs) = vs"
| "children (BinOp l add x y) = [x, y]"
| "children (Call l f args) = f # args"
| "children (ExprStmt v) = [v]"
| "children (Scope before body after) = before @ body @ after"
| "children (Other ns) = ns"
| "children _ = []"

lemma sum_size: "(\<Sum>c\<leftarrow>ns. Suc (2 * size c)) = 2 * sum_list (map size ns) + length ns"
  by (induction ns) simp_all

lemma children_size: "(\<Sum>c\<leftarrow>children t. Suc (2 * size c)) \<le> 2 * size t"
  by (cases t) (simp_all add: size_list_conv_sum_list sum_size)

text \<open>\<^verbatim>\<open>ast.walk\<close>: breadth first, over a queue.\<close>

function walk_queue :: "pyast list \<Rightarrow> pyast list" where
  "walk_queue [] = []"
| "walk_queue (t # todo) = t # walk_queue (todo @ children t)"
  by pat_completeness auto
termination
proof (relation "measure (\<lambda>q. \<Sum>c\<leftarrow>q. Suc (2 * size c))")
  fix t todo
  show "(todo @ children t, t # todo) \<in> measure (\<lambda>q. \<Sum>c\<leftarrow>q. Suc (2 * size c))"
    using children_size [of t] by simp
qed simp

definition walk :: "pyast \<Rightarrow> pyast list" where
  "walk t = walk_queue [t]"

section \<open>Dynamic imports\<close>

definition dynamic_import_modules :: "string list" where
  "dynamic_import_modules = [''importlib'', ''builtins'']"

definition dynamic_import_names :: "string list" where
  "dynamic_import_names = [''__import__'', ''exec'', ''eval'', ''__builtins__'']"

definition dynamic_import_attrs :: "string list" where
  "dynamic_import_attrs = [''import_module'', ''__import__'']"

text \<open>\<^verbatim>\<open>name.split(".")[0]\<close>.\<close>

definition root_module :: "string \<Rightarrow> string" where
  "root_module name = hd (split_on (CHR ''.'') name)"

fun dynamic_at :: "pyast \<Rightarrow> (nat \<times> string) list" where
  "dynamic_at (Import l names) =
     [(l, root_module (alias_name a)). a \<leftarrow> names, root_module (alias_name a) \<in> set dynamic_import_modules]"
| "dynamic_at (ImportFrom l m names level) =
     (case m of
        Some name \<Rightarrow> if root_module name \<in> set dynamic_import_modules then [(l, root_module name)]
          else [(l, alias_name a). a \<leftarrow> names, alias_name a \<in> set dynamic_import_names]
      | None \<Rightarrow> [(l, alias_name a). a \<leftarrow> names, alias_name a \<in> set dynamic_import_names])"
| "dynamic_at (Name l i) = (if i \<in> set dynamic_import_names then [(l, i)] else [])"
| "dynamic_at (Attribute l v a) = (if a \<in> set dynamic_import_attrs then [(l, a)] else [])"
| "dynamic_at _ = []"

definition dynamic_import_violations :: "pyast \<Rightarrow> (nat \<times> string) list" where
  "dynamic_import_violations tree = sort (concat (map dynamic_at (walk tree)))"

section \<open>The names a file imports\<close>

definition package_components :: "path \<Rightarrow> path \<Rightarrow> string list res" where
  "package_components importing_file repo_root = relative_to (parent importing_file) repo_root"

definition names_from_import :: "import_alias list \<Rightarrow> string list" where
  "names_from_import names = map alias_name names"

definition dotted :: "string list \<Rightarrow> string" where
  "dotted parts = join ''.'' (filter (\<lambda>p. p \<noteq> []) parts)"

definition names_from_import_from ::
  "string option \<Rightarrow> import_alias list \<Rightarrow> nat \<Rightarrow> path \<Rightarrow> path \<Rightarrow> string list res" where
  "names_from_import_from m names level importing_file repo_root =
     (if level = 0 then
        (case m of
           None \<Rightarrow> Inl (Exn AssertionError [])
         | Some b \<Rightarrow> Inr (b # map (\<lambda>a. b @ ''.'' @ alias_name a) names))
      else
        bind_res (package_components importing_file repo_root) (\<lambda>components.
        let walk_up = level - 1 in
        if walk_up > length components then Inr []
        else
          let prefix = join ''.'' (take (length components - walk_up) components);
              b = dotted [prefix, case m of None \<Rightarrow> [] | Some s \<Rightarrow> s]
          in Inr ((if b \<noteq> [] then [b] else [])
               @ map (\<lambda>a. if b \<noteq> [] then b @ ''.'' @ alias_name a else alias_name a) names)))"

fun import_names_at :: "path \<Rightarrow> path \<Rightarrow> pyast \<Rightarrow> string list res" where
  "import_names_at importing_file repo_root (Import l names) = Inr (names_from_import names)"
| "import_names_at importing_file repo_root (ImportFrom l m names level) =
     names_from_import_from m names level importing_file repo_root"
| "import_names_at importing_file repo_root _ = Inr []"

definition collect_import_names :: "pyast \<Rightarrow> path \<Rightarrow> path \<Rightarrow> string list res" where
  "collect_import_names tree importing_file repo_root =
     bind_res (traverse (import_names_at importing_file repo_root) (walk tree)) (\<lambda>nss. Inr (concat nss))"

section \<open>From a name to files\<close>

fun resolve_name :: "fs \<Rightarrow> string \<Rightarrow> path list \<Rightarrow> (path \<times> path \<times> string list) option" where
  "resolve_name f name [] = None"
| "resolve_name f name (r # roots) =
     (let parts = split_on (CHR ''.'') name;
          package_init = joinpath r (parts @ [''__init__.py'']);
          module_file = with_suffix (joinpath r parts) ''.py''
      in if fs_is_file f package_init then Some (r, fs_resolve f package_init, parts)
         else if fs_is_file f module_file then Some (r, fs_resolve f module_file, parts)
         else resolve_name f name roots)"

definition init_of :: "path \<Rightarrow> string list \<Rightarrow> nat \<Rightarrow> path" where
  "init_of r parts depth = joinpath r (take depth parts @ [''__init__.py''])"

definition name_candidates :: "fs \<Rightarrow> path list \<Rightarrow> string \<Rightarrow> path list" where
  "name_candidates f search_roots name = (case resolve_name f name search_roots of
     None \<Rightarrow> []
   | Some (r, resolved_file, parts) \<Rightarrow>
       resolved_file # map (fs_resolve f)
         (filter (fs_is_file f) (map (init_of r parts) [1..<length parts])))"

section \<open>One file\<close>

text \<open>What the loop does with one file: its exception, or the files its imports lead to.\<close>

definition read_tree :: "fs \<Rightarrow> (string \<Rightarrow> parsed) \<Rightarrow> path \<Rightarrow> path \<Rightarrow> pyast res" where
  "read_tree f parse repo_root current =
     bind_res (relative_to current repo_root) (\<lambda>rel.
     bind_res (fs_read f current) (\<lambda>source.
     case parse source of
       SyntaxFailure l msg \<Rightarrow> raise_contract (path_text rel @ '': syntax error: '' @ msg)
     | ParseFailure e \<Rightarrow> Inl e
     | Parsed tree \<Rightarrow> (case dynamic_import_violations tree of
           [] \<Rightarrow> Inr tree
         | (l, name) # _ \<Rightarrow> raise_contract (path_text rel @ '':'' @ nat_str l @ '': dynamic import construct ''
             @ repr_str name @ '' is not allowed - the content hash cannot see it''))))"

definition imports_of :: "fs \<Rightarrow> (string \<Rightarrow> parsed) \<Rightarrow> path \<Rightarrow> path list \<Rightarrow> path \<Rightarrow> path list res" where
  "imports_of f parse repo_root search_roots current =
     bind_res (read_tree f parse repo_root current) (\<lambda>tree.
     bind_res (collect_import_names tree current repo_root) (\<lambda>names.
     Inr (filter (\<lambda>c. is_relative_to c repo_root) (concat (map (name_candidates f search_roots) names)))))"

section \<open>The worklist\<close>

definition visit :: "path \<Rightarrow> path list \<times> path list \<Rightarrow> path list \<times> path list" where
  "visit c st = (case st of (queue, seen) \<Rightarrow>
     if c \<in> set seen then (queue, seen) else (queue @ [c], c # seen))"

partial_function (option) closure_loop ::
  "(path \<Rightarrow> path list res) \<Rightarrow> path list \<Rightarrow> path list \<Rightarrow> path list res option" where
  "closure_loop succ queue seen = (case queue of
     [] \<Rightarrow> Some (Inr seen)
   | current # rest \<Rightarrow> (case succ current of
         Inl e \<Rightarrow> Some (Inl e)
       | Inr candidates \<Rightarrow>
           let st = fold visit candidates (rest, seen) in closure_loop succ (fst st) (snd st)))"

declare closure_loop.simps [code]

definition search_roots_of :: "path \<Rightarrow> path \<Rightarrow> path list" where
  "search_roots_of repo_root script_dir =
     (if script_dir = repo_root then [repo_root] else [repo_root, script_dir])"

definition resolve_closure :: "fs \<Rightarrow> (string \<Rightarrow> parsed) \<Rightarrow> path \<Rightarrow> path \<Rightarrow> path list res option" where
  "resolve_closure f parse script_path repo_root0 =
     (let repo_root = fs_resolve f repo_root0;
          script_resolved = fs_resolve f script_path;
          search_roots = search_roots_of repo_root (parent script_resolved)
      in map_option (map_sum id (\<lambda>seen. sort (remdups (filter (\<lambda>p. p \<noteq> script_resolved) seen))))
           (closure_loop (imports_of f parse repo_root search_roots) [script_resolved] [script_resolved]))"

section \<open>The walk\<close>

definition child_rel :: "(pyast \<times> pyast) set" where
  "child_rel = {(t, c). c \<in> set (children t)}"

definition subnodes :: "pyast \<Rightarrow> pyast set" where
  "subnodes t = {n. (t, n) \<in> child_rel\<^sup>*}"

lemma subnodes_unfold: "subnodes t = insert t (\<Union>c\<in>set (children t). subnodes c)"
proof -
  have star: "(t, n) \<in> child_rel\<^sup>* \<longleftrightarrow> n = t \<or> (\<exists>c\<in>set (children t). (c, n) \<in> child_rel\<^sup>*)" for n
  proof
    assume "(t, n) \<in> child_rel\<^sup>*"
    then show "n = t \<or> (\<exists>c\<in>set (children t). (c, n) \<in> child_rel\<^sup>*)"
      by (cases rule: converse_rtranclE) (auto simp: child_rel_def)
  next
    assume "n = t \<or> (\<exists>c\<in>set (children t). (c, n) \<in> child_rel\<^sup>*)"
    then show "(t, n) \<in> child_rel\<^sup>*"
    proof
      assume "\<exists>c\<in>set (children t). (c, n) \<in> child_rel\<^sup>*"
      then obtain c where "(t, c) \<in> child_rel" "(c, n) \<in> child_rel\<^sup>*" by (auto simp: child_rel_def)
      then show ?thesis by (rule converse_rtrancl_into_rtrancl)
    qed simp
  qed
  show ?thesis
  proof (rule set_eqI)
    fix n
    show "n \<in> subnodes t \<longleftrightarrow> n \<in> insert t (\<Union>c\<in>set (children t). subnodes c)"
      using star [of n] by (simp add: subnodes_def)
  qed
qed

lemma set_walk_queue: "set (walk_queue q) = (\<Union>t\<in>set q. subnodes t)"
proof (induction q rule: walk_queue.induct)
  case (2 t todo)
  have "set (walk_queue (t # todo)) = insert t (\<Union>c\<in>set (todo @ children t). subnodes c)"
    by (simp only: walk_queue.simps list.set 2)
  also have "\<dots> = (\<Union>c\<in>set (t # todo). subnodes c)"
    unfolding list.set UN_insert subnodes_unfold [of t] set_append by blast
  finally show ?case .
qed simp

lemma set_walk: "set (walk t) = subnodes t"
  by (simp add: walk_def set_walk_queue del: walk_queue.simps)

lemma no_dynamic_imports:
  "dynamic_import_violations t = [] \<longleftrightarrow> (\<forall>n\<in>subnodes t. dynamic_at n = [])"
proof -
  have "dynamic_import_violations t = [] \<longleftrightarrow> concat (map dynamic_at (walk t)) = []"
    unfolding dynamic_import_violations_def by (metis length_0_conv length_sort)
  then show ?thesis by (simp add: set_walk)
qed

section \<open>What the worklist computes\<close>

inductive import_reach :: "(path \<Rightarrow> path list res) \<Rightarrow> path \<Rightarrow> path \<Rightarrow> bool" for succ where
  here: "import_reach succ p p"
| step: "import_reach succ p q \<Longrightarrow> succ q = Inr cs \<Longrightarrow> r \<in> set cs \<Longrightarrow> import_reach succ p r"

lemma import_reach_first:
  "succ p = Inr cs \<Longrightarrow> q \<in> set cs \<Longrightarrow> import_reach succ q r \<Longrightarrow> import_reach succ p r"
  by (rotate_tac 2, induction rule: import_reach.induct) (auto intro: import_reach.intros)

lemma fold_visit:
  "\<exists>new. fold visit cs (queue, seen) = (queue @ new, rev new @ seen)
     \<and> set new = set cs - set seen \<and> distinct new"
proof (induction cs arbitrary: queue seen)
  case (Cons c cs)
  show ?case
  proof (cases "c \<in> set seen")
    case True
    then show ?thesis using Cons.IH [of queue seen] by (auto simp: visit_def)
  next
    case False
    from Cons.IH [of "queue @ [c]" "c # seen"] obtain new where
      "fold visit cs (queue @ [c], c # seen) = ((queue @ [c]) @ new, rev new @ c # seen)"
      "set new = set cs - set (c # seen)" "distinct new" by blast
    then have "fold visit (c # cs) (queue, seen) = (queue @ (c # new), rev (c # new) @ seen)"
      "set (c # new) = set (c # cs) - set seen" "distinct (c # new)"
      using False by (auto simp: visit_def)
    then show ?thesis by blast
  qed
qed simp

text \<open>The loop's state between two rounds: what is seen and no longer queued has been expanded.\<close>

definition loop_inv :: "(path \<Rightarrow> path list res) \<Rightarrow> path list \<Rightarrow> path list \<Rightarrow> bool" where
  "loop_inv succ queue seen \<longleftrightarrow> set queue \<subseteq> set seen \<and>
     (\<forall>p\<in>set seen - set queue. \<exists>cs. succ p = Inr cs \<and> set cs \<subseteq> set seen)"

lemma loop_inv_step:
  assumes "loop_inv succ (p # rest) seen" "succ p = Inr cs" "set new = set cs - set seen"
  shows "loop_inv succ (rest @ new) (rev new @ seen)"
proof -
  have sub: "set rest \<subseteq> set seen" and closed: "\<forall>q\<in>set seen - set (p # rest). \<exists>ds. succ q = Inr ds \<and> set ds \<subseteq> set seen"
    using assms(1) by (auto simp: loop_inv_def)
  have "\<exists>ds. succ q = Inr ds \<and> set ds \<subseteq> set (rev new @ seen)" if "q \<in> set (rev new @ seen) - set (rest @ new)" for q
  proof (cases "q = p")
    case True
    then show ?thesis using assms(2,3) by auto
  next
    case False
    then have "q \<in> set seen - set (p # rest)" using that assms(3) by auto
    with closed obtain ds where "succ q = Inr ds" "set ds \<subseteq> set seen" by blast
    then show ?thesis by auto
  qed
  then show ?thesis using sub by (auto simp: loop_inv_def)
qed

text \<open>The result: every exception is that of a reached file; without one, the seen files are the
  reached ones, and all of them were read.\<close>

definition loop_result :: "(path \<Rightarrow> path list res) \<Rightarrow> path list \<Rightarrow> path list res \<Rightarrow> bool" where
  "loop_result succ seen r = (case r of
     Inl e \<Rightarrow> \<exists>p\<in>set seen. \<exists>q. import_reach succ p q \<and> succ q = Inl e
   | Inr found \<Rightarrow> set found = {q. \<exists>p\<in>set seen. import_reach succ p q}
       \<and> (\<forall>q\<in>set found. \<exists>cs. succ q = Inr cs))"

lemma closed_reach:
  assumes "\<forall>p\<in>S. \<exists>cs. succ p = Inr cs \<and> set cs \<subseteq> S" "import_reach succ p q" "p \<in> S"
  shows "q \<in> S"
  using assms(2,3) by (induction rule: import_reach.induct) (use assms(1) in fastforce)+

lemma loop_result_step:
  assumes r: "loop_result succ (rev new @ seen) r" and p: "p \<in> set seen" "succ p = Inr cs"
    and new: "set new = set cs - set seen"
  shows "loop_result succ seen r"
proof -
  have sub: "\<exists>p\<in>set seen. import_reach succ p q" if "x \<in> set (rev new @ seen)" "import_reach succ x q" for x q
    using that p new by (auto dest: import_reach_first)
  show ?thesis
  proof (cases r)
    case (Inl e)
    then show ?thesis using r sub unfolding loop_result_def by fastforce
  next
    case (Inr found)
    have found: "set found = {q. \<exists>p\<in>set (rev new @ seen). import_reach succ p q}"
      and read: "\<forall>q\<in>set found. \<exists>cs. succ q = Inr cs" using r by (simp_all add: loop_result_def Inr)
    have "set found = {q. \<exists>p\<in>set seen. import_reach succ p q}"
      unfolding found using sub by auto
    with read show ?thesis by (simp add: loop_result_def Inr)
  qed
qed

lemma closure_loop_total:
  assumes U: "finite U" "\<forall>p\<in>U. \<forall>cs. succ p = Inr cs \<longrightarrow> set cs \<subseteq> U"
  shows "set seen \<subseteq> U \<Longrightarrow> loop_inv succ queue seen \<Longrightarrow>
    \<exists>r. closure_loop succ queue seen = Some r \<and> loop_result succ seen r"
proof (induction "2 * card (U - set seen) + length queue" arbitrary: queue seen rule: less_induct)
  case less
  show ?case
  proof (cases queue)
    case Nil
    have "\<forall>p\<in>set seen. \<exists>cs. succ p = Inr cs \<and> set cs \<subseteq> set seen"
      using less.prems(2) by (simp add: loop_inv_def Nil)
    then have "loop_result succ seen (Inr seen)"
      using closed_reach [of "set seen" succ] by (auto simp: loop_result_def intro: here)
    then show ?thesis by (simp add: closure_loop.simps [of succ "[]"] Nil)
  next
    case (Cons p rest)
    have p: "p \<in> set seen" using less.prems(2) by (simp add: loop_inv_def Cons)
    show ?thesis
    proof (cases "succ p")
      case (Inl e)
      then have "loop_result succ seen (Inl e)" using p by (auto simp: loop_result_def intro: here)
      then show ?thesis by (simp add: closure_loop.simps [of succ "p # rest"] Cons Inl)
    next
      case (Inr cs)
      obtain new where new: "fold visit cs (rest, seen) = (rest @ new, rev new @ seen)"
        "set new = set cs - set seen" "distinct new" using fold_visit by blast
      have sub: "set (rev new @ seen) \<subseteq> U"
        using less.prems(1) new(2) U(2) p Inr by (simp add: subset_iff) blast
      have fin: "finite (U - set seen)" using U(1) by simp
      have "set new \<subseteq> U - set seen" using sub new(2) by auto
      then have "card (U - set seen - set new) + card (set new) = card (U - set seen)"
        using fin by (metis card_Diff_subset card_mono finite_subset le_add_diff_inverse2)
      moreover have "U - set (rev new @ seen) = U - set seen - set new" by auto
      ultimately have "2 * card (U - set (rev new @ seen)) + length (rest @ new)
          < 2 * card (U - set seen) + length queue"
        using new(3) by (simp add: Cons distinct_card)
      from less.hyps [OF this sub loop_inv_step [OF less.prems(2) [unfolded Cons] Inr new(2)]]
      obtain r where "closure_loop succ (rest @ new) (rev new @ seen) = Some r"
        "loop_result succ (rev new @ seen) r" by blast
      then show ?thesis using loop_result_step [of succ new seen _ p cs, OF _ p Inr new(2)]
        by (simp add: closure_loop.simps [of succ "p # rest"] Cons Inr new(1))
    qed
  qed
qed

text \<open>A run looks at the files it returns and at no other.\<close>

lemma closure_loop_local:
  assumes "closure_loop succ queue seen = Some r" "set queue \<subseteq> set seen" "r = Inr found"
  shows "set seen \<subseteq> set found"
    and "\<forall>p\<in>set found. succ' p = succ p \<Longrightarrow> closure_loop succ' queue seen = Some (Inr found)"
proof -
  let ?P = "\<lambda>succ queue seen r. r = Inr found \<longrightarrow> set queue \<subseteq> set seen \<longrightarrow>
    set seen \<subseteq> set found \<and> ((\<forall>p\<in>set found. succ' p = succ p) \<longrightarrow> closure_loop succ' queue seen = Some (Inr found))"
  have "?P succ queue seen r"
  proof (rule closure_loop.raw_induct [of ?P, OF _ assms(1)])
    fix loop succ queue seen r
    assume IH: "\<And>s q sn y. loop s q sn = Some y \<Longrightarrow> ?P s q sn y"
      and run: "(case queue of [] \<Rightarrow> Some (Inr seen)
        | current # rest \<Rightarrow> (case succ current of Inl e \<Rightarrow> Some (Inl e)
          | Inr candidates \<Rightarrow> let st = fold visit candidates (rest, seen) in loop succ (fst st) (snd st))) = Some r"
    show "?P succ queue seen r"
    proof (intro impI)
      assume r: "r = Inr found" and q: "set queue \<subseteq> set seen"
      show "set seen \<subseteq> set found \<and>
          ((\<forall>p\<in>set found. succ' p = succ p) \<longrightarrow> closure_loop succ' queue seen = Some (Inr found))"
      proof (cases queue)
        case Nil
        then show ?thesis using run r by (simp add: closure_loop.simps [of succ' "[]"])
      next
        case (Cons p rest)
        obtain cs where cs: "succ p = Inr cs" using run r by (auto simp: Cons split: sum.splits)
        obtain new where new: "fold visit cs (rest, seen) = (rest @ new, rev new @ seen)"
          "set new = set cs - set seen" using fold_visit by blast
        have "loop succ (rest @ new) (rev new @ seen) = Some (Inr found)"
          using run by (simp add: Cons cs new(1) r)
        from IH [OF this] have rest: "set (rev new @ seen) \<subseteq> set found"
          "(\<forall>p\<in>set found. succ' p = succ p) \<longrightarrow> closure_loop succ' (rest @ new) (rev new @ seen) = Some (Inr found)"
          using q by (auto simp: Cons)
        have "closure_loop succ' queue seen = Some (Inr found)" if same: "\<forall>p\<in>set found. succ' p = succ p"
        proof -
          have "p \<in> set found" using q rest(1) by (auto simp: Cons)
          with same cs have "succ' p = Inr cs" by simp
          with rest(2) same show ?thesis
            by (simp add: closure_loop.simps [of succ' "p # rest"] Cons new(1))
        qed
        then show ?thesis using rest(1) by auto
      qed
    qed
  qed
  then show "set seen \<subseteq> set found"
    and "\<forall>p\<in>set found. succ' p = succ p \<Longrightarrow> closure_loop succ' queue seen = Some (Inr found)"
    using assms(2,3) by blast+
qed

section \<open>The closure of a script\<close>

lemma name_candidates_resolved:
  "c \<in> set (name_candidates f roots name) \<Longrightarrow> \<exists>p. fs_is_file f p \<and> c = fs_resolve f p"
proof -
  have "\<exists>p. fs_is_file f p \<and> target = fs_resolve f p" if "resolve_name f name roots = Some (r, target, parts)" for r target parts
    using that by (induction roots) (auto simp: Let_def split: if_splits)
  then show "c \<in> set (name_candidates f roots name) \<Longrightarrow> \<exists>p. fs_is_file f p \<and> c = fs_resolve f p"
    by (cases "resolve_name f name roots") (auto simp: name_candidates_def)
qed

lemma imports_of_Inr:
  "imports_of f parse repo roots p = Inr cs \<Longrightarrow> c \<in> set cs \<Longrightarrow>
     is_relative_to c repo \<and> (\<exists>q. fs_is_file f q \<and> c = fs_resolve f q)"
  by (auto simp: imports_of_def res_simps dest: name_candidates_resolved)

definition script_imports :: "fs \<Rightarrow> (string \<Rightarrow> parsed) \<Rightarrow> path \<Rightarrow> path \<Rightarrow> path \<Rightarrow> path list res" where
  "script_imports f parse script repo = imports_of f parse (fs_resolve f repo)
     (search_roots_of (fs_resolve f repo) (parent (fs_resolve f script)))"

lemma resolve_closure_loop:
  "resolve_closure f parse script repo = map_option (map_sum id
     (\<lambda>seen. sort (remdups (filter (\<lambda>p. p \<noteq> fs_resolve f script) seen))))
     (closure_loop (script_imports f parse script repo) [fs_resolve f script] [fs_resolve f script])"
  by (simp add: resolve_closure_def script_imports_def Let_def)

text \<open>A file system in which finitely many files are visible.\<close>

definition finite_fs :: "fs \<Rightarrow> bool" where
  "finite_fs f \<longleftrightarrow> finite (fs_resolve f ` {p. fs_is_file f p})"

lemma resolve_closure_result:
  assumes "finite_fs f"
  shows "\<exists>r. resolve_closure f parse script repo = Some r \<and>
    (case r of
       Inl e \<Rightarrow> \<exists>q. import_reach (script_imports f parse script repo) (fs_resolve f script) q
         \<and> script_imports f parse script repo q = Inl e
     | Inr files \<Rightarrow> sorted files \<and> distinct files \<and> fs_resolve f script \<notin> set files
         \<and> insert (fs_resolve f script) (set files) = {q. import_reach (script_imports f parse script repo) (fs_resolve f script) q})"
proof -
  let ?s = "fs_resolve f script" and ?imp = "script_imports f parse script repo"
  let ?U = "insert ?s (fs_resolve f ` {p. fs_is_file f p})"
  have "finite ?U" using assms by (simp add: finite_fs_def)
  moreover have "\<forall>p\<in>?U. \<forall>cs. ?imp p = Inr cs \<longrightarrow> set cs \<subseteq> ?U"
    unfolding script_imports_def by (auto dest: imports_of_Inr)
  moreover have "loop_inv ?imp [?s] [?s]" by (simp add: loop_inv_def)
  ultimately obtain r where r: "closure_loop ?imp [?s] [?s] = Some r" "loop_result ?imp [?s] r"
    using closure_loop_total [of ?U ?imp "[?s]" "[?s]"] by auto
  show ?thesis
  proof (cases r)
    case (Inl e)
    then show ?thesis using r by (auto simp: resolve_closure_loop loop_result_def)
  next
    case (Inr seen)
    then have "set seen = {q. import_reach ?imp ?s q}" using r(2) by (simp add: loop_result_def)
    then show ?thesis using r(1) by (auto simp: resolve_closure_loop Inr intro: import_reach.here)
  qed
qed

lemma resolve_closure_inside:
  assumes "resolve_closure f parse script repo = Some (Inr files)" "finite_fs f" "q \<in> set files"
  shows "is_relative_to q (fs_resolve f repo)"
proof -
  have "import_reach (script_imports f parse script repo) (fs_resolve f script) q" "q \<noteq> fs_resolve f script"
    using resolve_closure_result [OF assms(2), of parse script repo] assms(1,3) by auto
  then show ?thesis
    by (cases rule: import_reach.cases) (auto simp: script_imports_def dest: imports_of_Inr)
qed

text \<open>The closure is a function of the files in it: no other file's content plays a part.\<close>

lemma imports_of_cong:
  assumes "fs_is_file f' = fs_is_file f" "fs_resolve f' = fs_resolve f" "fs_read f' p = fs_read f p"
  shows "imports_of f' parse repo roots p = imports_of f parse repo roots p"
proof -
  have n: "resolve_name f' name roots = resolve_name f name roots" for name roots
    by (induction roots) (simp_all add: assms Let_def)
  have "name_candidates f' roots = name_candidates f roots"
    by (rule ext) (simp only: name_candidates_def n assms)
  then show ?thesis by (simp add: imports_of_def read_tree_def assms)
qed

lemma resolve_closure_local:
  assumes run: "resolve_closure f parse script repo = Some (Inr files)"
    and same: "fs_is_file f' = fs_is_file f" "fs_resolve f' = fs_resolve f"
    and read: "\<forall>p\<in>insert (fs_resolve f script) (set files). fs_read f' p = fs_read f p"
  shows "resolve_closure f' parse script repo = Some (Inr files)"
proof -
  let ?s = "fs_resolve f script"
  obtain seen where loop: "closure_loop (script_imports f parse script repo) [?s] [?s] = Some (Inr seen)"
    and files: "files = sort (remdups (filter (\<lambda>p. p \<noteq> ?s) seen))"
  proof -
    obtain r where r: "closure_loop (script_imports f parse script repo) [?s] [?s] = Some r"
      "map_sum id (\<lambda>seen. sort (remdups (filter (\<lambda>p. p \<noteq> ?s) seen))) r = Inr files"
      using run by (auto simp: resolve_closure_loop)
    then show thesis using that by (cases r) auto
  qed
  have "script_imports f' parse script repo p = script_imports f parse script repo p" if "p \<in> set seen" for p
  proof -
    have "fs_read f' p = fs_read f p" using that read files by (cases "p = ?s") auto
    then show ?thesis unfolding script_imports_def same by (rule imports_of_cong [OF same])
  qed
  then have "closure_loop (script_imports f' parse script repo) [?s] [?s] = Some (Inr seen)"
    using closure_loop_local(2) [OF loop, of seen "script_imports f' parse script repo"] by simp
  then show ?thesis by (simp add: resolve_closure_loop same files)
qed

end
