(* ===== verification/Lint.thy ===== *)
theory Lint
  imports Closure
begin

text \<open>
  The script linter (\<^verbatim>\<open>continuo_python_runtime/lint.py\<close>): forbidden drivers (L1), SQL text (L2),
  data-access calls (L3), private attributes (L4), dynamic imports (L5). \<^verbatim>\<open>ast.parse\<close> is a
  parameter; the regular expression for SQL is a function on the text. A report without entries
  is shown to mean that no node of the tree, however deep, breaks a rule.
\<close>

section \<open>The rules' tables\<close>

definition forbidden_drivers :: "string list" where
  "forbidden_drivers = [''psycopg2'', ''sqlalchemy'', ''trino'', ''snowflake'', ''pyodbc'', ''duckdb'',
     ''sqlite3'', ''pymysql'', ''mysql'', ''clickhouse_driver'', ''pyhive'']"

definition forbidden_calls :: "string list" where
  "forbidden_calls = [''read_sql'', ''read_sql_query'', ''read_sql_table'', ''execute'', ''read_database'']"

text \<open>
  \<open>SQL_PATTERN\<close>: after a word boundary, one of five statement heads, case ignored, where
  \<^verbatim>\<open>.\<close> is any character. \<open>eat p s\<close> is what is left of \<open>s\<close> after the word \<open>p\<close>.
\<close>

definition is_word_char :: "char \<Rightarrow> bool" where
  "is_word_char c = (let n = code_point c in
     is_digit c \<or> is_upper c \<or> is_lower c \<or> c = CHR ''_'' \<or> n \<in> {170, 178, 179, 181, 185, 186, 188, 189, 190}
     \<or> (192 \<le> n \<and> n \<noteq> 215 \<and> n \<noteq> 247))"

fun eat :: "string \<Rightarrow> string \<Rightarrow> string option" where
  "eat [] s = Some s"
| "eat (p # ps) [] = None"
| "eat (p # ps) (c # s) = (if upper_char c = upper_char p then eat ps s else None)"

text \<open>A word and one blank; a word, blanks (one or more), a word, one blank.\<close>

definition word_blank :: "string \<Rightarrow> string \<Rightarrow> string option" where
  "word_blank w s = (case eat w s of Some (c # r) \<Rightarrow> if is_space c then Some r else None | _ \<Rightarrow> None)"

definition two_words :: "string \<Rightarrow> string \<Rightarrow> string \<Rightarrow> bool" where
  "two_words a b s = (case word_blank a s of
     None \<Rightarrow> False
   | Some r \<Rightarrow> word_blank b (dropWhile is_space r) \<noteq> None)"

text \<open>A word and a blank, at least one character, a blank, a word and a blank.\<close>

fun blank_word_somewhere :: "string \<Rightarrow> string \<Rightarrow> bool" where
  "blank_word_somewhere w [] = False"
| "blank_word_somewhere w (c # r) = (is_space c \<and> word_blank w r \<noteq> None \<or> blank_word_somewhere w r)"

definition word_then :: "string \<Rightarrow> string \<Rightarrow> string \<Rightarrow> bool" where
  "word_then a b s = (case word_blank a s of
     Some (c # r) \<Rightarrow> blank_word_somewhere b r
   | _ \<Rightarrow> False)"

definition sql_head :: "string \<Rightarrow> bool" where
  "sql_head s \<longleftrightarrow> word_then ''select'' ''from'' s \<or> two_words ''insert'' ''into'' s
     \<or> word_then ''update'' ''set'' s \<or> two_words ''delete'' ''from'' s \<or> two_words ''create'' ''table'' s"

fun sql_search :: "bool \<Rightarrow> string \<Rightarrow> bool" where
  "sql_search after_word [] = False"
| "sql_search after_word (c # r) = (\<not> after_word \<and> sql_head (c # r) \<or> sql_search (is_word_char c) r)"

definition looks_like_sql :: "string \<Rightarrow> bool" where
  "looks_like_sql s = sql_search False s"

section \<open>Text spread over several nodes\<close>

definition reconstruct_joined_str :: "pyast list \<Rightarrow> string \<times> nat list" where
  "reconstruct_joined_str values =
     (concat (map (\<lambda>v. case v of StrConst l i s \<Rightarrow> s | _ \<Rightarrow> '' '') values),
      concat (map (\<lambda>v. case v of StrConst l i s \<Rightarrow> [i] | _ \<Rightarrow> []) values))"

fun collect_parts :: "pyast \<Rightarrow> (string \<times> nat list) option" where
  "collect_parts (StrConst l i s) = Some (s, [i])"
| "collect_parts (JoinedStr l vs) = Some (reconstruct_joined_str vs)"
| "collect_parts (BinOp l add x y) =
     (if add then (case (collect_parts x, collect_parts y) of
          (Some (s, i), Some (t, j)) \<Rightarrow> Some (s @ t, i @ j)
        | _ \<Rightarrow> None)
      else None)"
| "collect_parts _ = None"

fun docstring_at :: "pyast \<Rightarrow> nat list" where
  "docstring_at (Scope before (ExprStmt (StrConst l i s) # body) after) = [i]"
| "docstring_at _ = []"

definition docstring_ids :: "pyast \<Rightarrow> nat list" where
  "docstring_ids tree = concat (map docstring_at (walk tree))"

section \<open>The two passes\<close>

type_synonym entry = "nat \<times> string"

definition driver_entry :: "nat \<Rightarrow> string \<Rightarrow> entry list" where
  "driver_entry l name = (if root_module name \<in> set forbidden_drivers
     then [(l, ''forbidden warehouse driver import '' @ CHR 0x27 # root_module name @ [CHR 0x27])] else [])"

text \<open>First pass: the imports' entries, and the local names of imported data-access functions.\<close>

fun import_entries :: "pyast \<Rightarrow> entry list" where
  "import_entries (Import l names) = concat (map (\<lambda>a. driver_entry l (alias_name a)) names)"
| "import_entries (ImportFrom l m names level) =
     (case m of Some s \<Rightarrow> if s \<noteq> [] then driver_entry l s else [] | None \<Rightarrow> [])
     @ concat (map (\<lambda>a. if alias_name a \<in> set forbidden_calls
         then [(l, ''forbidden data-access import '' @ CHR 0x27 # alias_name a @ [CHR 0x27])] else []) names)"
| "import_entries _ = []"

definition local_name :: "import_alias \<Rightarrow> string" where
  "local_name a = (case alias_asname a of Some (c # s) \<Rightarrow> c # s | _ \<Rightarrow> alias_name a)"

fun imported_calls_at :: "pyast \<Rightarrow> string list" where
  "imported_calls_at (ImportFrom l m names level) =
     map local_name (filter (\<lambda>a. alias_name a \<in> set forbidden_calls) names)"
| "imported_calls_at _ = []"

definition snippet :: "string \<Rightarrow> string" where
  "snippet s = take 40 s @ (if length s > 40 then ''...'' else [])"

definition sql_entry :: "nat \<Rightarrow> string \<Rightarrow> entry list" where
  "sql_entry l s = (if looks_like_sql s
     then [(l, ''SQL string literal '' @ CHR 0x27 # snippet s @ [CHR 0x27])] else [])"

definition call_entry :: "nat \<Rightarrow> string \<Rightarrow> string list \<Rightarrow> entry list" where
  "call_entry l name names = (if name \<in> set names
     then [(l, ''forbidden data-access call '' @ CHR 0x27 # name @ [CHR 0x27])] else [])"

definition is_self_or_cls :: "pyast \<Rightarrow> bool" where
  "is_self_or_cls v = (case v of Name l i \<Rightarrow> i \<in> {''self'', ''cls''} | _ \<Rightarrow> False)"

text \<open>Second pass: one node, with the identities of the constants consumed so far.\<close>

fun second_pass_at :: "string list \<Rightarrow> nat list \<Rightarrow> nat list \<Rightarrow> pyast \<Rightarrow> entry list \<times> nat list" where
  "second_pass_at calls docs consumed (JoinedStr l vs) =
     (case reconstruct_joined_str vs of (s, ids) \<Rightarrow> (sql_entry l s, consumed @ ids))"
| "second_pass_at calls docs consumed (BinOp l add x y) =
     (case collect_parts (BinOp l add x y) of
        None \<Rightarrow> ([], consumed)
      | Some (s, ids) \<Rightarrow> (sql_entry l s, consumed @ ids))"
| "second_pass_at calls docs consumed (StrConst l i s) =
     (if i \<notin> set consumed \<and> i \<notin> set docs then sql_entry l s else [], consumed)"
| "second_pass_at calls docs consumed (Call l f args) =
     (case f of
        Attribute l' v a \<Rightarrow> (call_entry l a forbidden_calls, consumed)
      | Name l' i \<Rightarrow> (call_entry l i calls, consumed)
      | _ \<Rightarrow> ([], consumed))"
| "second_pass_at calls docs consumed (Attribute l v a) =
     (if starts_with ''_'' a \<and> \<not> is_self_or_cls v
      then [(l, ''private attribute access '' @ CHR 0x27 # a @ [CHR 0x27])] else [], consumed)"
| "second_pass_at calls docs consumed _ = ([], consumed)"

fun second_pass :: "string list \<Rightarrow> nat list \<Rightarrow> nat list \<Rightarrow> pyast list \<Rightarrow> entry list" where
  "second_pass calls docs consumed [] = []"
| "second_pass calls docs consumed (n # ns) =
     (case second_pass_at calls docs consumed n of (es, consumed') \<Rightarrow> es @ second_pass calls docs consumed' ns)"

section \<open>The report\<close>

definition tree_entries :: "pyast \<Rightarrow> entry list" where
  "tree_entries tree =
     (let nodes = walk tree in
      concat (map import_entries nodes)
      @ second_pass (concat (map imported_calls_at nodes)) (docstring_ids tree) [] nodes
      @ map (\<lambda>(l, c). (l, ''dynamic import construct '' @ CHR 0x27 # c @ [CHR 0x27])) (dynamic_import_violations tree))"

definition lint_source :: "(string \<Rightarrow> parsed) \<Rightarrow> string \<Rightarrow> string \<Rightarrow> string list res" where
  "lint_source parse source filename = (case parse source of
     SyntaxFailure l msg \<Rightarrow> Inr [filename @ '':'' @ l @ '': syntax error: '' @ msg]
   | ParseFailure e \<Rightarrow> Inl e
   | Parsed tree \<Rightarrow>
       Inr (map (\<lambda>(l, message). filename @ '':'' @ nat_str l @ '': '' @ message) (sort_key fst (tree_entries tree))))"

text \<open>
  \<open>lint_paths\<close>: what each path is, the files below a directory, the text of a file or the message
  of the \<^verbatim>\<open>OSError\<close> or \<^verbatim>\<open>UnicodeDecodeError\<close>, are the file system's.
\<close>

datatype path_kind = Missing | Directory "string list" | RegularFile

fun files_to_lint :: "(string \<Rightarrow> path_kind) \<Rightarrow> string list \<Rightarrow> string list \<times> string list" where
  "files_to_lint kind_of [] = ([], [])"
| "files_to_lint kind_of (p # ps) = (case files_to_lint kind_of ps of (violations, files) \<Rightarrow>
     (case kind_of p of
        Missing \<Rightarrow> ((p @ '': path does not exist'') # violations, files)
      | Directory py_files \<Rightarrow> (violations, sort py_files @ files)
      | RegularFile \<Rightarrow> (violations, p # files)))"

definition lint_file :: "(string \<Rightarrow> parsed) \<Rightarrow> (string \<Rightarrow> string + string) \<Rightarrow> string \<Rightarrow> string list res" where
  "lint_file parse read_text filepath = (case read_text filepath of
     Inl why \<Rightarrow> Inr [filepath @ '': unreadable: '' @ why]
   | Inr source \<Rightarrow> lint_source parse source filepath)"

definition lint_paths ::
  "(string \<Rightarrow> parsed) \<Rightarrow> (string \<Rightarrow> path_kind) \<Rightarrow> (string \<Rightarrow> string + string) \<Rightarrow> string list \<Rightarrow> string list res" where
  "lint_paths parse kind_of read_text paths = (case files_to_lint kind_of paths of (violations, files) \<Rightarrow>
     bind_res (traverse (lint_file parse read_text) files) (\<lambda>vss. Inr (violations @ concat vss)))"

section \<open>What a clean report means\<close>

fun node_clean :: "pyast \<Rightarrow> bool" where
  "node_clean (Import l names) \<longleftrightarrow>
     (\<forall>a\<in>set names. root_module (alias_name a) \<notin> set forbidden_drivers \<union> set dynamic_import_modules)"
| "node_clean (ImportFrom l m names level) \<longleftrightarrow>
     (\<forall>s. m = Some s \<longrightarrow> (s \<noteq> [] \<longrightarrow> root_module s \<notin> set forbidden_drivers) \<and> root_module s \<notin> set dynamic_import_modules)
     \<and> (\<forall>a\<in>set names. alias_name a \<notin> set forbidden_calls \<union> set dynamic_import_names)"
| "node_clean (Name l i) \<longleftrightarrow> i \<notin> set dynamic_import_names"
| "node_clean (Attribute l v a) \<longleftrightarrow> a \<notin> set dynamic_import_attrs \<and> (starts_with ''_'' a \<longrightarrow> is_self_or_cls v)"
| "node_clean (Call l f args) \<longleftrightarrow> (\<forall>l' v a. f = Attribute l' v a \<longrightarrow> a \<notin> set forbidden_calls)"
| "node_clean (JoinedStr l vs) \<longleftrightarrow> \<not> looks_like_sql (fst (reconstruct_joined_str vs))"
| "node_clean (BinOp l add x y) \<longleftrightarrow> (\<forall>s i. collect_parts (BinOp l add x y) = Some (s, i) \<longrightarrow> \<not> looks_like_sql s)"
| "node_clean _ \<longleftrightarrow> True"

text \<open>The constants a compound string swallows; a clean constant is one of them, a docstring, or
  no SQL.\<close>

fun swallowed :: "pyast \<Rightarrow> nat list" where
  "swallowed (JoinedStr l vs) = snd (reconstruct_joined_str vs)"
| "swallowed (BinOp l add x y) = (case collect_parts (BinOp l add x y) of Some (s, ids) \<Rightarrow> ids | None \<Rightarrow> [])"
| "swallowed _ = []"

definition constants_clean :: "pyast \<Rightarrow> bool" where
  "constants_clean t \<longleftrightarrow> (\<forall>l i s. StrConst l i s \<in> subnodes t \<longrightarrow> looks_like_sql s \<longrightarrow>
     i \<in> set (docstring_ids t) \<or> (\<exists>n\<in>subnodes t. i \<in> set (swallowed n)))"

lemma second_pass_at_consumed: "set (snd (second_pass_at calls docs consumed n)) = set consumed \<union> set (swallowed n)"
  by (cases "(calls, docs, consumed, n)" rule: second_pass_at.cases)
    (auto split: prod.splits option.splits pyast.splits)

lemma second_pass_Nil:
  "second_pass calls docs consumed ns = [] \<Longrightarrow> n \<in> set ns \<Longrightarrow>
     \<exists>c. set c \<subseteq> set consumed \<union> (\<Union>m\<in>set ns. set (swallowed m)) \<and> fst (second_pass_at calls docs c n) = []"
proof (induction ns arbitrary: consumed)
  case (Cons m ns)
  let ?c = "snd (second_pass_at calls docs consumed m)"
  have m: "fst (second_pass_at calls docs consumed m) = []" and ns: "second_pass calls docs ?c ns = []"
    using Cons.prems(1) by (auto split: prod.splits)
  show ?case
  proof (cases "n = m")
    case True
    then show ?thesis using m by (intro exI [of _ consumed]) auto
  next
    case False
    then obtain c where "set c \<subseteq> set ?c \<union> (\<Union>m\<in>set ns. set (swallowed m))" "fst (second_pass_at calls docs c n) = []"
      using Cons.IH [OF ns] Cons.prems(2) by auto
    then show ?thesis unfolding second_pass_at_consumed by (intro exI [of _ c]) auto
  qed
qed simp

lemma sql_entry_Nil: "sql_entry l s = [] \<longleftrightarrow> \<not> looks_like_sql s"
  by (simp add: sql_entry_def)

lemma call_entry_Nil: "call_entry l a names = [] \<longleftrightarrow> a \<notin> set names"
  by (simp add: call_entry_def)

lemma driver_entry_Nil: "driver_entry l s = [] \<longleftrightarrow> root_module s \<notin> set forbidden_drivers"
  by (simp add: driver_entry_def)

lemma node_clean_intro:
  assumes "import_entries n = []" "dynamic_at n = []" "fst (second_pass_at calls docs c n) = []"
  shows "node_clean n"
proof (cases n)
  case (ImportFrom l m names level)
  have names: "\<forall>a\<in>set names. alias_name a \<notin> set forbidden_calls"
    using assms(1) unfolding ImportFrom import_entries.simps by (auto split: if_splits)
  show ?thesis
  proof (cases m)
    case None
    then show ?thesis using names assms(2) unfolding ImportFrom by auto
  next
    case (Some s)
    have "s \<noteq> [] \<longrightarrow> root_module s \<notin> set forbidden_drivers"
      using assms(1) unfolding ImportFrom Some import_entries.simps by (auto simp: driver_entry_Nil)
    moreover have "root_module s \<notin> set dynamic_import_modules"
      using assms(2) unfolding ImportFrom Some dynamic_at.simps by (auto split: if_splits)
    moreover have "\<forall>a\<in>set names. alias_name a \<notin> set dynamic_import_names"
      using assms(2) unfolding ImportFrom Some dynamic_at.simps by (auto split: if_splits)
    ultimately show ?thesis using names unfolding ImportFrom Some by simp
  qed
next
  case (BinOp l add x y)
  then show ?thesis using assms(3)
    by (cases "collect_parts (BinOp l add x y)")
      (auto simp: sql_entry_Nil simp del: collect_parts.simps)
next
  case (JoinedStr l vs)
  then show ?thesis using assms(3)
    by (cases "reconstruct_joined_str vs") (simp add: sql_entry_Nil)
qed (use assms in \<open>auto simp: call_entry_Nil driver_entry_Nil split: if_splits\<close>)

lemma tree_entries_Nil:
  assumes "tree_entries t = []"
  shows "\<forall>n\<in>subnodes t. node_clean n" and "constants_clean t"
proof -
  let ?calls = "concat (map imported_calls_at (walk t))" and ?docs = "docstring_ids t"
  have i: "\<forall>n\<in>subnodes t. import_entries n = []" and p: "second_pass ?calls ?docs [] (walk t) = []"
    and d: "\<forall>n\<in>subnodes t. dynamic_at n = []"
    using assms by (auto simp: tree_entries_def Let_def set_walk no_dynamic_imports)
  have s: "\<exists>c. set c \<subseteq> (\<Union>m\<in>subnodes t. set (swallowed m)) \<and> fst (second_pass_at ?calls ?docs c n) = []"
    if "n \<in> subnodes t" for n
    using second_pass_Nil [OF p, of n] that by (simp add: set_walk)
  show "\<forall>n\<in>subnodes t. node_clean n"
    using i d s by (blast intro: node_clean_intro)
  show "constants_clean t"
    unfolding constants_clean_def
  proof (intro allI impI)
    fix l i v
    assume "StrConst l i v \<in> subnodes t" and sql: "looks_like_sql v"
    from s [OF this(1)] obtain c where "set c \<subseteq> (\<Union>m\<in>subnodes t. set (swallowed m))"
      "fst (second_pass_at ?calls ?docs c (StrConst l i v)) = []" by blast
    then show "i \<in> set ?docs \<or> (\<exists>n\<in>subnodes t. i \<in> set (swallowed n))"
      using sql by (auto simp: sql_entry_Nil split: if_splits)
  qed
qed

lemma sort_key_Nil [simp]: "sort_key f xs = [] \<longleftrightarrow> xs = []"
  by (metis length_0_conv length_sort)

lemma lint_source_Nil:
  "lint_source parse source filename = Inr [] \<longleftrightarrow> (\<exists>t. parse source = Parsed t \<and> tree_entries t = [])"
  by (auto simp: lint_source_def split: parsed.splits)

lemma traverse_concat_Nil:
  "traverse f xs = Inr yss \<Longrightarrow> concat yss = [] \<Longrightarrow> x \<in> set xs \<Longrightarrow> f x = Inr []"
  by (auto simp: traverse_eq_Inr list_all2_conv_all_nth in_set_conv_nth) (metis nth_mem)

lemma lint_paths_Nil:
  assumes "lint_paths parse kind_of read_text paths = Inr []" "p \<in> set paths"
  shows "(case kind_of p of Missing \<Rightarrow> False
    | Directory files \<Rightarrow> \<forall>q\<in>set files. lint_file parse read_text q = Inr []
    | RegularFile \<Rightarrow> lint_file parse read_text p = Inr [])"
proof -
  have fs: "fst (files_to_lint kind_of ps) = [] \<Longrightarrow> p \<in> set ps \<Longrightarrow> (case kind_of p of Missing \<Rightarrow> False
      | Directory files \<Rightarrow> set files \<subseteq> set (snd (files_to_lint kind_of ps))
      | RegularFile \<Rightarrow> p \<in> set (snd (files_to_lint kind_of ps)))" for ps
    by (induction ps) (auto split: path_kind.splits prod.splits)
  obtain yss where "traverse (lint_file parse read_text) (snd (files_to_lint kind_of paths)) = Inr yss"
    "fst (files_to_lint kind_of paths) = []" "concat yss = []"
    using assms(1) by (auto simp: lint_paths_def res_simps split: prod.splits)
  then show ?thesis
    using fs [of paths] assms(2) traverse_concat_Nil [of "lint_file parse read_text" "snd (files_to_lint kind_of paths)" yss]
    by (auto split: path_kind.splits)
qed

end
