(* ===== verification/Merge.thy ===== *)
theory Merge
  imports Hashing Lint
begin

text \<open>
  The wire contract (\<^verbatim>\<open>continuo_python_runtime/contract/merge.py\<close>, with
  \<^verbatim>\<open>contract/paths.py\<close>): every loaded node with its hashes, sorted by relation. A run may fail
  to return (the closure's worklist), so it is a result under an option. The text of a file is
  what \<open>decode\<close> makes of its bytes (\<^verbatim>\<open>utf-8-sig\<close>), or its error message.
\<close>

section \<open>Runs\<close>

type_synonym 'a run = "'a res option"

definition bind_run :: "'a run \<Rightarrow> ('a \<Rightarrow> 'b run) \<Rightarrow> 'b run" where
  "bind_run x f = (case x of None \<Rightarrow> None | Some (Inl e) \<Rightarrow> Some (Inl e) | Some (Inr a) \<Rightarrow> f a)"

definition lift :: "'a res \<Rightarrow> 'a run" where "lift x = Some x"

fun traverse_run :: "('a \<Rightarrow> 'b run) \<Rightarrow> 'a list \<Rightarrow> 'b list run" where
  "traverse_run f [] = Some (Inr [])"
| "traverse_run f (x # xs) = bind_run (f x) (\<lambda>y. bind_run (traverse_run f xs) (\<lambda>ys. Some (Inr (y # ys))))"

lemma bind_run_eq_Inr [res_simps]: "bind_run x f = Some (Inr b) \<longleftrightarrow> (\<exists>a. x = Some (Inr a) \<and> f a = Some (Inr b))"
  by (auto simp: bind_run_def split: option.splits sum.splits)

lemma lift_eq [res_simps]: "lift x = Some y \<longleftrightarrow> x = y"
  by (simp add: lift_def)

lemma traverse_run_eq_Inr: "traverse_run f xs = Some (Inr ys) \<longleftrightarrow> list_all2 (\<lambda>x y. f x = Some (Inr y)) xs ys"
proof (induction xs arbitrary: ys)
  case Nil
  then show ?case by auto
next
  case (Cons x xs)
  then show ?case by (auto simp: res_simps list_all2_Cons1)
qed

lemma bind_run_total: "\<exists>r. x = Some r \<Longrightarrow> (\<And>a. x = Some (Inr a) \<Longrightarrow> \<exists>r. f a = Some r) \<Longrightarrow> \<exists>r. bind_run x f = Some r"
  by (auto simp: bind_run_def split: sum.splits)

lemma traverse_run_total: "(\<And>x. x \<in> set xs \<Longrightarrow> \<exists>r. f x = Some r) \<Longrightarrow> \<exists>r. traverse_run f xs = Some r"
  by (induction xs) (simp_all add: bind_run_total)

section \<open>The script of a node\<close>

definition script_components :: "string \<Rightarrow> string list" where
  "script_components s = filter (\<lambda>c. c \<noteq> [] \<and> c \<noteq> ''.'') (split_on (CHR ''/'') s)"

definition resolve_script_path :: "fs \<Rightarrow> string \<Rightarrow> path \<Rightarrow> string \<Rightarrow> path res" where
  "resolve_script_path f script repo_root label =
     (if starts_with ''/'' script then
        raise_contract (label @ '': script path '' @ repr_str script @ '' must be relative to the repository root'')
      else
        let script_path = fs_resolve f (repo_root @ script_components script) in
        if \<not> is_relative_to script_path (fs_resolve f repo_root) then
          raise_contract (label @ '': script path '' @ repr_str script @ '' escapes the repository root'')
        else if \<not> fs_is_file f script_path then
          raise_contract (label @ '': script not found: '' @ script)
        else Inr script_path)"

section \<open>The closure lint\<close>

definition lint_member ::
  "(string \<Rightarrow> parsed) \<Rightarrow> (string \<Rightarrow> string + string) \<Rightarrow> node \<Rightarrow> path \<Rightarrow> path \<times> string \<Rightarrow> string list res" where
  "lint_member parse decode n repo_root_resolved pd = (case pd of (p, data) \<Rightarrow>
     bind_res (relative_to p repo_root_resolved) (\<lambda>rel.
     case decode data of
       Inl why \<Rightarrow> raise_contract (relation n @ '': '' @ path_text rel @ '': not valid UTF-8: '' @ why)
     | Inr text \<Rightarrow> lint_source parse text (path_text rel)))"

definition lint_node_closure ::
  "fs \<Rightarrow> (string \<Rightarrow> parsed) \<Rightarrow> (string \<Rightarrow> string + string) \<Rightarrow> node \<Rightarrow> path \<Rightarrow> path \<Rightarrow> string \<Rightarrow>
   path list \<Rightarrow> string list \<Rightarrow> unit res" where
  "lint_node_closure f parse decode n repo_root script_path script_bytes closure member_bytes =
     bind_res (traverse (lint_member parse decode n (fs_resolve f repo_root))
       ((script_path, script_bytes) # zip closure member_bytes)) (\<lambda>vss.
     case concat vss of
       [] \<Rightarrow> Inr ()
     | vs \<Rightarrow> raise_contract (relation n @ '': lint violations in script or import closure:'' @ newline # join [newline] vs))"

section \<open>What is hashed\<close>

definition script_hash_inputs ::
  "fs \<Rightarrow> (string \<Rightarrow> parsed) \<Rightarrow> (string \<Rightarrow> string + string) \<Rightarrow> node \<Rightarrow> path \<Rightarrow> (string \<times> string list) run" where
  "script_hash_inputs f parse decode n repo_root =
     bind_run (lift (resolve_script_path f (node_script n) repo_root (relation n))) (\<lambda>script_path.
     bind_run (lift (fs_read f script_path)) (\<lambda>script_bytes.
     bind_run (resolve_closure f parse script_path repo_root) (\<lambda>closure.
     bind_run (lift (traverse (fs_read f) closure)) (\<lambda>member_bytes.
     bind_run (lift (lint_node_closure f parse decode n repo_root script_path script_bytes closure member_bytes)) (\<lambda>_.
     Some (Inr (script_bytes, member_bytes)))))))"

definition csv_hash_inputs :: "node \<Rightarrow> (string \<times> string list) res" where
  "csv_hash_inputs n = (case map_of (node_reads n) ''csv'' of
     None \<Rightarrow> Inl (Exn KeyError (repr_str ''csv''))
   | Some uri \<Rightarrow> Inr (utf8 uri, []))"

definition hash_inputs ::
  "fs \<Rightarrow> (string \<Rightarrow> parsed) \<Rightarrow> (string \<Rightarrow> string + string) \<Rightarrow> node \<Rightarrow> path \<Rightarrow> (string \<times> string list) run" where
  "hash_inputs f parse decode n repo_root =
     (if node_kind n = ''python-node'' \<or> node_kind n = ''python-api'' then script_hash_inputs f parse decode n repo_root
      else if node_kind n = ''python-csv'' then lift (csv_hash_inputs n)
      else Some (Inl (Exn KeyError (repr_str (node_kind n)))))"

section \<open>The document\<close>

definition wire_entry :: "node \<Rightarrow> (string \<times> string) list \<Rightarrow> pydict" where
  "wire_entry n parts = node_entry n @ map (\<lambda>(k, s). (PStr k, PStr s)) parts
     @ (case node_timeout_minutes n of None \<Rightarrow> [] | Some t \<Rightarrow> [(PStr ''timeout_minutes'', PInt t)])"

definition wire_node ::
  "fs \<Rightarrow> (string \<Rightarrow> parsed) \<Rightarrow> (string \<Rightarrow> string + string) \<Rightarrow> path \<Rightarrow> node \<Rightarrow> pydict run" where
  "wire_node f parse decode repo_root n =
     bind_run (hash_inputs f parse decode n repo_root) (\<lambda>(primary_bytes, member_bytes).
     bind_run (lift (hash_parts (node_entry n) primary_bytes member_bytes)) (\<lambda>parts.
     Some (Inr (wire_entry n parts))))"

definition entry_relation :: "pydict \<Rightarrow> string" where
  "entry_relation e = text_of (get_or_none e ''schema'') @ ''.'' @ text_of (get_or_none e ''table'')"

definition build_wire_contract ::
  "fs \<Rightarrow> (string \<Rightarrow> parsed) \<Rightarrow> (string \<Rightarrow> string + string) \<Rightarrow> node list res \<Rightarrow> path \<Rightarrow> string \<Rightarrow> pydict run" where
  "build_wire_contract f parse decode loaded repo_root service =
     bind_run (lift loaded) (\<lambda>nodes.
     bind_run (traverse_run (wire_node f parse decode repo_root) nodes) (\<lambda>wire_nodes.
     Some (Inr [(PStr ''contract_version'', PInt contract_version), (PStr ''service'', PStr service),
       (PStr ''nodes'', PList (map PDict (sort_key entry_relation wire_nodes)))])))"

section \<open>One entry\<close>

lemma entry_relation_wire [simp]: "entry_relation (wire_entry n parts) = relation n"
  by (simp add: entry_relation_def wire_entry_def node_entry_def get_or_none_def dict_get_def relation_def)

text \<open>The hash fields and the timeout of the entry are not in its own basis: it can be hashed again.\<close>

lemma canonical_wire_entry:
  assumes "fst ` set parts \<subseteq> set dropped_fields"
  shows "canonical_entry (wire_entry n parts) = canonical_entry (node_entry n)"
proof -
  have "filter (\<lambda>(k, v). k \<notin> PStr ` set dropped_fields) (map (\<lambda>(k, s). (PStr k, PStr s)) parts) = []"
    using assms by (auto simp: filter_empty_conv)
  moreover have "''timeout_minutes'' \<in> set dropped_fields" by (simp add: dropped_fields_def non_hashed_fields_def)
  ultimately show ?thesis
    by (cases "node_timeout_minutes n") (simp_all add: canonical_entry_def wire_entry_def)
qed

lemma hash_parts_eq_Inr:
  "hash_parts entry s ms = Inr parts \<longleftrightarrow> (\<exists>c. config_hash entry = Inr c \<and>
     parts = [(''source_hash'', source_hash s), (''shared_code_hash'', shared_code_hash ms), (''config_hash'', c),
       (''content_hash'', content_hash_fold (source_hash s) (shared_code_hash ms) c)])"
  by (auto simp: hash_parts_def Let_def res_simps)

lemma hash_parts_fields: "hash_parts entry s ms = Inr parts \<Longrightarrow> fst ` set parts \<subseteq> set dropped_fields"
  by (auto simp: hash_parts_eq_Inr dropped_fields_def hash_part_fields_def content_hash_field_def)

lemma config_hash_wire:
  "hash_parts (node_entry n) s ms = Inr parts \<Longrightarrow> config_hash (wire_entry n parts) = config_hash (node_entry n)"
  by (simp add: config_hash_def canonical_json_def canonical_wire_entry [OF hash_parts_fields])

definition entry_text :: "pydict \<Rightarrow> string \<Rightarrow> string" where
  "entry_text e k = text_of (get_or_none e k)"

text \<open>What the controller recomputes.\<close>

definition entry_hashes_ok :: "pydict \<Rightarrow> bool" where
  "entry_hashes_ok e \<longleftrightarrow> config_hash e = Inr (entry_text e ''config_hash'')
     \<and> entry_text e ''content_hash'' =
       content_hash_fold (entry_text e ''source_hash'') (entry_text e ''shared_code_hash'') (entry_text e ''config_hash'')"

lemma wire_entry_hashes:
  assumes "hash_parts (node_entry n) s ms = Inr parts"
  shows "entry_hashes_ok (wire_entry n parts)"
    and "entry_text (wire_entry n parts) ''source_hash'' = source_hash s"
    and "entry_text (wire_entry n parts) ''shared_code_hash'' = shared_code_hash ms"
proof -
  obtain c where c: "config_hash (node_entry n) = Inr c"
    and parts: "parts = [(''source_hash'', source_hash s), (''shared_code_hash'', shared_code_hash ms), (''config_hash'', c),
       (''content_hash'', content_hash_fold (source_hash s) (shared_code_hash ms) c)]"
    using assms by (auto simp: hash_parts_eq_Inr)
  have get: "entry_text (wire_entry n parts) k = (case map_of parts k of Some s \<Rightarrow> s | None \<Rightarrow> entry_text (wire_entry n parts) k)"
    if "k \<in> {''source_hash'', ''shared_code_hash'', ''config_hash'', ''content_hash''}" for k
    using that by (auto simp: parts wire_entry_def node_entry_def entry_text_def get_or_none_def dict_get_def)
  show "entry_text (wire_entry n parts) ''source_hash'' = source_hash s"
    "entry_text (wire_entry n parts) ''shared_code_hash'' = shared_code_hash ms"
    using get [of "''source_hash''"] get [of "''shared_code_hash''"] by (simp_all add: parts)
  then show "entry_hashes_ok (wire_entry n parts)"
    using get [of "''config_hash''"] get [of "''content_hash''"] config_hash_wire [OF assms] c
    by (simp add: entry_hashes_ok_def parts)
qed

section \<open>The closure behind a hash\<close>

lemma lint_member_Nil:
  "lint_member parse decode n repo (p, data) = Inr [] \<Longrightarrow>
     \<exists>text t. decode data = Inr text \<and> parse text = Parsed t \<and> tree_entries t = []"
  by (cases "decode data") (auto simp: lint_member_def res_simps lint_source_Nil)

lemma lint_node_closure_Inr:
  assumes "lint_node_closure f parse decode n repo sp sb closure mb = Inr ()"
    and "data \<in> set (sb # mb)" "length mb = length closure"
  shows "\<exists>text t. decode data = Inr text \<and> parse text = Parsed t \<and> tree_entries t = []"
proof -
  obtain vss where "traverse (lint_member parse decode n (fs_resolve f repo)) ((sp, sb) # zip closure mb) = Inr vss"
    and "concat vss = []"
  proof -
    obtain vss where vss: "traverse (lint_member parse decode n (fs_resolve f repo)) ((sp, sb) # zip closure mb) = Inr vss"
      "(case concat vss of [] \<Rightarrow> Inr () | vs \<Rightarrow> raise_contract (relation n
        @ '': lint violations in script or import closure:'' @ newline # join [newline] vs)) = Inr ()"
      using assms(1) unfolding lint_node_closure_def bind_res_eq_Inr by blast
    show thesis by (rule that [OF vss(1)]) (use vss(2) in \<open>cases "concat vss"; simp\<close>)
  qed
  note Nil = traverse_concat_Nil [OF this]
  obtain p where "(p, data) \<in> set ((sp, sb) # zip closure mb)"
  proof (cases "data = sb")
    case False
    then have "data \<in> set mb" using assms(2) by simp
    then obtain i where "i < length mb" "mb ! i = data" by (auto simp: in_set_conv_nth)
    then have "(closure ! i, data) \<in> set (zip closure mb)" using assms(3) by (auto simp: set_zip)
    then show thesis using that by auto
  qed (use that in auto)
  from Nil [OF this] show ?thesis by (rule lint_member_Nil)
qed

lemma script_hash_inputs_Inr:
  assumes "script_hash_inputs f parse decode n repo = Some (Inr (sb, mb))"
  obtains sp closure where "resolve_script_path f (node_script n) repo (relation n) = Inr sp"
    "fs_read f sp = Inr sb" "resolve_closure f parse sp repo = Some (Inr closure)"
    "traverse (fs_read f) closure = Inr mb"
    "lint_node_closure f parse decode n repo sp sb closure mb = Inr ()"
  using assms by (auto simp: script_hash_inputs_def res_simps)

lemma script_hash_inputs_clean:
  assumes "script_hash_inputs f parse decode n repo = Some (Inr (sb, mb))" "data \<in> set (sb # mb)"
  shows "\<exists>text t. decode data = Inr text \<and> parse text = Parsed t \<and> tree_entries t = []"
  by (rule script_hash_inputs_Inr [OF assms(1)])
    (rule lint_node_closure_Inr [OF _ assms(2)], auto dest: traverse_length)

lemma resolve_closure_total: "finite_fs f \<Longrightarrow> \<exists>r. resolve_closure f parse script repo = Some r"
  using resolve_closure_result by blast

lemma hash_inputs_total:
  assumes "finite_fs f"
  shows "\<exists>r. hash_inputs f parse decode n repo = Some r"
proof -
  have "\<exists>r. script_hash_inputs f parse decode n repo = Some r"
    unfolding script_hash_inputs_def
    by (intro bind_run_total) (use resolve_closure_total [OF assms] in \<open>auto simp: lift_def\<close>)
  then show ?thesis by (simp add: hash_inputs_def lift_def)
qed

section \<open>The document\<close>

lemma build_wire_contract_total:
  assumes "finite_fs f"
  shows "\<exists>r. build_wire_contract f parse decode loaded repo service = Some r"
  unfolding build_wire_contract_def wire_node_def
  by (intro bind_run_total traverse_run_total)
    (use hash_inputs_total [OF assms] in \<open>auto simp: lift_def intro!: bind_run_total\<close>)

lemma build_wire_contract_Inr:
  assumes "build_wire_contract f parse decode (Inr nodes) repo service = Some (Inr doc)"
  obtains wires where "list_all2 (\<lambda>n e. wire_node f parse decode repo n = Some (Inr e)) nodes wires"
    "dict_get doc ''nodes'' = Some (PList (map PDict (sort_key entry_relation wires)))"
  using assms
  by (auto simp: build_wire_contract_def res_simps traverse_run_eq_Inr dict_get_def)

lemma wire_node_Inr:
  assumes "wire_node f parse decode repo n = Some (Inr e)"
  obtains sb mb parts where "hash_inputs f parse decode n repo = Some (Inr (sb, mb))"
    "hash_parts (node_entry n) sb mb = Inr parts" "e = wire_entry n parts"
  using assms by (auto simp: wire_node_def res_simps)

lemma wire_relations:
  "list_all2 (\<lambda>n e. wire_node f parse decode repo n = Some (Inr e)) nodes wires \<Longrightarrow>
     map entry_relation wires = map relation nodes"
  by (induction rule: list_all2_induct) (auto elim: wire_node_Inr)

lemma sorted_wires:
  assumes "distinct (map relation nodes)"
    and "list_all2 (\<lambda>n e. wire_node f parse decode repo n = Some (Inr e)) nodes wires"
  shows "sorted_wrt (<) (map entry_relation (sort_key entry_relation wires))"
proof -
  have "distinct (map entry_relation wires)" using assms wire_relations by metis
  then have "distinct (map entry_relation (sort_key entry_relation wires))"
    by (metis mset_eq_imp_distinct_iff mset_map mset_sort)
  then show ?thesis by (simp add: strict_sorted_iff)
qed

end

