(* ===== verification/ResultBlock.thy ===== *)
theory ResultBlock
  imports Json
begin

text \<open>
  The sentinel-framed result block (\<^verbatim>\<open>contract/continuo_engine_contract/result.py\<close>) and the
  message of a harness error (\<^verbatim>\<open>continuo_python_runtime/errors.py\<close>). The block is three
  lines whatever the message holds, its body is one line of printable ASCII that is neither
  marker, and it determines every field that went in.
\<close>

definition sentinel_begin :: string where
  "sentinel_begin = ''===CONTINUO_VALIDATION_RESULT_BEGIN===''"

definition sentinel_end :: string where
  "sentinel_end = ''===CONTINUO_VALIDATION_RESULT_END===''"

definition schema_version :: int where
  "schema_version = 1"

definition result_body :: "string \<Rightarrow> string \<Rightarrow> int \<Rightarrow> string \<Rightarrow> json" where
  "result_body status message failures unique_id = JObj
     [(''schema_version'', JInt schema_version),
      (''status'', JStr status),
      (''message'', JStr message),
      (''failures'', JInt failures),
      (''unique_id'', JStr unique_id)]"

definition result_block :: "string \<Rightarrow> string \<Rightarrow> int \<Rightarrow> string \<Rightarrow> string" where
  "result_block status message failures unique_id =
     sentinel_begin @ [newline] @ dumps (result_body status message failures unique_id)
       @ [newline] @ sentinel_end"

section \<open>Harness errors\<close>

fun harness_class_name :: "harness_class \<Rightarrow> string" where
  "harness_class_name ContractError = ''ContractError''"
| "harness_class_name ReadError = ''ReadError''"
| "harness_class_name ScriptError = ''ScriptError''"
| "harness_class_name ConformError = ''ConformError''"
| "harness_class_name LoadError = ''LoadError''"

definition sentinel_message :: "harness_class \<Rightarrow> string \<Rightarrow> string" where
  "sentinel_message c m = harness_class_name c @ '': '' @ m"

text \<open>What the remediation classifier does with a message: read the class before the colon.\<close>

definition error_class_of :: "string \<Rightarrow> string" where
  "error_class_of msg = before_char (CHR '':'') msg"

lemma harness_class_name_inject: "harness_class_name a = harness_class_name b \<longleftrightarrow> a = b"
  by (cases a; cases b) simp_all

lemma error_class_of_sentinel: "error_class_of (sentinel_message c m) = harness_class_name c"
proof -
  have "CHR '':'' \<notin> set (harness_class_name c)" by (cases c) simp_all
  then show ?thesis
    using before_char_append [of "CHR '':''" "harness_class_name c" "'' '' @ m"]
    by (simp add: error_class_of_def sentinel_message_def)
qed

section \<open>The block\<close>

lemma wf_result_body [simp]: "wf_json (result_body s m f u)"
  by (simp add: result_body_def)

lemma sentinels_no_newline [simp]: "newline \<notin> set sentinel_begin" "newline \<notin> set sentinel_end"
  by (simp_all add: sentinel_begin_def sentinel_end_def)

lemma body_no_newline: "newline \<notin> set (dumps (result_body s m f u))"
  using dumps_printable [OF wf_result_body] newline_not_printable by blast

lemma body_not_sentinel:
  "dumps (result_body s m f u) \<noteq> sentinel_begin" "dumps (result_body s m f u) \<noteq> sentinel_end"
  by (simp_all add: result_body_def sentinel_begin_def sentinel_end_def)

lemma result_block_lines:
  "split_on newline (result_block s m f u) =
     [sentinel_begin, dumps (result_body s m f u), sentinel_end]"
  using body_no_newline [of s m f u]
  by (simp add: result_block_def split_on_append split_on_free)

lemma result_body_inject:
  "result_body s m f u = result_body s' m' f' u' \<longleftrightarrow> s = s' \<and> m = m' \<and> f = f' \<and> u = u'"
  by (auto simp: result_body_def)

lemma result_block_inject:
  "result_block s m f u = result_block s' m' f' u' \<longleftrightarrow> s = s' \<and> m = m' \<and> f = f' \<and> u = u'"
  unfolding result_body_inject [symmetric]
  by (auto simp: result_block_def dest: dumps_inject [rotated 2])

end
