(* ===== verification/Harness.thy ===== *)
theory Harness
  imports RunContext Merge ResultBlock
begin

text \<open>
  The container entrypoint (\<^verbatim>\<open>continuo_python_runtime/harness.py\<close>, with
  \<^verbatim>\<open>csv_loader.py\<close>): from the environment to the one result block. The warehouse, the loaded
  contract, the import of a module, the reader of a csv file and pyarrow are parameters; every
  check, every order of calls and every translation of an exception is the code's. An exception
  stands for one below Python's \<^verbatim>\<open>Exception\<close>.
\<close>

section \<open>Finding the node\<close>

type_synonym env = "string \<Rightarrow> string option"

definition env_get :: "env \<Rightarrow> string \<Rightarrow> string" where
  "env_get env key = (case env key of None \<Rightarrow> [] | Some v \<Rightarrow> v)"

definition require_env :: "env \<Rightarrow> string \<Rightarrow> string res" where
  "require_env env key = (if env_get env key = []
     then raise_contract (''missing required environment variable '' @ repr_str key)
     else Inr (env_get env key))"

definition select_node :: "node list \<Rightarrow> string \<Rightarrow> node res" where
  "select_node nodes node_id = (let segments = split_on (CHR ''.'') node_id in
     if length segments < 2 then
       raise_contract (''node_id '' @ repr_str node_id @ '' must have at least 2 dot-separated segments (schema.table)'')
     else let schema = last (butlast segments); tbl = last segments in
       (case find (\<lambda>n. node_schema n = schema \<and> node_table n = tbl) nodes of
          Some n \<Rightarrow> Inr n
        | None \<Rightarrow> raise_contract (''no node matches '' @ repr_str node_id @ '' (schema='' @ repr_str schema
            @ '', table='' @ repr_str tbl @ ''); available relations: '' @ repr_strs (sort (map relation nodes)))))"

section \<open>Loading the script\<close>

text \<open>\<open>ensure_import_paths\<close> on \<^verbatim>\<open>sys.path\<close>: each entry is moved to the front, the repository
  root last, so first.\<close>

definition move_front :: "'a \<Rightarrow> 'a list \<Rightarrow> 'a list" where
  "move_front entry sys_path = entry # remove1 entry sys_path"

definition ensure_import_paths :: "'a \<Rightarrow> 'a \<Rightarrow> 'a list \<Rightarrow> 'a list" where
  "ensure_import_paths repo_root script_dir sys_path = move_front repo_root (move_front script_dir sys_path)"

text \<open>
  What importing a file gives: no loader for it, an exception of the module's code, or the module
  with its \<open>run\<close> when that is callable.
\<close>

type_synonym importer = "path \<Rightarrow> (exn + script option) option"

definition load_script :: "fs \<Rightarrow> importer \<Rightarrow> node \<Rightarrow> path \<Rightarrow> script res" where
  "load_script f import_file n repo_root =
     bind_res (resolve_script_path f (node_script n) repo_root (relation n)) (\<lambda>script_path.
     case import_file script_path of
       None \<Rightarrow> raise_contract (''cannot load script: '' @ node_script n)
     | Some (Inl e) \<Rightarrow> Inl (Exn (Harness ScriptError) (''script import failed: '' @ exn_text e))
     | Some (Inr None) \<Rightarrow> Inl (Exn (Harness ScriptError) (''script '' @ node_script n @ '' has no callable '' @ repr_str ''run''))
     | Some (Inr (Some sc)) \<Rightarrow> Inr sc)"

section \<open>The csv source\<close>

text \<open>\<open>fetch_csv\<close> is the reader's download and pyarrow's parse with the declared types.\<close>

definition csv_types :: "column list \<Rightarrow> (string \<times> arrow_type) list res" where
  "csv_types cs = traverse (\<lambda>c. bind_res (parse_sql_type (col_type c)) (\<lambda>s.
     bind_res (arrow_type_of s) (\<lambda>a. Inr (col_name c, a)))) cs"

definition csv_failure :: "node \<Rightarrow> exn \<Rightarrow> exn" where
  "csv_failure n e = (if exn_kind e = Harness LoadError then e
     else Exn (Harness LoadError) (''csv fetch failed for '' @ relation n @ '': '' @ exn_text e))"

definition produce_csv ::
  "(csv_uri \<Rightarrow> (string \<times> arrow_type) list \<Rightarrow> arrow_table res) \<Rightarrow> node \<Rightarrow> arrow_table res" where
  "produce_csv fetch_csv n = (case map_of (node_reads n) ''csv'' of
     None \<Rightarrow> Inl (Exn KeyError (repr_str ''csv''))
   | Some raw \<Rightarrow>
       bind_res (parse_csv_uri (PStr raw)) (\<lambda>uri.
       bind_res (csv_types (node_output_columns n)) (\<lambda>column_types.
       map_exn (csv_failure n) (fetch_csv uri column_types))))"

section \<open>The run of one node\<close>

text \<open>The world around a run.\<close>

record 'w harness =
  h_fs :: fs
  h_import :: importer
  h_fetch_csv :: "csv_uri \<Rightarrow> (string \<times> arrow_type) list \<Rightarrow> arrow_table res"
  h_pandas :: bool
  h_cast :: caster
  h_load_contracts :: "string \<Rightarrow> node list res"
  h_entry_points :: "(string \<times> (string + (string list \<times> 'w adapter res) option)) list"
  h_environ :: env

text \<open>A class is its required variables and what constructing it from the environment gives.\<close>

definition build_adapter :: "'w harness \<Rightarrow> 'w adapter res" where
  "build_adapter h = bind_res (discover_adapter (h_entry_points h)) (\<lambda>(engine, required, from_env).
     let missing = filter (\<lambda>k. env_get (h_environ h) k = []) required in
     if missing \<noteq> [] then raise_load (''missing required warehouse env: '' @ repr_strs (sort missing))
     else from_env)"

fun exn_class_name :: "exn_class \<Rightarrow> string" where
  "exn_class_name (Harness c) = harness_class_name c"
| "exn_class_name ValueError = ''ValueError''"
| "exn_class_name TypeError = ''TypeError''"
| "exn_class_name KeyError = ''KeyError''"
| "exn_class_name LookupError = ''LookupError''"
| "exn_class_name DuplicateKeyError = ''DuplicateKeyError''"
| "exn_class_name UnicodeDecodeError = ''UnicodeDecodeError''"
| "exn_class_name TokenError = ''TokenError''"
| "exn_class_name AdapterDiscoveryError = ''AdapterDiscoveryError''"
| "exn_class_name AssertionError = ''AssertionError''"
| "exn_class_name OSError = ''OSError''"
| "exn_class_name (OtherError n) = n"

definition keep_harness :: "(exn \<Rightarrow> exn) \<Rightarrow> exn \<Rightarrow> exn" where
  "keep_harness g e = (if is_harness_error e then e else g e)"

definition script_failure :: "exn \<Rightarrow> exn" where
  "script_failure e = Exn (Harness ScriptError) (''run() raised '' @ exn_class_name (exn_kind e) @ '': '' @ exn_text e)"

definition config_failure :: "node \<Rightarrow> exn \<Rightarrow> exn" where
  "config_failure n e = Exn (Harness LoadError) (''invalid config for '' @ relation n @ '': '' @ exn_text e)"

definition validate_config_early :: "'w adapter \<Rightarrow> node \<Rightarrow> ('w, unit) act" where
  "validate_config_early ad n = (case ad_validate_config ad of
     None \<Rightarrow> return_act ()
   | Some validate \<Rightarrow> catch_act (keep_harness (config_failure n))
       (call EValidateConfig (validate (node_config n) (map col_name (node_output_columns n)))))"

datatype 'w writer =
    WriteReplace
  | WriteAppend "string \<Rightarrow> string \<Rightarrow> arrow_table \<Rightarrow> 'w \<Rightarrow> unit res \<times> 'w"
  | WriteUpsert "string \<Rightarrow> string \<Rightarrow> arrow_table \<Rightarrow> string list \<Rightarrow> 'w \<Rightarrow> unit res \<times> 'w"

definition unsupported :: "'w adapter \<Rightarrow> node \<Rightarrow> 'w writer res" where
  "unsupported ad n = raise_load (ad_name ad @ '' does not support '' @ node_mode_type n)"

definition writer_for :: "'w adapter \<Rightarrow> node \<Rightarrow> 'w writer res" where
  "writer_for ad n =
     (if node_mode_type n = ''replace'' then Inr WriteReplace
      else if node_mode_type n = ''append'' then
        (case ad_append ad of Some f \<Rightarrow> Inr (WriteAppend f) | None \<Rightarrow> unsupported ad n)
      else if node_mode_type n = ''upsert'' then
        (case ad_upsert_rows ad of Some f \<Rightarrow> Inr (WriteUpsert f) | None \<Rightarrow> unsupported ad n)
      else Inl (Exn KeyError (repr_str (node_mode_type n))))"

definition produce_from_script :: "'w harness \<Rightarrow> node \<Rightarrow> 'w adapter \<Rightarrow> path \<Rightarrow> ('w, arrow_table) act" where
  "produce_from_script h n ad app_root =
     bind_act (of_res (load_script (h_fs h) (h_import h) n app_root)) (\<lambda>sc.
     bind_act (catch_act (keep_harness script_failure) (run_script sc ad (new_context n))) (\<lambda>v.
     of_res (to_arrow (h_pandas h) v)))"

definition produce :: "'w harness \<Rightarrow> node \<Rightarrow> 'w adapter \<Rightarrow> path \<Rightarrow> ('w, arrow_table) act" where
  "produce h n ad app_root =
     (if node_kind n = ''python-node'' \<or> node_kind n = ''python-api'' then produce_from_script h n ad app_root
      else if node_kind n = ''python-csv'' then of_res (produce_csv (h_fetch_csv h) n)
      else of_res (Inl (Exn KeyError (repr_str (node_kind n)))))"

definition check_shape :: "'w adapter \<Rightarrow> node \<Rightarrow> string \<Rightarrow> string \<Rightarrow> ('w, unit) act" where
  "check_shape ad n schema tbl =
     bind_act (call (ETableColumns schema tbl) (ad_table_columns ad schema tbl)) (\<lambda>live.
     let d = shape_diff_of (node_output_columns n) live in
     of_res (require (\<not> shape_differs d) (Exn (Harness LoadError) (shape_message d (schema @ ''.'' @ tbl)))))"

fun write_rows :: "'w adapter \<Rightarrow> 'w writer \<Rightarrow> string \<Rightarrow> string \<Rightarrow> arrow_table \<Rightarrow> string list \<Rightarrow> ('w, unit) act" where
  "write_rows ad WriteReplace schema tbl data key = call (ELoad schema tbl data) (ad_load ad schema tbl data)"
| "write_rows ad (WriteAppend f) schema tbl data key = call (EAppend schema tbl data) (f schema tbl data)"
| "write_rows ad (WriteUpsert f) schema tbl data key = port_upsert f schema tbl data key"

text \<open>\<^verbatim>\<open>writer.capability is not None\<close>.\<close>

fun keeps_rows :: "'w writer \<Rightarrow> bool" where
  "keeps_rows WriteReplace = False"
| "keeps_rows _ = True"

definition write_failure :: "string \<Rightarrow> string \<Rightarrow> exn \<Rightarrow> exn" where
  "write_failure schema tbl e =
     (if is_harness_error e then e
      else if exn_kind e = DuplicateKeyError then Exn (Harness ConformError) (exn_text e)
      else Exn (Harness LoadError) (''failed to write '' @ schema @ ''.'' @ tbl @ '': '' @ exn_text e))"

definition write_phase ::
  "'w adapter \<Rightarrow> 'w writer \<Rightarrow> node \<Rightarrow> string \<Rightarrow> string \<Rightarrow> arrow_table \<Rightarrow> ('w, unit) act" where
  "write_phase ad w n schema tbl data = catch_act (write_failure schema tbl)
     (bind_act (call (EEnsureTable schema tbl (node_primary_key n))
         (ad_ensure_table ad schema tbl (node_output_columns n) (node_config n) (node_primary_key n))) (\<lambda>_.
      bind_act (if keeps_rows w then check_shape ad n schema tbl else return_act ()) (\<lambda>_.
      write_rows ad w schema tbl data (node_primary_key n))))"

definition execute_node ::
  "'w harness \<Rightarrow> 'w adapter \<Rightarrow> node \<Rightarrow> path \<Rightarrow> string \<Rightarrow> string \<Rightarrow> ('w, nat) act" where
  "execute_node h ad n app_root schema tbl =
     bind_act (validate_config_early ad n) (\<lambda>_.
     bind_act (of_res (writer_for ad n)) (\<lambda>w.
     bind_act (produce h n ad app_root) (\<lambda>t.
     bind_act (of_res (conform (h_cast h) t (node_output_columns n) (node_extra_columns n))) (\<lambda>data.
     bind_act (write_phase ad w n schema tbl data) (\<lambda>_.
     return_act (num_rows data))))))"

section \<open>The entrypoint\<close>

record job =
  job_schema :: string
  job_table :: string
  job_root :: path
  job_node :: node

definition default_contract_dir :: string where "default_contract_dir = ''/app/contracts''"

definition path_of :: "string \<Rightarrow> path" where
  "path_of s = script_components s"

definition adapter_failure :: "exn \<Rightarrow> exn" where
  "adapter_failure e = Exn (Harness LoadError) (''adapter construction failed: '' @ exn_text e)"

definition prepare_node :: "'w harness \<Rightarrow> env \<Rightarrow> job res" where
  "prepare_node h env =
     bind_res (require_env env ''NODE_ID'') (\<lambda>node_id.
     bind_res (require_env env ''TABLE_NAME'') (\<lambda>table_name.
     bind_res (require_env env ''TARGET_SCHEMA'') (\<lambda>target_schema.
     let contract_dir = (if env_get env ''CONTRACT_DIR'' = [] then default_contract_dir else env_get env ''CONTRACT_DIR'');
         app_root = (if env_get env ''APP_ROOT'' = [] then parent (path_of contract_dir) else path_of (env_get env ''APP_ROOT'')) in
     bind_res (h_load_contracts h contract_dir) (\<lambda>nodes.
     bind_res (select_node nodes node_id) (\<lambda>n.
     Inr \<lparr>job_schema = target_schema, job_table = table_name, job_root = app_root, job_node = n\<rparr>)))))"

definition get_adapter :: "'w harness \<Rightarrow> 'w adapter option \<Rightarrow> 'w adapter res" where
  "get_adapter h given = (case given of
     Some ad \<Rightarrow> Inr ad
   | None \<Rightarrow> map_exn (keep_harness adapter_failure) (build_adapter h))"

definition failure_message :: "exn \<Rightarrow> string" where
  "failure_message e = (case exn_kind e of
     Harness c \<Rightarrow> sentinel_message c (exn_text e)
   | _ \<Rightarrow> ''ScriptError: unexpected failure: '' @ exn_text e)"

definition report :: "string \<Rightarrow> nat res \<Rightarrow> string" where
  "report node_id outcome = (case outcome of
     Inr n \<Rightarrow> result_block ''success'' (''rows='' @ nat_str n) 0 node_id
   | Inl e \<Rightarrow> result_block ''error'' (failure_message e) 1 node_id)"

definition exit_code :: "nat res \<Rightarrow> int" where
  "exit_code outcome = (case outcome of Inr n \<Rightarrow> 0 | Inl e \<Rightarrow> 1)"

definition print_block :: "string \<Rightarrow> 'w hstate \<Rightarrow> 'w hstate" where
  "print_block b s = s\<lparr>trace := trace s @ [EPrint b]\<rparr>"

definition run_node :: "'w harness \<Rightarrow> env \<Rightarrow> 'w adapter option \<Rightarrow> 'w hstate \<Rightarrow> int \<times> 'w hstate" where
  "run_node h env given s = (let node_id = env_get env ''NODE_ID'' in
     case bind_res (prepare_node h env) (\<lambda>j. bind_res (get_adapter h given) (\<lambda>ad. Inr (j, ad))) of
       Inl e \<Rightarrow> (exit_code (Inl e), print_block (report node_id (Inl e)) s)
     | Inr (j, ad) \<Rightarrow>
         (case execute_node h ad (job_node j) (job_root j) (job_schema j) (job_table j) s of (outcome, s1) \<Rightarrow>
            (exit_code outcome, snd (call EClose (ad_close ad) (print_block (report node_id outcome) s1)))))"

section \<open>The shape of a run\<close>

fun is_write :: "event \<Rightarrow> bool" where
  "is_write (ELoad s t d) = True"
| "is_write (EAppend s t d) = True"
| "is_write (EUpsert s t d k) = True"
| "is_write _ = False"

fun is_print :: "event \<Rightarrow> bool" where
  "is_print (EPrint b) = True"
| "is_print _ = False"

text \<open>What may happen before the target table is touched: the config check, then reads.\<close>

definition before_write :: "(string \<times> string) list \<Rightarrow> event list \<Rightarrow> bool" where
  "before_write reads es \<longleftrightarrow> (\<exists>cs rs. es = cs @ rs \<and> cs \<in> {[], [EValidateConfig]} \<and> only_reads reads rs)"

text \<open>The one write of a mode.\<close>

fun write_event :: "'w writer \<Rightarrow> string \<Rightarrow> string \<Rightarrow> arrow_table \<Rightarrow> string list \<Rightarrow> event" where
  "write_event WriteReplace schema tbl data key = ELoad schema tbl data"
| "write_event (WriteAppend f) schema tbl data key = EAppend schema tbl data"
| "write_event (WriteUpsert f) schema tbl data key = EUpsert schema tbl data key"

fun write_op :: "'w adapter \<Rightarrow> 'w writer \<Rightarrow> string \<Rightarrow> string \<Rightarrow> arrow_table \<Rightarrow> string list \<Rightarrow> 'w \<Rightarrow> unit res \<times> 'w" where
  "write_op ad WriteReplace schema tbl data key = ad_load ad schema tbl data"
| "write_op ad (WriteAppend f) schema tbl data key = f schema tbl data"
| "write_op ad (WriteUpsert f) schema tbl data key = f schema tbl data key"

definition shape_events :: "'w writer \<Rightarrow> string \<Rightarrow> string \<Rightarrow> event list" where
  "shape_events w schema tbl = (if keeps_rows w then [ETableColumns schema tbl] else [])"

text \<open>The guards a write has passed: the live shape for a mode that keeps rows, the key for an upsert.\<close>

definition write_allowed :: "'w adapter \<Rightarrow> 'w writer \<Rightarrow> node \<Rightarrow> string \<Rightarrow> string \<Rightarrow> arrow_table \<Rightarrow> bool" where
  "write_allowed ad w n schema tbl data \<longleftrightarrow>
     (keeps_rows w \<longrightarrow> (\<exists>u v live. ad_table_columns ad schema tbl u = (Inr live, v)
        \<and> \<not> shape_differs (shape_diff_of (node_output_columns n) live)))
     \<and> (\<forall>f. w = WriteUpsert f \<longrightarrow> ensure_unique_key data (node_primary_key n) = Inr ())"

lemma call_result: "call e op s = (r, s') \<Longrightarrow> op (warehouse s) = (r, warehouse s') \<and> trace s' = trace s @ [e]"
  by (auto simp: call_def split: prod.splits)

lemma write_rows_run:
  assumes "write_rows ad w schema tbl data key s = (r, s')"
  shows "(trace s' = trace s \<and> (\<exists>f e. w = WriteUpsert f \<and> ensure_unique_key data key = Inl e \<and> r = Inl e))
    \<or> (trace s' = trace s @ [write_event w schema tbl data key]
       \<and> write_op ad w schema tbl data key (warehouse s) = (r, warehouse s')
       \<and> (\<forall>f. w = WriteUpsert f \<longrightarrow> ensure_unique_key data key = Inr ()))"
proof (cases w)
  case (WriteUpsert f)
  then have run: "bind_act (of_res (ensure_unique_key data key))
      (\<lambda>_. call (EUpsert schema tbl data key) (f schema tbl data key)) s = (r, s')"
    using assms by (simp add: port_upsert_def)
  show ?thesis
  proof (cases "ensure_unique_key data key")
    case (Inl e)
    then have "r = Inl e" "s' = s" using run by (simp_all add: bind_act_def of_res_def)
    then show ?thesis using Inl WriteUpsert by simp
  next
    case (Inr u)
    then have "call (EUpsert schema tbl data key) (f schema tbl data key) s = (r, s')"
      using run by (simp add: bind_act_def of_res_def)
    from call_result [OF this] show ?thesis using WriteUpsert Inr by simp
  qed
qed (use assms in \<open>auto dest: call_result\<close>)

lemma check_shape_run:
  assumes "check_shape ad n schema tbl s = (r, s')"
  shows "trace s' = trace s @ [ETableColumns schema tbl]"
    and "r = Inr () \<Longrightarrow> \<exists>live. ad_table_columns ad schema tbl (warehouse s) = (Inr live, warehouse s')
       \<and> \<not> shape_differs (shape_diff_of (node_output_columns n) live)"
proof -
  obtain x t where x: "call (ETableColumns schema tbl) (ad_table_columns ad schema tbl) s = (x, t)" by fastforce
  have t: "trace t = trace s @ [ETableColumns schema tbl]" using x by (rule call_trace)
  show "trace s' = trace s @ [ETableColumns schema tbl]"
    using assms x t by (cases x) (auto simp: check_shape_def bind_act_def Let_def)
  show "\<exists>live. ad_table_columns ad schema tbl (warehouse s) = (Inr live, warehouse s')
       \<and> \<not> shape_differs (shape_diff_of (node_output_columns n) live)" if "r = Inr ()"
    using assms x that call_result [OF x]
    by (cases x) (auto simp: check_shape_def bind_act_def Let_def require_eq_Inr)
qed

text \<open>The write phase: the table is ensured first, then the shape, then the rows.\<close>

lemma write_phase_run:
  assumes "write_phase ad w n schema tbl data s = (r, s')"
  shows "\<exists>post. trace s' = trace s @ EEnsureTable schema tbl (node_primary_key n) # post \<and>
    ((\<exists>e. r = Inl e) \<and> post \<in> {[], shape_events w schema tbl}
     \<or> post = shape_events w schema tbl @ [write_event w schema tbl data (node_primary_key n)]
        \<and> write_allowed ad w n schema tbl data
        \<and> (r = Inr () \<longrightarrow> (\<exists>u. write_op ad w schema tbl data (node_primary_key n) u = (Inr (), warehouse s'))))"
proof -
  let ?key = "node_primary_key n"
  let ?ensure = "call (EEnsureTable schema tbl ?key) (ad_ensure_table ad schema tbl (node_output_columns n) (node_config n) ?key)"
  let ?shape = "if keeps_rows w then check_shape ad n schema tbl else return_act ()"
  obtain r0 where r0: "bind_act ?ensure (\<lambda>_. bind_act ?shape (\<lambda>_. write_rows ad w schema tbl data ?key)) s = (r0, s')"
    and r: "r = map_exn (write_failure schema tbl) r0"
    using assms by (auto simp: write_phase_def catch_act_def split: prod.splits)
  obtain x t where x: "?ensure s = (x, t)" by fastforce
  have t: "trace t = trace s @ [EEnsureTable schema tbl ?key]" using x by (rule call_trace)
  show ?thesis
  proof (cases x)
    case (Inl e)
    then have "r0 = Inl e" "s' = t" using r0 x by (simp_all add: bind_act_def)
    then show ?thesis using t r by (intro exI [of _ "[]"]) simp
  next
    case (Inr u1)
    obtain y v where y: "?shape t = (y, v)" by fastforce
    have v: "trace v = trace t @ shape_events w schema tbl"
      using y check_shape_run(1) by (auto simp: shape_events_def split: if_splits)
    have rest: "bind_act ?shape (\<lambda>_. write_rows ad w schema tbl data ?key) t = (r0, s')"
      using r0 x Inr by (simp add: bind_act_def)
    show ?thesis
    proof (cases y)
      case (Inl e)
      then have "r0 = Inl e" "s' = v" using rest y by (simp_all add: bind_act_def)
      then show ?thesis using t v r by (intro exI [of _ "shape_events w schema tbl"]) simp
    next
      case (Inr u2)
      then have w: "write_rows ad w schema tbl data ?key v = (r0, s')"
        using rest y by (simp add: bind_act_def)
      have live: "keeps_rows w \<longrightarrow> (\<exists>u v live. ad_table_columns ad schema tbl u = (Inr live, v)
        \<and> \<not> shape_differs (shape_diff_of (node_output_columns n) live))"
        using y Inr check_shape_run(2) by (fastforce split: if_splits)
      from write_rows_run [OF w] show ?thesis
      proof (elim disjE conjE exE)
        fix f e
        assume "trace s' = trace v" "r0 = Inl e"
        then show ?thesis using t v r by (intro exI [of _ "shape_events w schema tbl"]) simp
      next
        assume "trace s' = trace v @ [write_event w schema tbl data ?key]"
          "write_op ad w schema tbl data ?key (warehouse v) = (r0, warehouse s')"
          "\<forall>f. w = WriteUpsert f \<longrightarrow> ensure_unique_key data ?key = Inr ()"
        then show ?thesis using t v r live
          by (intro exI [of _ "shape_events w schema tbl @ [write_event w schema tbl data ?key]"])
            (auto simp: write_allowed_def map_exn_eq_Inr)
      qed
    qed
  qed
qed

lemma validate_config_early_run:
  "validate_config_early ad n s = (r, s') \<Longrightarrow> \<exists>cs. trace s' = trace s @ cs \<and> cs \<in> {[], [EValidateConfig]}"
  by (auto simp: validate_config_early_def catch_act_def split: option.splits prod.splits dest!: call_trace)

lemma produce_run:
  assumes "produce h n ad app_root s = (r, s')"
  shows "\<exists>rs. trace s' = trace s @ rs \<and> only_reads (node_reads n) rs"
proof -
  have Nil: "only_reads (node_reads n) []" by (simp add: only_reads_def)
  show ?thesis
  proof (cases "node_kind n = ''python-node'' \<or> node_kind n = ''python-api''")
    case False
    then have "s' = s" using assms by (auto simp: produce_def split: if_splits)
    then show ?thesis using Nil by auto
  next
    case True
    then have run: "produce_from_script h n ad app_root s = (r, s')" using assms by (simp add: produce_def)
    show ?thesis
    proof (cases "load_script (h_fs h) (h_import h) n app_root")
      case (Inl e)
      then show ?thesis using run Nil by (auto simp: produce_from_script_def bind_act_def of_res_def)
    next
      case (Inr sc)
      obtain x t where x: "run_script sc ad (new_context n) s = (x, t)" by fastforce
      from run_script_reads [OF this] have "\<exists>rs. trace t = trace s @ rs \<and> only_reads (node_reads n) rs"
        by (simp add: new_context_def)
      moreover have "s' = t"
        using run x Inr
        by (cases x) (auto simp: produce_from_script_def bind_act_def of_res_def catch_act_def)
      ultimately show ?thesis by simp
    qed
  qed
qed

text \<open>How a run ended, from its events: before the table was touched, or in the write phase.\<close>

definition run_stopped :: "node \<Rightarrow> 'a res \<Rightarrow> event list \<Rightarrow> bool" where
  "run_stopped n r es \<longleftrightarrow> (\<exists>e. r = Inl e) \<and> before_write (node_reads n) es"

definition run_wrote ::
  "'w harness \<Rightarrow> 'w adapter \<Rightarrow> node \<Rightarrow> string \<Rightarrow> string \<Rightarrow> nat res \<Rightarrow> 'w \<Rightarrow> event list \<Rightarrow> bool" where
  "run_wrote h ad n schema tbl r after es \<longleftrightarrow> (\<exists>pre w t data post.
     es = pre @ EEnsureTable schema tbl (node_primary_key n) # post \<and> before_write (node_reads n) pre
     \<and> writer_for ad n = Inr w \<and> conform (h_cast h) t (node_output_columns n) (node_extra_columns n) = Inr data
     \<and> ((\<exists>e. r = Inl e) \<and> post \<in> {[], shape_events w schema tbl}
        \<or> post = shape_events w schema tbl @ [write_event w schema tbl data (node_primary_key n)]
           \<and> write_allowed ad w n schema tbl data
           \<and> (\<forall>k. r = Inr k \<longrightarrow> k = num_rows data
                \<and> (\<exists>u. write_op ad w schema tbl data (node_primary_key n) u = (Inr (), after)))))"

lemma before_writeI:
  "cs \<in> {[], [EValidateConfig]} \<Longrightarrow> only_reads reads rs \<Longrightarrow> before_write reads (cs @ rs)"
  by (auto simp: before_write_def)

lemma execute_node_run:
  assumes "execute_node h ad n app_root schema tbl s = (r, s')"
  shows "\<exists>es. trace s' = trace s @ es \<and> (run_stopped n r es \<or> run_wrote h ad n schema tbl r (warehouse s') es)"
proof -
  have only: "only_reads (node_reads n) []" by (simp add: only_reads_def)
  obtain x0 s0 where v: "validate_config_early ad n s = (x0, s0)" by fastforce
  from validate_config_early_run [OF v] obtain cs where cs: "trace s0 = trace s @ cs" "cs \<in> {[], [EValidateConfig]}" by blast
  have early: ?thesis if "r = Inl e" "s' = s0" for e
    using that cs before_writeI [OF cs(2) only] by (auto simp: run_stopped_def)
  show ?thesis
  proof (cases x0)
    case (Inl e)
    then show ?thesis using assms v by (intro early [of e]) (simp_all add: execute_node_def bind_act_def)
  next
    case x0: (Inr u0)
    show ?thesis
    proof (cases "writer_for ad n")
      case (Inl e)
      then show ?thesis using assms v x0
        by (intro early [of e]) (simp_all add: execute_node_def bind_act_def of_res_def)
    next
      case w: (Inr w)
      obtain x1 s1 where p: "produce h n ad app_root s0 = (x1, s1)" by fastforce
      from produce_run [OF p] obtain rs where rs: "trace s1 = trace s0 @ rs" "only_reads (node_reads n) rs" by blast
      have pre: "trace s1 = trace s @ (cs @ rs)" "before_write (node_reads n) (cs @ rs)"
        using cs rs by (simp_all add: before_writeI)
      have stop: ?thesis if "r = Inl e" "s' = s1" for e
        using that pre by (auto simp: run_stopped_def)
      show ?thesis
      proof (cases x1)
        case (Inl e)
        then show ?thesis using assms v x0 w p
          by (intro stop [of e]) (simp_all add: execute_node_def bind_act_def of_res_def)
      next
        case x1: (Inr t)
        show ?thesis
        proof (cases "conform (h_cast h) t (node_output_columns n) (node_extra_columns n)")
          case (Inl e)
          then show ?thesis using assms v x0 w p x1
            by (intro stop [of e]) (simp_all add: execute_node_def bind_act_def of_res_def)
        next
          case data: (Inr data)
          obtain x2 s2 where ph: "write_phase ad w n schema tbl data s1 = (x2, s2)" by fastforce
          have fin: "s' = s2" "r = map_sum id (\<lambda>_. num_rows data) x2"
            using assms v x0 w p x1 data ph
            by (cases x2; simp add: execute_node_def bind_act_def of_res_def return_act_def)+
          from write_phase_run [OF ph] obtain post where
            post: "trace s2 = trace s1 @ EEnsureTable schema tbl (node_primary_key n) # post"
            "(\<exists>e. x2 = Inl e) \<and> post \<in> {[], shape_events w schema tbl}
             \<or> post = shape_events w schema tbl @ [write_event w schema tbl data (node_primary_key n)]
                \<and> write_allowed ad w n schema tbl data
                \<and> (x2 = Inr () \<longrightarrow> (\<exists>u. write_op ad w schema tbl data (node_primary_key n) u = (Inr (), warehouse s2)))"
            by blast
          have "run_wrote h ad n schema tbl r (warehouse s') ((cs @ rs) @ EEnsureTable schema tbl (node_primary_key n) # post)"
            unfolding run_wrote_def
            by (rule exI [of _ "cs @ rs"], rule exI [of _ w], rule exI [of _ t], rule exI [of _ data], rule exI [of _ post])
              (use pre(2) w data post(2) fin in \<open>cases x2; auto\<close>)
          then show ?thesis using post(1) pre(1) fin(1) by auto
        qed
      qed
    qed
  qed
qed

section \<open>The whole run\<close>

text \<open>
  Every run prints one block and no more; the exit code is 0 exactly when the block says success;
  an adapter that was obtained is closed once, after the block.
\<close>

definition node_result :: "'w harness \<Rightarrow> env \<Rightarrow> 'w adapter option \<Rightarrow> (job \<times> 'w adapter) res" where
  "node_result h env given = bind_res (prepare_node h env) (\<lambda>j. bind_res (get_adapter h given) (\<lambda>ad. Inr (j, ad)))"

lemma run_node_cases:
  assumes "run_node h env given s = (code, s')"
  obtains (unprepared) e where "node_result h env given = Inl e" "code = 1"
      "s' = print_block (report (env_get env ''NODE_ID'') (Inl e)) s"
  | (executed) j ad outcome s1 where "node_result h env given = Inr (j, ad)"
      "execute_node h ad (job_node j) (job_root j) (job_schema j) (job_table j) s = (outcome, s1)"
      "code = exit_code outcome"
      "trace s' = trace s1 @ [EPrint (report (env_get env ''NODE_ID'') outcome), EClose]"
      "warehouse s' = snd (ad_close ad (warehouse s1))"
proof (cases "node_result h env given")
  case (Inl e)
  then show thesis using assms unprepared
    by (simp add: run_node_def Let_def node_result_def exit_code_def)
next
  case (Inr p)
  obtain j ad where p: "p = (j, ad)" by (cases p)
  obtain outcome s1 where x: "execute_node h ad (job_node j) (job_root j) (job_schema j) (job_table j) s = (outcome, s1)"
    by fastforce
  have s': "s' = snd (call EClose (ad_close ad) (print_block (report (env_get env ''NODE_ID'') outcome) s1))"
    and code: "code = exit_code outcome"
    using assms Inr x by (simp_all add: run_node_def Let_def node_result_def p)
  show thesis
    by (rule executed [OF _ x code])
      (use s' Inr p in \<open>auto simp: call_def print_block_def split: prod.splits\<close>)
qed

lemma before_write_events:
  "before_write reads es \<Longrightarrow> e \<in> set es \<Longrightarrow> e = EValidateConfig \<or> (\<exists>q\<in>snd ` set reads. e = EFetch q)"
  by (auto simp: before_write_def only_reads_def)

lemma write_event_kind [simp]: "is_write (write_event w schema tbl data key)" "\<not> is_print (write_event w schema tbl data key)"
  by (cases w; simp)+

lemma executed_events:
  assumes "run_stopped n r es \<or> run_wrote h ad n schema tbl r after es" "e \<in> set es"
  shows "\<not> is_print e" "e \<noteq> EClose"
proof -
  have "\<not> is_print e \<and> e \<noteq> EClose"
    using assms(1)
  proof
    assume "run_stopped n r es"
    then show ?thesis using before_write_events [of "node_reads n" es e] assms(2) by (auto simp: run_stopped_def)
  next
    assume "run_wrote h ad n schema tbl r after es"
    then obtain pre w t data post where es: "es = pre @ EEnsureTable schema tbl (node_primary_key n) # post"
      "before_write (node_reads n) pre"
      and ways: "(\<exists>e. r = Inl e) \<and> post \<in> {[], shape_events w schema tbl}
        \<or> post = shape_events w schema tbl @ [write_event w schema tbl data (node_primary_key n)]
           \<and> write_allowed ad w n schema tbl data
           \<and> (\<forall>k. r = Inr k \<longrightarrow> k = num_rows data
                \<and> (\<exists>u. write_op ad w schema tbl data (node_primary_key n) u = (Inr (), after)))"
      unfolding run_wrote_def by (elim exE conjE) (rule that)
    from ways have post: "post \<in> {[], shape_events w schema tbl} \<or> post = shape_events w schema tbl @ [write_event w schema tbl data (node_primary_key n)]"
      by (elim disjE conjE) (rule disjI1, assumption, rule disjI2, assumption)
    have "e = write_event w schema tbl data (node_primary_key n) \<or> e = ETableColumns schema tbl" if "e \<in> set post"
      using post that by (auto simp: shape_events_def split: if_splits)
    moreover have "write_event w schema tbl data (node_primary_key n) \<noteq> EClose" by (cases w) auto
    ultimately show ?thesis
      using assms(2) before_write_events [OF es(2), of e] unfolding es(1) by auto
  qed
  then show "\<not> is_print e" "e \<noteq> EClose" by auto
qed

end
