(* ===== verification/Sample.thy ===== *)
theory Sample
  imports Harness
begin

text \<open>
  Concrete inputs the witnesses run the model on: an upsert node as YAML gives it, a warehouse
  that keeps the tables written to it, a cast that accepts a table of the right types, a repository
  of two files.
\<close>

section \<open>A contract\<close>

definition sample_parser :: sql_parser where
  "sample_parser dialect sql = SqlParsed [Some SelectStmt]"

definition sample_column_raw :: "string \<Rightarrow> string \<Rightarrow> bool \<Rightarrow> pyval" where
  "sample_column_raw n ty nullable =
     PDict [(PStr ''name'', PStr n), (PStr ''type'', PStr ty), (PStr ''nullable'', PBool nullable)]"

definition sample_raw :: pyval where
  "sample_raw = PDict [
     (PStr ''schema'', PStr ''s''), (PStr ''table'', PStr ''t''), (PStr ''owner'', PStr ''o''),
     (PStr ''schedule'', PStr ''daily''), (PStr ''criticality'', PStr ''CORE''),
     (PStr ''script'', PStr ''a.py''), (PStr ''reads'', PDict [(PStr ''r'', PStr ''select 1'')]),
     (PStr ''mode_type'', PStr ''upsert''), (PStr ''primary_key'', PList [PStr ''id'']),
     (PStr ''timeout_minutes'', PInt 30),
     (PStr ''output_columns'', PList [sample_column_raw ''id'' ''BIGINT'' False, sample_column_raw ''v'' ''TEXT'' True])]"

definition sample_columns :: "column list" where
  "sample_columns = [\<lparr>col_name = ''id'', col_type = ''BIGINT'', col_nullable = False\<rparr>,
     \<lparr>col_name = ''v'', col_type = ''TEXT'', col_nullable = True\<rparr>]"

definition sample_node :: node where
  "sample_node = \<lparr>node_schema = ''s'', node_table = ''t'', node_owner = ''o'', node_schedule = ''daily'',
     node_criticality = ''CORE'', node_script = ''a.py'', node_reads = [(''r'', ''select 1'')],
     node_output_columns = sample_columns, node_description = [], node_extra_columns = ''raise'',
     node_config = [], node_content_hash = None, node_kind = ''python-node'', node_secret_ref = [],
     node_mode_type = ''upsert'', node_primary_key = [''id''], node_timeout_minutes = Some 30\<rparr>"

lemma sample_parse: "parse_node sample_parser sample_raw ''n.yml'' None True = Inr sample_node"
  by code_simp

lemma sample_node_ok: "node_ok sample_node"
  by (rule parse_node_ok [OF sample_parse])

definition sample_yaml :: "string \<Rightarrow> pyval res" where
  "sample_yaml text = Inr (PDict [(PStr ''nodes'', PList [sample_raw])])"

lemma sample_load:
  "load_contract_dir sample_parser (\<lambda>d. None) Inr sample_yaml ''c'' [''n.yml'', ''README''] None True = Inr [sample_node]"
  by code_simp

section \<open>A warehouse\<close>

definition sample_table :: arrow_table where
  "sample_table = \<lparr>table_cols = [(''id'', Int64, [PInt 1, PInt 2]), (''v'', Utf8, [PStr ''a'', PNone])], num_rows = 2\<rparr>"

definition sample_cast :: caster where
  "sample_cast fs t = (if table_types t = field_types fs then Inr t else Inl (Exn (OtherError ''ArrowInvalid'') []))"

lemma sample_cast_ok: "cast_ok sample_cast"
  by (auto simp: cast_ok_def sample_cast_def split: if_splits)

type_synonym tables = "(string \<times> arrow_table) list"

definition sample_adapter :: "tables adapter" where
  "sample_adapter = \<lparr>ad_name = ''Sample'', ad_fetch = \<lambda>sql w. (Inr sample_table, w),
     ad_validate_config = Some (\<lambda>config names w. (Inr (), w)),
     ad_ensure_table = \<lambda>s t cols config key w. (Inr (), w),
     ad_table_columns = \<lambda>s t w. (Inr [\<lparr>live_name = ''ID'', live_nullable = False\<rparr>, \<lparr>live_name = ''v'', live_nullable = True\<rparr>], w),
     ad_load = \<lambda>s t d w. (Inr (), (t, d) # w),
     ad_append = None,
     ad_upsert_rows = Some (\<lambda>s t d key w. (Inr (), (t, d) # w)),
     ad_close = \<lambda>w. (Inr (), w)\<rparr>"

section \<open>A repository\<close>

definition sample_fs :: fs where
  "sample_fs = \<lparr>fs_is_file = \<lambda>p. p \<in> set [[''repo'', ''a.py''], [''repo'', ''b.py'']], fs_resolve = \<lambda>p. p,
     fs_read = \<lambda>p. Inr (last p)\<rparr>"

definition sample_tree :: "string \<Rightarrow> parsed" where
  "sample_tree text = Parsed (Scope [] (if text = ''a.py''
     then [Import 1 [\<lparr>alias_name = ''b'', alias_asname = None\<rparr>]] else []) [])"

lemma sample_fs_finite: "finite_fs sample_fs"
  by (simp add: finite_fs_def sample_fs_def)

lemma sample_closure:
  "resolve_closure sample_fs sample_tree [''repo'', ''a.py''] [''repo''] = Some (Inr [[''repo'', ''b.py'']])"
  by code_simp

section \<open>A run\<close>

definition sample_script :: script where
  "sample_script = Read ''r'' (\<lambda>t. case t of Inr x \<Rightarrow> Return (TableValue x) | Inl e \<Rightarrow> Raise e)"

definition sample_harness :: "'w harness" where
  "sample_harness = \<lparr>h_fs = sample_fs, h_import = \<lambda>p. Some (Inr (Some sample_script)),
     h_fetch_csv = \<lambda>u ts. Inr sample_table, h_pandas = False, h_cast = sample_cast,
     h_load_contracts = \<lambda>d. Inr [sample_node], h_entry_points = [],
     h_environ = \<lambda>k. None\<rparr>"

definition sample_env :: env where
  "sample_env = [''NODE_ID'' \<mapsto> ''proj.s.t'', ''TABLE_NAME'' \<mapsto> ''t1'', ''TARGET_SCHEMA'' \<mapsto> ''s1'',
     ''APP_ROOT'' \<mapsto> ''/repo'']"

definition sample_start :: "tables hstate" where
  "sample_start = \<lparr>warehouse = [], trace = []\<rparr>"

lemma sample_run:
  "run_node sample_harness sample_env (Some sample_adapter) sample_start =
     (0, \<lparr>warehouse = [(''t1'', sample_table)],
       trace = [EValidateConfig, EFetch ''select 1'', EEnsureTable ''s1'' ''t1'' [''id''], ETableColumns ''s1'' ''t1'',
         EUpsert ''s1'' ''t1'' sample_table [''id''],
         EPrint (result_block ''success'' ''rows=2'' 0 ''proj.s.t''), EClose]\<rparr>)"
  by code_simp

definition sample_decode :: "string \<Rightarrow> string + string" where
  "sample_decode data = Inr data"

lemma sample_inputs:
  "hash_inputs sample_fs sample_tree sample_decode sample_node [''repo''] = Some (Inr (''a.py'', [''b.py'']))"
  by code_simp

lemma sample_wire:
  "\<exists>e. wire_node sample_fs sample_tree sample_decode [''repo''] sample_node = Some (Inr e)"
proof -
  obtain c where "config_hash (node_entry sample_node) = Inr c" using config_hash_total [OF sample_node_ok] by blast
  then show ?thesis by (simp add: wire_node_def sample_inputs bind_run_def lift_def hash_parts_def Let_def)
qed

end
