(* ===== verification/Effects.thy ===== *)
theory Effects
  imports PyStr
begin

text \<open>
  Operations of the adapters and of the command line: functions from the state of the world they
  act on to a result and the state they leave. The combinators are Python's control flow over
  statements that may raise (sequence, \<^verbatim>\<open>try ... except\<close>, \<^verbatim>\<open>try ... finally\<close>,
  \<^verbatim>\<open>for\<close>, a bounded retry loop). \<open>wp\<close> is the weakest precondition of an operation with a
  postcondition for each of its two exits; \<open>wp_simps\<close> computes it along the combinators, so that
  a claim about an operation becomes one about the calls it makes.
\<close>

type_synonym ('w, 'a) op = "'w \<Rightarrow> 'a res \<times> 'w"

named_theorems wp_simps \<open>weakest preconditions of the combinators\<close>

definition op_return :: "'a \<Rightarrow> ('w, 'a) op" where
  "op_return a w = (Inr a, w)"

definition op_raise :: "exn \<Rightarrow> ('w, 'a) op" where
  "op_raise e w = (Inl e, w)"

definition op_of_res :: "'a res \<Rightarrow> ('w, 'a) op" where
  "op_of_res r w = (r, w)"

definition op_bind :: "('w, 'a) op \<Rightarrow> ('a \<Rightarrow> ('w, 'b) op) \<Rightarrow> ('w, 'b) op" where
  "op_bind m f w = (case m w of (Inl e, u) \<Rightarrow> (Inl e, u) | (Inr a, u) \<Rightarrow> f a u)"

abbreviation op_then :: "('w, 'a) op \<Rightarrow> ('w, 'b) op \<Rightarrow> ('w, 'b) op" where
  "op_then m k \<equiv> op_bind m (\<lambda>_. k)"

text \<open>\<^verbatim>\<open>try: m except Exception as e: h(e)\<close>.\<close>

definition op_except :: "('w, 'a) op \<Rightarrow> (exn \<Rightarrow> ('w, 'a) op) \<Rightarrow> ('w, 'a) op" where
  "op_except m h w = (case m w of (Inl e, u) \<Rightarrow> h e u | (Inr a, u) \<Rightarrow> (Inr a, u))"

text \<open>\<^verbatim>\<open>try: m finally: f\<close>; an exception of \<open>f\<close> replaces the outcome of \<open>m\<close>.\<close>

definition op_finally :: "('w, 'a) op \<Rightarrow> ('w, unit) op \<Rightarrow> ('w, 'a) op" where
  "op_finally m f w = (case m w of (r, u) \<Rightarrow>
     (case f u of (Inl e, v) \<Rightarrow> (Inl e, v) | (Inr _, v) \<Rightarrow> (r, v)))"

fun op_each :: "('a \<Rightarrow> ('w, unit) op) \<Rightarrow> 'a list \<Rightarrow> ('w, unit) op" where
  "op_each f [] = op_return ()"
| "op_each f (x # xs) = op_then (f x) (op_each f xs)"

section \<open>Weakest preconditions\<close>

definition wp :: "('w, 'a) op \<Rightarrow> ('a \<Rightarrow> 'w \<Rightarrow> bool) \<Rightarrow> (exn \<Rightarrow> 'w \<Rightarrow> bool) \<Rightarrow> 'w \<Rightarrow> bool" where
  "wp m Q E w = (case m w of (Inl e, u) \<Rightarrow> E e u | (Inr a, u) \<Rightarrow> Q a u)"

lemma wp_return [wp_simps]: "wp (op_return a) Q E = Q a"
  by (simp add: fun_eq_iff wp_def op_return_def)

lemma wp_raise [wp_simps]: "wp (op_raise e) Q E = E e"
  by (simp add: fun_eq_iff wp_def op_raise_def)

lemma wp_of_res [wp_simps]: "wp (op_of_res r) Q E w = (case r of Inl e \<Rightarrow> E e w | Inr a \<Rightarrow> Q a w)"
  by (simp add: wp_def op_of_res_def)

lemma wp_bind [wp_simps]: "wp (op_bind m f) Q E = wp m (\<lambda>a. wp (f a) Q E) E"
  by (auto simp: fun_eq_iff wp_def op_bind_def split: prod.splits sum.splits)

lemma wp_except [wp_simps]: "wp (op_except m h) Q E = wp m Q (\<lambda>e. wp (h e) Q E)"
  by (auto simp: fun_eq_iff wp_def op_except_def split: prod.splits sum.splits)

lemma wp_finally [wp_simps]:
  "wp (op_finally m f) Q E = wp m (\<lambda>a. wp f (\<lambda>_. Q a) E) (\<lambda>e. wp f (\<lambda>_. E e) E)"
  by (auto simp: fun_eq_iff wp_def op_finally_def split: prod.splits sum.splits)

lemma wp_mono:
  assumes "wp m Q E w" "\<And>a u. Q a u \<Longrightarrow> Q' a u" "\<And>e u. E e u \<Longrightarrow> E' e u"
  shows "wp m Q' E' w"
  using assms by (auto simp: wp_def split: prod.splits sum.splits)

lemma wp_each:
  assumes "I w" and "\<And>x u. x \<in> set xs \<Longrightarrow> I u \<Longrightarrow> wp (f x) (\<lambda>_. I) E u" and "\<And>u. I u \<Longrightarrow> Q () u"
  shows "wp (op_each f xs) Q E w"
  using assms
proof (induction xs arbitrary: w)
  case Nil
  then show ?case by (simp add: wp_simps)
next
  case (Cons x xs)
  have "wp (f x) (\<lambda>_. I) E w" using Cons.prems(1,2) by simp
  then show ?case unfolding op_each.simps wp_bind
    by (rule wp_mono) (use Cons in simp_all)
qed

lemma wp_run: "m w = (r, u) \<Longrightarrow> wp m Q E w \<longleftrightarrow> (case r of Inl e \<Rightarrow> E e u | Inr a \<Rightarrow> Q a u)"
  by (simp add: wp_def)

lemma wpI: "(\<And>r u. m w = (r, u) \<Longrightarrow> case r of Inl e \<Rightarrow> E e u | Inr a \<Rightarrow> Q a u) \<Longrightarrow> wp m Q E w"
  by (auto simp: wp_def split: prod.splits sum.splits)

lemma wp_if [wp_simps]: "wp (if b then m else k) Q E = (if b then wp m Q E else wp k Q E)"
  by simp

section \<open>The bounded retry loop\<close>

text \<open>
  \<^verbatim>\<open>for attempt in range(1, N + 1): try: return m() except ...: if attempt == N or not
  retryable: raise; sleep(delay)\<close>. \<open>delay attempt e\<close> is how long to sleep after the failure \<open>e\<close>, or
  \<open>None\<close> when \<open>e\<close> is raised at once; \<open>left\<close> is how many attempts are left after this one. The
  failure may carry more than the exception (the time it took).
\<close>

fun retry :: "(nat \<Rightarrow> 'e \<Rightarrow> 'd option) \<Rightarrow> ('d \<Rightarrow> 'w \<Rightarrow> 'w) \<Rightarrow> ('w \<Rightarrow> ('e + 'a) \<times> 'w) \<Rightarrow>
    nat \<Rightarrow> nat \<Rightarrow> 'w \<Rightarrow> ('e + 'a) \<times> 'w" where
  "retry delay sleep m attempt 0 w = m w"
| "retry delay sleep m attempt (Suc left) w = (case m w of
     (Inr a, u) \<Rightarrow> (Inr a, u)
   | (Inl e, u) \<Rightarrow> (case delay attempt e of
         None \<Rightarrow> (Inl e, u)
       | Some d \<Rightarrow> retry delay sleep m (Suc attempt) left (sleep d u)))"

text \<open>
  The failed attempts before the last one: \<open>tries delay sleep m i w fs u\<close> holds when the attempts
  from number \<open>i\<close> on fail with \<open>fs\<close> in turn, each is slept off, and the world is then \<open>u\<close>.
\<close>

inductive tries :: "(nat \<Rightarrow> 'e \<Rightarrow> 'd option) \<Rightarrow> ('d \<Rightarrow> 'w \<Rightarrow> 'w) \<Rightarrow> ('w \<Rightarrow> ('e + 'a) \<times> 'w) \<Rightarrow>
    nat \<Rightarrow> 'w \<Rightarrow> 'e list \<Rightarrow> 'w \<Rightarrow> bool"
  for delay sleep m where
  tries_Nil: "tries delay sleep m i w [] w"
| tries_Cons: "m w = (Inl e, v) \<Longrightarrow> delay i e = Some d \<Longrightarrow>
    tries delay sleep m (Suc i) (sleep d v) fs u \<Longrightarrow> tries delay sleep m i w (e # fs) u"

inductive_simps tries_Nil_iff [simp]: "tries delay sleep m i w [] u"
inductive_simps tries_Cons_iff: "tries delay sleep m i w (e # fs) u"

text \<open>
  What every caller of the loop gets from its policy: which failures it retries, whatever the
  attempt.
\<close>

locale retry_policy =
  fixes delay :: "nat \<Rightarrow> 'e \<Rightarrow> 'd option" and retryable :: "'e \<Rightarrow> bool"
  assumes delay_retryable: "delay i e \<noteq> None \<longleftrightarrow> retryable e"
begin

text \<open>
  The loop makes at most \<open>left + 1\<close> attempts; every failure but the last was retryable; the outcome
  is the last attempt's, and a failure is final only if it may not be retried or no attempt is left.
\<close>

lemma retry_outcome:
  assumes "retry delay sleep m i left w = (r, u)"
  shows "\<exists>fs v. tries delay sleep m i w fs v \<and> length fs \<le> left \<and> list_all retryable fs \<and> m v = (r, u)
    \<and> (\<forall>e. r = Inl e \<longrightarrow> retryable e \<longrightarrow> length fs = left)"
  using assms
proof (induction left arbitrary: i w)
  case 0
  then show ?case by (intro exI [of _ "[]"] exI [of _ w]) simp
next
  case (Suc left)
  obtain x v where m: "m w = (x, v)" by fastforce
  have now: ?case if "m w = (r, u)" "\<And>e. r = Inl e \<Longrightarrow> \<not> retryable e"
    using that by (intro exI [of _ "[]"] exI [of _ w]) auto
  show ?case
  proof (cases x)
    case (Inr a)
    then show ?thesis using Suc.prems m by (intro now) auto
  next
    case (Inl e)
    show ?thesis
    proof (cases "delay i e")
      case None
      then have "\<not> retryable e" using delay_retryable [of i e] by simp
      then show ?thesis using Suc.prems m Inl None by (intro now) auto
    next
      case (Some d)
      have "retryable e" using delay_retryable [of i e] Some by simp
      moreover have "retry delay sleep m (Suc i) left (sleep d v) = (r, u)"
        using Suc.prems m Inl Some by simp
      from Suc.IH [OF this] obtain fs v' where "tries delay sleep m (Suc i) (sleep d v) fs v'"
        "length fs \<le> left" "list_all retryable fs" "m v' = (r, u)"
        "\<forall>e. r = Inl e \<longrightarrow> retryable e \<longrightarrow> length fs = left" by blast
      ultimately show ?thesis using m Inl Some
        by (intro exI [of _ "e # fs"] exI [of _ v']) (auto intro: tries_Cons)
    qed
  qed
qed

text \<open>A failure that is not retryable is raised at once, by the first attempt.\<close>

lemma retry_at_once: "m w = (Inl e, u) \<Longrightarrow> \<not> retryable e \<Longrightarrow> retry delay sleep m i left w = (Inl e, u)"
  using delay_retryable [of i e] by (cases left) (auto split: option.splits)

text \<open>If some attempt in reach succeeds, the loop does.\<close>

lemma retry_succeeds:
  "tries delay sleep m i w fs v \<Longrightarrow> m v = (Inr a, u) \<Longrightarrow> length fs \<le> left \<Longrightarrow>
     retry delay sleep m i left w = (Inr a, u)"
proof (induction left arbitrary: i w fs)
  case (Suc left)
  then show ?case by (cases fs) (auto simp: tries_Cons_iff)
qed simp

end

text \<open>A loop that retries an operation keeps what every failed attempt keeps.\<close>

lemma wp_retry:
  assumes "I w" and step: "\<And>u. I u \<Longrightarrow> wp m Q (\<lambda>e v. I v) u" and "\<And>d u. I u \<Longrightarrow> I (sleep d u)" and "\<And>e u. I u \<Longrightarrow> E e u"
  shows "wp (retry delay sleep m i left) Q E w"
  using assms(1)
proof (induction left arbitrary: i w)
  case 0
  have "wp m Q E w" using step [OF 0] by (rule wp_mono) (use assms(4) in auto)
  then show ?case by (simp add: wp_def)
next
  case (Suc left)
  obtain r u where run: "m w = (r, u)" by fastforce
  show ?case
  proof (cases r)
    case (Inr a)
    then show ?thesis using step [OF Suc.prems] run by (simp add: wp_def)
  next
    case (Inl e)
    then have I: "I u" using step [OF Suc.prems] run by (simp add: wp_def)
    show ?thesis
    proof (cases "delay i e")
      case None
      then show ?thesis using run Inl assms(4) [OF I] by (simp add: wp_def)
    next
      case (Some d)
      have "wp (retry delay sleep m (Suc i) left) Q E (sleep d u)" by (rule Suc.IH) (rule assms(3) [OF I])
      then show ?thesis using run Inl Some by (simp add: wp_def)
    qed
  qed
qed

section \<open>Text search\<close>

text \<open>\<^verbatim>\<open>p in s\<close>.\<close>

fun contains :: "string \<Rightarrow> string \<Rightarrow> bool" where
  "contains p [] \<longleftrightarrow> p = []"
| "contains p (c # s) \<longleftrightarrow> starts_with p (c # s) \<or> contains p s"

lemma contains_iff: "contains p s \<longleftrightarrow> (\<exists>a b. s = a @ p @ b)"
proof (induction s)
  case Nil
  then show ?case by simp
next
  case (Cons c s)
  have "(\<exists>a b. c # s = a @ p @ b) \<longleftrightarrow> (\<exists>b. c # s = p @ b) \<or> (\<exists>a b. s = a @ p @ b)"
    by (metis append_Cons append_Nil list.exhaust list.inject)
  then show ?case using Cons by (simp add: starts_with_iff)
qed

lemma contains_append: "contains p s \<Longrightarrow> contains p (a @ s @ b)"
  by (auto simp: contains_iff) (metis append.assoc)

end
