(* ===== verification/PgLayout.thy ===== *)
theory PgLayout
  imports EngineContract Sha256 Effects
begin

text \<open>
  The part of \<^verbatim>\<open>adapters/postgres/continuo_postgres_adapter/adapter.py\<close> that decides
  without a connection: which connection failures are retried, the names of indexes within the 63
  bytes of an identifier, and the validation of the layout block. SQL is composed from raw text and
  identifiers, as psycopg2's \<^verbatim>\<open>sql\<close> module does; quoting an identifier is psycopg2's.
\<close>

section \<open>Connection failures\<close>

definition connect_attempts :: nat where "connect_attempts = 5"

definition unreachable_reasons :: "string list" where
  "unreachable_reasons = [''Connection refused'', ''No route to host'', ''Network is unreachable'']"

text \<open>\<^verbatim>\<open>_ADDRESS_FAILURE\<close>: what follows the prefix of a line that reports one address.\<close>

definition failure_prefixes :: "string list" where
  "failure_prefixes = [''failed: '', ''could not connect to server: '']"

fun strip_prefix :: "string list \<Rightarrow> string \<Rightarrow> string option" where
  "strip_prefix [] s = None"
| "strip_prefix (p # ps) s = (if starts_with p s then Some (drop (length p) s) else strip_prefix ps s)"

text \<open>\<^verbatim>\<open>findall\<close>: the matches from left to right, each up to the end of its line.\<close>

fun address_failures :: "nat \<Rightarrow> string \<Rightarrow> string list" where
  "address_failures skip [] = []"
| "address_failures (Suc skip) (c # s) = address_failures skip s"
| "address_failures 0 (c # s) = (case strip_prefix failure_prefixes (c # s) of
     None \<Rightarrow> address_failures 0 s
   | Some rest \<Rightarrow> (let reason = takeWhile (\<lambda>x. x \<noteq> newline) rest in
       reason # address_failures (length s - length rest + length reason) s))"

definition is_unreachable :: "string \<Rightarrow> bool" where
  "is_unreachable message = (let reasons = map strip (address_failures 0 message) in
     reasons \<noteq> [] \<and> list_all (\<lambda>r. r \<in> set unreachable_reasons) reasons
     \<and> \<not> contains ''FATAL:'' message \<and> \<not> contains ''timeout expired'' message)"

text \<open>Only an operational error is looked at; any other failure is raised as it is.\<close>

definition connect_delay :: "(exn \<Rightarrow> bool) \<Rightarrow> nat \<Rightarrow> exn \<Rightarrow> unit option" where
  "connect_delay operational attempt e =
     (if operational e \<and> is_unreachable (exn_text e) then Some () else None)"

interpretation pg_connect: retry_policy "connect_delay operational" "\<lambda>e. operational e \<and> is_unreachable (exn_text e)"
  for operational
  by unfold_locales (simp add: connect_delay_def)

section \<open>Identifiers within 63 bytes\<close>

definition max_identifier_bytes :: nat where "max_identifier_bytes = 63"

text \<open>
  \<^verbatim>\<open>bytes.decode("utf-8", "ignore")\<close> on the encoding of a Latin-1 text that was cut at a
  byte: the sequences have one or two bytes, and a lead byte without its continuation is dropped.
\<close>

fun utf8_decode_ignore :: "string \<Rightarrow> string" where
  "utf8_decode_ignore [] = []"
| "utf8_decode_ignore (b # bs) =
     (if code_point b < 128 then b # utf8_decode_ignore bs
      else (case bs of
          [] \<Rightarrow> []
        | b' # bs' \<Rightarrow>
            if 192 \<le> code_point b \<and> 128 \<le> code_point b' \<and> code_point b' < 192
            then char_of ((code_point b - 192) * 64 + (code_point b' - 128)) # utf8_decode_ignore bs'
            else utf8_decode_ignore bs))"

definition truncate_explicit_identifier :: "string \<Rightarrow> string" where
  "truncate_explicit_identifier name = (let encoded = utf8 name in
     if length encoded \<le> max_identifier_bytes then name
     else utf8_decode_ignore (take max_identifier_bytes encoded))"

definition full_index_name :: "string \<Rightarrow> string list \<Rightarrow> string" where
  "full_index_name tbl columns = ''ix_'' @ tbl @ ''_'' @ join ''_'' columns"

definition index_name :: "string \<Rightarrow> string list \<Rightarrow> string" where
  "index_name tbl columns = (let name = full_index_name tbl columns; encoded = utf8 name in
     if length encoded \<le> max_identifier_bytes then name
     else utf8_decode_ignore (take (max_identifier_bytes - 9) encoded) @ ''_'' @ take 8 (sha256_hex encoded))"

section \<open>The layout block\<close>

definition pg_known_config_keys :: "string list" where "pg_known_config_keys = [''indexes'']"
definition pg_known_index_keys :: "string list" where "pg_known_index_keys = [''columns'', ''unique'', ''type'', ''name'']"
definition pg_index_types :: "string list" where
  "pg_index_types = [''brin'', ''btree'', ''gin'', ''gist'', ''hash'', ''spgist'']"
definition unique_index_type :: string where "unique_index_type = ''btree''"
definition single_column_index_types :: "string list" where "single_column_index_types = [''hash'']"
definition default_index_type :: string where "default_index_type = ''btree''"

record pg_index =
  ix_columns :: "string list"
  ix_unique :: bool
  ix_type :: string
  ix_name :: string

text \<open>The text of a value known to be a string.\<close>

fun str_of :: "pyval \<Rightarrow> string" where
  "str_of (PStr s) = s"
| "str_of _ = []"

text \<open>The checks of one entry of the list, in the order of the code.\<close>

definition index_columns :: "pydict \<Rightarrow> string list \<Rightarrow> string list res" where
  "index_columns entry declared =
     (let v = get_or_none entry ''columns'';
          bad = raise_value (''index 'columns' must be a non-empty list of column names, got '' @ repr v) in
      case v of
        PList vs \<Rightarrow>
          if vs = [] \<or> \<not> list_all (\<lambda>v. is_str v \<and> truthy v) vs then bad
          else let columns = map str_of vs;
                   missing = filter (\<lambda>c. c \<notin> set declared) columns in
            if missing \<noteq> [] then raise_value (''index on undeclared column(s) '' @ repr_strs missing
              @ ''; declared columns: '' @ repr_strs (sorted_set declared))
            else Inr columns
      | _ \<Rightarrow> bad)"

definition index_unique :: "pydict \<Rightarrow> bool res" where
  "index_unique entry = (case get_default entry ''unique'' (PBool False) of
     PBool b \<Rightarrow> Inr b
   | v \<Rightarrow> raise_value (''index 'unique' must be a boolean, got '' @ repr v))"

definition index_type :: "pydict \<Rightarrow> string list \<Rightarrow> bool \<Rightarrow> string res" where
  "index_type entry columns unique =
     (let v = get_default entry ''type'' (PStr default_index_type);
          bad = raise_value (''unsupported index 'type' '' @ repr v @ ''; supported: '' @ join '', '' pg_index_types) in
      case v of
        PStr t \<Rightarrow>
          if t \<notin> set pg_index_types then bad
          else if unique \<and> t \<noteq> unique_index_type then
            raise_value (''index 'unique' requires type '' @ repr_str unique_index_type
              @ ''; postgres cannot enforce uniqueness with access method '' @ repr_str t)
          else if t \<in> set single_column_index_types \<and> length columns > 1 then
            raise_value (''index 'type' '' @ repr_str t @ '' indexes a single column; got ''
              @ nat_str (length columns) @ '': '' @ join '', '' (map repr_str columns))
          else Inr t
      | _ \<Rightarrow> bad)"

definition explicit_name :: "pydict \<Rightarrow> string option res" where
  "explicit_name entry = (case get_or_none entry ''name'' of
     PNone \<Rightarrow> Inr None
   | PStr (c # s) \<Rightarrow> Inr (Some (c # s))
   | v \<Rightarrow> raise_value (''index 'name' must be a non-empty string, got '' @ repr v))"

definition validated_index :: "string \<Rightarrow> string list \<Rightarrow> pyval \<Rightarrow> pg_index res" where
  "validated_index tbl declared entry =
     bind_res (ensure_known_keys entry pg_known_index_keys ''postgres'' ''config 'indexes' entry'') (\<lambda>_.
     let d = (case entry of PDict d \<Rightarrow> d | _ \<Rightarrow> []) in
     bind_res (index_columns d declared) (\<lambda>columns.
     bind_res (index_unique d) (\<lambda>unique.
     bind_res (index_type d columns unique) (\<lambda>t.
     bind_res (explicit_name d) (\<lambda>name.
     Inr \<lparr>ix_columns = columns, ix_unique = unique, ix_type = t,
          ix_name = (case name of Some n \<Rightarrow> truncate_explicit_identifier n | None \<Rightarrow> index_name tbl columns)\<rparr>)))))"

fun reject_duplicate_names :: "string list \<Rightarrow> pg_index list \<Rightarrow> unit res" where
  "reject_duplicate_names seen [] = Inr ()"
| "reject_duplicate_names seen (ix # ixs) =
     (if ix_name ix \<in> set seen then raise_value (''duplicate index name: '' @ repr_str (ix_name ix))
      else reject_duplicate_names (ix_name ix # seen) ixs)"

text \<open>The block is \<open>PNone\<close> when there is none.\<close>

definition validated_indexes :: "pyval \<Rightarrow> string \<Rightarrow> string list \<Rightarrow> pg_index list res" where
  "validated_indexes config tbl column_names =
     (if config = PNone then Inr []
      else bind_res (ensure_known_keys config pg_known_config_keys ''postgres'' ''config'') (\<lambda>_.
      let d = (case config of PDict d \<Rightarrow> d | _ \<Rightarrow> []) in
      case get_default d ''indexes'' (PList []) of
        PList entries \<Rightarrow>
          bind_res (traverse (validated_index tbl column_names) entries) (\<lambda>ixs.
          bind_res (reject_duplicate_names [] ixs) (\<lambda>_. Inr ixs))
      | v \<Rightarrow> raise_value (''config 'indexes' must be a list, got '' @ type_name v)))"

definition pg_validate_config :: "pyval \<Rightarrow> string list \<Rightarrow> unit res" where
  "pg_validate_config config column_names =
     bind_res (validated_indexes config ''_'' column_names) (\<lambda>_. Inr ())"

section \<open>Names fit\<close>

text \<open>The reference: the longest prefix of a text whose encoding has at most \<open>n\<close> bytes.\<close>

fun fitting :: "nat \<Rightarrow> string \<Rightarrow> string" where
  "fitting n [] = []"
| "fitting n (c # s) = (if length (utf8_char c) \<le> n then c # fitting (n - length (utf8_char c)) s else [])"

lemma utf8_char_decode:
  "utf8_decode_ignore (utf8_char c @ bs) = c # utf8_decode_ignore bs"
proof (cases c rule: utf8_char_cases)
  case (two a b)
  have "code_point c div 64 * 64 + code_point c mod 64 = code_point c" by simp
  with two show ?thesis by simp
qed simp

lemma utf8_decode_cut: "utf8_decode_ignore (take n (utf8 s)) = fitting n s"
proof (induction s arbitrary: n)
  case Nil
  then show ?case by (simp add: utf8_def)
next
  case (Cons c s)
  show ?case
  proof (cases "length (utf8_char c) \<le> n")
    case True
    then show ?thesis by (simp add: utf8_Cons utf8_char_decode Cons.IH)
  next
    case False
    have "utf8_decode_ignore (take n (utf8_char c)) = []"
    proof (cases c rule: utf8_char_cases)
      case one
      then have "n = 0" using False by simp
      then show ?thesis by simp
    next
      case (two a b)
      then have "n = 0 \<or> n = 1" using False by auto
      then show ?thesis using two by auto
    qed
    then show ?thesis using False by (simp add: utf8_Cons)
  qed
qed

lemma fitting_bound: "length (utf8 (fitting n s)) \<le> n"
proof (induction s arbitrary: n)
  case (Cons c s)
  have "length (utf8 (fitting (n - length (utf8_char c)) s)) \<le> n - length (utf8_char c)" by (rule Cons.IH)
  then show ?case by (auto simp: utf8_Cons) (simp add: utf8_def)
qed (simp add: utf8_def)

lemma fitting_prefix: "\<exists>t. s = fitting n s @ t"
proof (induction s arbitrary: n)
  case (Cons c s)
  then show ?case using Cons.IH [of "n - length (utf8_char c)"] by auto
qed simp

lemma fitting_maximal: "length (utf8 p) \<le> n \<Longrightarrow> length p \<le> length (fitting n (p @ t))"
proof (induction p arbitrary: n)
  case (Cons c p)
  then show ?case using Cons.IH [of "n - length (utf8_char c)"] by (simp add: utf8_Cons)
qed simp

lemma truncate_bound: "length (utf8 (truncate_explicit_identifier n)) \<le> max_identifier_bytes"
  by (simp add: truncate_explicit_identifier_def Let_def utf8_decode_cut fitting_bound)

lemma index_name_bound: "length (utf8 (index_name tbl cols)) \<le> max_identifier_bytes"
proof -
  have hex: "utf8 (take 8 (sha256_hex d)) = take 8 (sha256_hex d)" for d
    by (intro utf8_ascii ballI hex_ascii) (metis in_set_takeD sha256_hex_chars)
  have us: "utf8 ''_'' = ''_''" by (intro utf8_ascii) simp
  have long: "length (utf8 (fitting (63 - 9) name @ ''_'' @ take 8 (sha256_hex e))) \<le> 63" for name e
  proof -
    have "length ''_'' = 1" "63 - 9 = (54::nat)" by simp_all
    then show ?thesis
      using fitting_bound [of "63 - 9" name]
      by (simp only: utf8_append hex us length_append length_take sha256_hex_length)
  qed
  show ?thesis
    unfolding index_name_def Let_def utf8_decode_cut max_identifier_bytes_def
    by (split if_split, intro conjI impI) (assumption, rule long)
qed

section \<open>What validation promises\<close>

definition index_ok :: "string list \<Rightarrow> pg_index \<Rightarrow> bool" where
  "index_ok declared ix \<longleftrightarrow> ix_columns ix \<noteq> [] \<and> set (ix_columns ix) \<subseteq> set declared \<and> [] \<notin> set (ix_columns ix)
     \<and> ix_type ix \<in> set pg_index_types \<and> (ix_unique ix \<longrightarrow> ix_type ix = ''btree'')
     \<and> (ix_type ix = ''hash'' \<longrightarrow> length (ix_columns ix) = 1)
     \<and> ix_name ix \<noteq> [] \<and> length (utf8 (ix_name ix)) \<le> 63"

lemma index_columns_Inr:
  "index_columns d declared = Inr cs \<Longrightarrow> cs \<noteq> [] \<and> set cs \<subseteq> set declared \<and> [] \<notin> set cs"
proof -
  assume *: "index_columns d declared = Inr cs"
  then obtain vs where vs: "get_or_none d ''columns'' = PList vs"
    by (cases "get_or_none d ''columns''") (simp_all add: index_columns_def)
  with * have "vs \<noteq> []" "\<forall>v\<in>set vs. is_str v \<and> truthy v" "cs = map str_of vs" "\<forall>c\<in>set cs. c \<in> set declared"
    by (auto simp: index_columns_def Let_def filter_empty_conv list_all_iff split: if_splits)
  then show ?thesis by (auto simp: is_str_iff)
qed

lemma index_columns_error: "index_columns d declared = Inl e \<Longrightarrow> exn_kind e = ValueError"
  by (auto simp: index_columns_def Let_def split: pyval.splits if_splits)

lemma index_type_Inr:
  "index_type d cs u = Inr t \<Longrightarrow> t \<in> set pg_index_types \<and> (u \<longrightarrow> t = ''btree'') \<and> (t = ''hash'' \<longrightarrow> length cs \<le> 1)"
  by (auto simp: index_type_def Let_def unique_index_type_def single_column_index_types_def
      split: pyval.splits if_splits)

lemma index_type_error: "index_type d cs u = Inl e \<Longrightarrow> exn_kind e = ValueError"
  by (auto simp: index_type_def Let_def split: pyval.splits if_splits)

lemma index_unique_error: "index_unique d = Inl e \<Longrightarrow> exn_kind e = ValueError"
  by (auto simp: index_unique_def split: pyval.splits)

lemma explicit_name_error: "explicit_name d = Inl e \<Longrightarrow> exn_kind e = ValueError"
  by (auto simp: explicit_name_def split: pyval.splits list.splits)

lemma explicit_name_Inr: "explicit_name d = Inr (Some n) \<Longrightarrow> n \<noteq> []"
  by (auto simp: explicit_name_def split: pyval.splits list.splits)

lemmas index_errors = index_columns_error index_type_error index_unique_error explicit_name_error ensure_known_keys_eq_Inl

lemma truncate_not_Nil: "n \<noteq> [] \<Longrightarrow> truncate_explicit_identifier n \<noteq> []"
proof (cases n)
  case (Cons c s)
  have "length (utf8_char c) \<le> 63" by (cases c rule: utf8_char_cases) simp_all
  then show ?thesis
    using Cons by (simp add: truncate_explicit_identifier_def Let_def utf8_decode_cut max_identifier_bytes_def)
qed simp

lemma index_name_not_Nil: "index_name tbl cols \<noteq> []"
  by (simp add: index_name_def Let_def full_index_name_def)

lemma validated_index_Inr:
  assumes "validated_index tbl declared entry = Inr ix"
  shows "index_ok declared ix"
proof -
  from assms obtain d cs u t n where cs: "index_columns d declared = Inr cs" and t: "index_type d cs u = Inr t"
    and n: "explicit_name d = Inr n"
    and ix: "ix = \<lparr>ix_columns = cs, ix_unique = u, ix_type = t,
      ix_name = (case n of Some n \<Rightarrow> truncate_explicit_identifier n | None \<Rightarrow> index_name tbl cs)\<rparr>"
    by (auto simp: validated_index_def res_simps Let_def)
  have "ix_name ix \<noteq> []"
    using explicit_name_Inr n ix truncate_not_Nil index_name_not_Nil by (auto split: option.splits)
  moreover have "length (utf8 (ix_name ix)) \<le> 63"
    using truncate_bound index_name_bound by (simp add: ix max_identifier_bytes_def split: option.splits)
  ultimately show ?thesis
    using index_columns_Inr [OF cs] index_type_Inr [OF t]
    by (cases cs) (auto simp: index_ok_def ix)
qed

lemma validated_index_error: "validated_index tbl declared entry = Inl e \<Longrightarrow> exn_kind e = ValueError"
  by (auto simp: validated_index_def res_simps Let_def dest: index_errors)

lemma reject_duplicate_names_Inr:
  "reject_duplicate_names seen ixs = Inr u \<longleftrightarrow> distinct (map ix_name ixs) \<and> set (map ix_name ixs) \<inter> set seen = {}"
  by (induction ixs arbitrary: seen) auto

lemma reject_duplicate_names_Inl:
  "reject_duplicate_names seen ixs = Inl e \<Longrightarrow> \<exists>n. e = Exn ValueError (''duplicate index name: '' @ repr_str n)"
  by (induction ixs arbitrary: seen) (auto split: if_splits)

lemma traverse_Inl: "traverse f xs = Inl e \<Longrightarrow> \<exists>x\<in>set xs. f x = Inl e"
  by (induction xs) (auto simp: res_simps)

lemma validated_indexes_Inr:
  assumes "validated_indexes config tbl declared = Inr ixs"
  shows "(\<forall>ix\<in>set ixs. index_ok declared ix) \<and> distinct (map ix_name ixs)"
proof (cases "config = PNone")
  case True
  then show ?thesis using assms by (simp add: validated_indexes_def)
next
  case False
  then obtain entries where ixs: "traverse (validated_index tbl declared) entries = Inr ixs"
    and d: "reject_duplicate_names [] ixs = Inr ()"
    using assms by (auto simp: validated_indexes_def res_simps Let_def split: pyval.splits)
  have "index_ok declared ix" if "ix \<in> set ixs" for ix
    using ixs that validated_index_Inr by (auto simp: traverse_eq_Inr list_all2_conv_all_nth in_set_conv_nth)
  then show ?thesis using d by (simp add: reject_duplicate_names_Inr)
qed

lemma validated_indexes_error: "validated_indexes config tbl declared = Inl e \<Longrightarrow> exn_kind e = ValueError"
  by (auto simp: validated_indexes_def res_simps Let_def split: pyval.splits if_splits
      dest: ensure_known_keys_eq_Inl traverse_Inl validated_index_error reject_duplicate_names_Inl)

text \<open>The table's name reaches the default names only.\<close>

lemma validated_index_table:
  assumes "validated_index tbl declared entry = Inr ix"
  shows "\<exists>ix'. validated_index tbl' declared entry = Inr ix'"
  using assms by (auto simp: validated_index_def res_simps Let_def)

lemma validated_indexes_early:
  assumes ok: "validated_indexes config tbl declared = Inr ixs" and "pg_validate_config config declared = Inl e"
  shows "\<exists>n. e = Exn ValueError (''duplicate index name: '' @ repr_str n)"
proof (cases "config = PNone")
  case False
  then obtain entries where "ensure_known_keys config pg_known_config_keys ''postgres'' ''config'' = Inr ()"
    and e: "get_default (case config of PDict d \<Rightarrow> d | _ \<Rightarrow> []) ''indexes'' (PList []) = PList entries"
    and ixs: "traverse (validated_index tbl declared) entries = Inr ixs"
    using ok by (auto simp: validated_indexes_def res_simps Let_def split: pyval.splits)
  have "\<exists>ixs'. traverse (validated_index ''_'' declared) entries = Inr ixs'"
  proof (cases "traverse (validated_index ''_'' declared) entries")
    case (Inl x)
    from traverse_Inl [OF this] obtain y where "y \<in> set entries" "validated_index ''_'' declared y = Inl x" by blast
    moreover from traverse_unit_Inr [OF ixs this(1)] obtain ix where "validated_index tbl declared y = Inr ix" by blast
    ultimately show ?thesis using validated_index_table [of tbl declared y ix "''_''"] by auto
  qed simp
  then show ?thesis
    using assms(2) e False reject_duplicate_names_Inl
    by (auto simp: pg_validate_config_def validated_indexes_def res_simps Let_def)
      (use \<open>ensure_known_keys config pg_known_config_keys ''postgres'' ''config'' = Inr ()\<close> in auto)
qed (use assms in \<open>simp add: pg_validate_config_def validated_indexes_def\<close>)

end
