(* ===== verification/Quoting.thy ===== *)
theory Quoting
  imports PyStr
begin

text \<open>
  Quoted identifiers and string literals of SQL: the text between two quote characters, with every quote
  character inside doubled. \<open>read_quoted\<close> is the reference reader of an SQL scanner; what the adapters
  write is read back whole, whatever the text and whatever follows it.
\<close>

definition quoted :: "char \<Rightarrow> string \<Rightarrow> string" where
  "quoted q s = q # replace_char q [q, q] s @ [q]"

fun read_body :: "char \<Rightarrow> string \<Rightarrow> (string \<times> string) option" where
  "read_body q [] = None"
| "read_body q [c] = (if c = q then Some ([], []) else None)"
| "read_body q (c # d # s) =
     (if c \<noteq> q then map_option (\<lambda>(body, rest). (c # body, rest)) (read_body q (d # s))
      else if d = q then map_option (\<lambda>(body, rest). (q # body, rest)) (read_body q s)
      else Some ([], d # s))"

definition read_quoted :: "char \<Rightarrow> string \<Rightarrow> (string \<times> string) option" where
  "read_quoted q s = (case s of [] \<Rightarrow> None | c # rest \<Rightarrow> if c = q then read_body q rest else None)"

lemma replace_char_Cons: "replace_char q r (c # s) = (if c = q then r else [c]) @ replace_char q r s"
  by (simp add: replace_char_def)

lemma read_body_quoted:
  "\<forall>r. rest \<noteq> q # r \<Longrightarrow> read_body q (replace_char q [q, q] s @ q # rest) = Some (s, rest)"
proof (induction s)
  case Nil
  then show ?case by (cases rest) (simp_all add: replace_char_def)
next
  case (Cons c s)
  obtain d t where "replace_char q [q, q] s @ q # rest = d # t" by (cases "replace_char q [q, q] s @ q # rest") auto
  with Cons show ?case by (auto simp: replace_char_Cons)
qed

lemma read_quoted: "\<forall>r. rest \<noteq> q # r \<Longrightarrow> read_quoted q (quoted q s @ rest) = Some (s, rest)"
  by (simp add: read_quoted_def quoted_def read_body_quoted)

lemma read_quoted_whole: "read_quoted q (quoted q s) = Some (s, [])"
  using read_quoted [of "[]" q s] by simp

lemma quoted_inject [simp]: "quoted q s = quoted q t \<longleftrightarrow> s = t"
proof
  assume "quoted q s = quoted q t"
  from arg_cong [OF this, of "read_quoted q"] show "s = t" by (simp only: read_quoted_whole option.inject prod.inject)
qed simp

lemma quoted_prefix:
  assumes "quoted q s @ u = quoted q t @ v" and "\<forall>r. u \<noteq> q # r" and "\<forall>r. v \<noteq> q # r"
  shows "s = t \<and> u = v"
proof -
  have "Some (s, u) = read_quoted q (quoted q s @ u)" by (simp only: read_quoted [OF assms(2)])
  also have "\<dots> = Some (t, v)" by (simp only: assms(1) read_quoted [OF assms(3)])
  finally show ?thesis by simp
qed

end
