(* ===== verification/AdapterBase.thy ===== *)
theory AdapterBase
  imports RunContext Effects Quoting
begin

text \<open>
  What the warehouse adapters share: a column as a mapping, the statement of a read without its
  terminator, the Arrow table of fetched rows, the rows of an Arrow table, the environment.
\<close>

section \<open>Columns\<close>

text \<open>
  A column arrives as a mapping, from the contract (\<open>column_dict\<close>) or from a JSON spec. A missing
  key raises a \<^verbatim>\<open>KeyError\<close>, a name or a type that is no string a \<^verbatim>\<open>TypeError\<close>.
\<close>

definition column_dict :: "column \<Rightarrow> pyval" where
  "column_dict c = PDict [(PStr ''name'', PStr (col_name c)), (PStr ''type'', PStr (col_type c)),
     (PStr ''nullable'', PBool (col_nullable c))]"

definition subscript :: "pyval \<Rightarrow> string \<Rightarrow> pyval res" where
  "subscript v k = (case v of
     PDict d \<Rightarrow> (case dict_get d k of Some x \<Rightarrow> Inr x | None \<Rightarrow> Inl (Exn KeyError (repr_str k)))
   | PList xs \<Rightarrow> Inl (Exn TypeError ''list indices must be integers or slices, not str'')
   | PStr s \<Rightarrow> Inl (Exn TypeError (''string indices must be integers, not '' @ repr_str ''str''))
   | _ \<Rightarrow> Inl (Exn TypeError (repr_str (type_name v) @ '' object is not subscriptable'')))"

definition string_item :: "pyval \<Rightarrow> string \<Rightarrow> string res" where
  "string_item v k = bind_res (subscript v k) (\<lambda>x. case x of
     PStr s \<Rightarrow> Inr s
   | _ \<Rightarrow> Inl (Exn TypeError (''expected string, got '' @ type_name x)))"

definition is_nullable :: "pyval \<Rightarrow> bool" where
  "is_nullable v = (case v of PDict d \<Rightarrow> truthy (get_default d ''nullable'' (PBool True)) | _ \<Rightarrow> True)"

definition validate_types :: "pyval list \<Rightarrow> unit res" where
  "validate_types columns = each (\<lambda>c. bind_res (string_item c ''type'') validate_column_type) columns"

definition names_of :: "pyval list \<Rightarrow> string list res" where
  "names_of columns = traverse (\<lambda>c. string_item c ''name'') columns"

section \<open>Reads\<close>

text \<open>\<^verbatim>\<open>sql.strip().rstrip(";").strip()\<close>.\<close>

definition bare_read :: "string \<Rightarrow> string" where
  "bare_read sql = strip (rstrip_char (CHR '';'') (strip sql))"

text \<open>
  \<^verbatim>\<open>_arrow_table_from_rows\<close>; \<open>null\<close> is the Arrow type of a column without values, and a
  table of no columns has no rows. The type of each column is pyarrow's.
\<close>

fun repeated_names :: "string list \<Rightarrow> string list \<Rightarrow> string list" where
  "repeated_names seen [] = []"
| "repeated_names seen (n # ns) =
     (if n \<in> set seen then n # repeated_names seen ns else repeated_names (n # seen) ns)"

definition arrow_from_rows ::
  "(pyval list \<Rightarrow> (arrow_type \<times> pyval list) res) \<Rightarrow> string list \<Rightarrow> pyval list list \<Rightarrow> arrow_table res" where
  "arrow_from_rows infer colnames rows =
     (let duplicates = repeated_names [] colnames in
      if duplicates \<noteq> [] then
        raise_value (''duplicate column name(s) in SELECT result: '' @ repr_strs (sorted_set duplicates))
      else if rows = [] then
        Inr \<lparr>table_cols = map (\<lambda>n. (n, ArrowOther ''null'', [])) colnames, num_rows = 0\<rparr>
      else bind_res (traverse (\<lambda>(n, vs). bind_res (infer vs) (\<lambda>(a, xs). Inr (n, a, xs)))
             (zip colnames (map (\<lambda>i. map (\<lambda>row. row ! i) rows) [0..<length colnames]))) (\<lambda>cols.
        Inr \<lparr>table_cols = cols, num_rows = (if colnames = [] then 0 else length rows)\<rparr>))"

fun live_of_row :: "pyval list \<Rightarrow> live_column" where
  "live_of_row [PStr n, v] = \<lparr>live_name = n, live_nullable = (v = PStr ''YES'')\<rparr>"
| "live_of_row row = \<lparr>live_name = [], live_nullable = False\<rparr>"

section \<open>Writes and the environment\<close>

definition row_values :: "arrow_table \<Rightarrow> pyval list list" where
  "row_values t = map (\<lambda>i. map (\<lambda>n. column_values t n ! i) (column_names t)) [0..<num_rows t]"

definition env_value :: "(string \<Rightarrow> string option) \<Rightarrow> string \<Rightarrow> string res" where
  "env_value env name = (case env name of Some v \<Rightarrow> Inr v | None \<Rightarrow> Inl (Exn KeyError (repr_str name)))"

definition env_or :: "(string \<Rightarrow> string option) \<Rightarrow> string \<Rightarrow> string \<Rightarrow> string" where
  "env_or env name default_value = (case env name of Some v \<Rightarrow> v | None \<Rightarrow> default_value)"

end
