(* ===== verification/Postgres.thy ===== *)
theory Postgres
  imports PgLayout AdapterBase
begin

text \<open>
  \<^verbatim>\<open>PostgresAdapter\<close> (\<^verbatim>\<open>adapters/postgres/continuo_postgres_adapter/adapter.py\<close>):
  its statements and its operations, over a driver. The driver is psycopg2 and the server behind it,
  a parameter: what a call does to the session, how composed SQL renders to text, which exceptions
  are its own. Statements are composed of raw text and identifiers, as in the code; nothing else
  reaches the server.
\<close>

section \<open>Statements\<close>

datatype sql_part = Raw string | Ident string

type_synonym composed = "sql_part list"

text \<open>\<^verbatim>\<open>SQL(sep).join(parts)\<close>.\<close>

fun join_parts :: "string \<Rightarrow> composed list \<Rightarrow> composed" where
  "join_parts sep [] = []"
| "join_parts sep [p] = p"
| "join_parts sep (p # q # ps) = p @ Raw sep # join_parts sep (q # ps)"

definition idents :: "string list \<Rightarrow> composed" where
  "idents ns = join_parts '', '' (map (\<lambda>n. [Ident n]) ns)"

definition index_ddl :: "string \<Rightarrow> string \<Rightarrow> pg_index \<Rightarrow> bool \<Rightarrow> composed" where
  "index_ddl schema tbl ix if_not_exists =
     [Raw ''CREATE '', Raw (if ix_unique ix then ''UNIQUE '' else ''''), Raw ''INDEX '',
      Raw (if if_not_exists then ''IF NOT EXISTS '' else ''''), Ident (ix_name ix), Raw '' ON '',
      Ident schema, Raw ''.'', Ident tbl, Raw '' USING '', Ident (ix_type ix), Raw '' ('']
     @ idents (ix_columns ix) @ [Raw '')'']"

definition column_ddl_part :: "pyval \<Rightarrow> composed res" where
  "column_ddl_part c = bind_res (string_item c ''name'') (\<lambda>n. bind_res (string_item c ''type'') (\<lambda>t.
     Inr ([Ident n, Raw '' '', Raw t] @ (if is_nullable c then [] else [Raw '' '', Raw ''NOT NULL'']))))"

definition column_ddl :: "pyval list \<Rightarrow> composed res" where
  "column_ddl columns = bind_res (traverse column_ddl_part columns) (\<lambda>parts. Inr (join_parts '', '' parts))"

definition primary_key_ddl :: "string list \<Rightarrow> composed" where
  "primary_key_ddl key = Raw ''PRIMARY KEY ('' # idents key @ [Raw '')'']"

definition table_ref :: "string \<Rightarrow> string \<Rightarrow> composed" where
  "table_ref schema tbl = [Ident schema, Raw ''.'', Ident tbl]"

definition insert_prefix :: "string \<Rightarrow> string \<Rightarrow> string list \<Rightarrow> composed" where
  "insert_prefix schema tbl columns = Raw ''INSERT INTO '' # table_ref schema tbl @ Raw '' ('' # idents columns @ [Raw '')'']"

definition on_conflict :: "string list \<Rightarrow> string list \<Rightarrow> composed" where
  "on_conflict columns key =
     (let updates = filter (\<lambda>n. n \<notin> set key) columns in
      if updates = [] then Raw ''ON CONFLICT ('' # idents key @ [Raw '') DO NOTHING'']
      else Raw ''ON CONFLICT ('' # idents key @ Raw '') DO UPDATE SET ''
        # join_parts '', '' (map (\<lambda>n. [Ident n, Raw '' = EXCLUDED.'', Ident n]) updates))"

section \<open>The driver\<close>

text \<open>
  A call of the connection or of a cursor on it. A plain text is a statement without identifiers.
  \<open>ExecuteValues\<close> is psycopg2's batched insert: the statement, the rows, the page size.
\<close>

datatype pg_call =
    Execute composed
  | ExecuteParams string "string list"
  | ExecuteValues string "pyval list list" nat
  | ConnCommit
  | ConnRollback
  | ConnClose

text \<open>What a statement returned: the names of its columns, if it has any, and its rows.\<close>

type_synonym pg_rows = "(string list \<times> pyval list list) option"

record 'w pg_driver =
  pg_exec :: "pg_call \<Rightarrow> ('w, pg_rows) op"
  pg_render :: "composed \<Rightarrow> string"
  pg_error :: "exn \<Rightarrow> bool"
  pg_schema_race :: "exn \<Rightarrow> bool"
  pg_array :: "pyval list \<Rightarrow> (arrow_type \<times> pyval list) res"
  pg_parse :: sql_parser

definition run_sql :: "'w pg_driver \<Rightarrow> composed \<Rightarrow> ('w, unit) op" where
  "run_sql d parts = op_then (pg_exec d (Execute parts)) (op_return ())"

definition run_call :: "'w pg_driver \<Rightarrow> pg_call \<Rightarrow> ('w, unit) op" where
  "run_call d c = op_then (pg_exec d c) (op_return ())"

definition begin_sql :: composed where "begin_sql = [Raw ''BEGIN'']"
definition begin_read_only :: composed where "begin_read_only = [Raw ''BEGIN READ ONLY'']"
definition commit_sql :: composed where "commit_sql = [Raw ''COMMIT'']"
definition rollback_sql :: composed where "rollback_sql = [Raw ''ROLLBACK'']"

text \<open>The rollback of an error path: its own database error is only logged.\<close>

definition rollback_quietly :: "'w pg_driver \<Rightarrow> ('w, unit) op" where
  "rollback_quietly d = op_except (run_sql d rollback_sql) (\<lambda>e. if pg_error d e then op_return () else op_raise e)"

definition on_error_rollback :: "'w pg_driver \<Rightarrow> ('w, unit) op \<Rightarrow> ('w, unit) op" where
  "on_error_rollback d body = op_except body (\<lambda>e. op_then (rollback_quietly d) (op_raise e))"

text \<open>\<^verbatim>\<open>_transaction\<close>.\<close>

definition pg_transaction :: "'w pg_driver \<Rightarrow> ('w, unit) op \<Rightarrow> ('w, unit) op" where
  "pg_transaction d body =
     op_then (run_sql d begin_sql) (on_error_rollback d (op_then body (run_sql d commit_sql)))"

section \<open>Schemas and validation builds\<close>

definition pg_ensure_schema :: "'w pg_driver \<Rightarrow> string \<Rightarrow> ('w, unit) op" where
  "pg_ensure_schema d schema =
     op_then (run_call d (ExecuteParams ''SELECT pg_advisory_lock(hashtext(%s))'' [schema]))
     (op_then (run_call d ConnCommit)
     (op_finally
       (op_except
         (op_then (run_sql d [Raw ''CREATE SCHEMA IF NOT EXISTS '', Ident schema]) (run_call d ConnCommit))
         (\<lambda>e. op_then (run_call d ConnRollback) (if pg_schema_race d e then op_return () else op_raise e)))
       (op_then (run_call d (ExecuteParams ''SELECT pg_advisory_unlock(hashtext(%s))'' [schema]))
         (run_call d ConnCommit))))"

definition pg_drop_schema :: "'w pg_driver \<Rightarrow> string \<Rightarrow> ('w, unit) op" where
  "pg_drop_schema d schema = run_sql d [Raw ''DROP SCHEMA IF EXISTS '', Ident schema, Raw '' CASCADE'']"

definition drop_table_sql :: "string \<Rightarrow> string \<Rightarrow> composed" where
  "drop_table_sql schema tbl = Raw ''DROP TABLE IF EXISTS '' # table_ref schema tbl"

definition pg_build_empty_from_sql :: "'w pg_driver \<Rightarrow> string \<Rightarrow> string \<Rightarrow> string \<Rightarrow> ('w, unit) op" where
  "pg_build_empty_from_sql d schema tbl compiled_sql =
     op_then (run_sql d (drop_table_sql schema tbl))
     (run_sql d (Raw ''CREATE TABLE '' # table_ref schema tbl
        @ [Raw '' AS ('', Raw (bare_read compiled_sql), Raw '') WITH NO DATA'']))"

definition pg_clone_empty_from_prod :: "'w pg_driver \<Rightarrow> string \<Rightarrow> string \<Rightarrow> string \<Rightarrow> ('w, unit) op" where
  "pg_clone_empty_from_prod d candidate_schema prod_schema tbl =
     op_then (run_sql d (drop_table_sql candidate_schema tbl))
     (run_sql d (Raw ''CREATE TABLE '' # table_ref candidate_schema tbl @ Raw '' AS SELECT * FROM ''
        # table_ref prod_schema tbl @ [Raw '' WHERE 1=0'']))"

definition create_table_sql :: "string \<Rightarrow> string \<Rightarrow> string \<Rightarrow> composed \<Rightarrow> composed" where
  "create_table_sql command schema tbl elements =
     Raw command # table_ref schema tbl @ Raw '' ('' # elements @ [Raw '')'']"

text \<open>The commit stands after the \<^verbatim>\<open>try\<close>: a commit that fails is not rolled back.\<close>

definition pg_build_empty_from_columns ::
  "'w pg_driver \<Rightarrow> string \<Rightarrow> string \<Rightarrow> pyval list \<Rightarrow> pyval \<Rightarrow> ('w, unit) op" where
  "pg_build_empty_from_columns d schema tbl columns config =
     op_then (op_of_res (validate_types columns))
     (op_bind (op_of_res (column_ddl columns)) (\<lambda>ddl.
      op_bind (op_of_res (bind_res (names_of columns) (validated_indexes config tbl))) (\<lambda>ixs.
      op_then (run_sql d begin_sql)
      (op_then (on_error_rollback d
         (op_then (run_sql d (drop_table_sql schema tbl))
         (op_then (run_sql d (create_table_sql ''CREATE TABLE '' schema tbl ddl))
         (op_each (\<lambda>ix. run_sql d (index_ddl schema tbl ix False)) ixs))))
      (run_sql d commit_sql)))))"

definition pg_check_binds :: "'w pg_driver \<Rightarrow> string \<Rightarrow> ('w, unit) op" where
  "pg_check_binds d sql =
     op_then (op_of_res (ensure_single_read (pg_parse d) sql (Some ''postgres'')))
     (op_then (run_sql d begin_read_only)
     (op_finally
       (run_sql d [Raw (''EXPLAIN SELECT * FROM ('' @ [newline]), Raw (bare_read sql),
          Raw ([newline] @ '') AS __check_binds__'')])
       (rollback_quietly d)))"

section \<open>Reads\<close>

definition rows_table :: "'w pg_driver \<Rightarrow> pg_rows \<Rightarrow> arrow_table res" where
  "rows_table d result = (case result of
     None \<Rightarrow> arrow_from_rows (pg_array d) [] []
   | Some (colnames, rows) \<Rightarrow> arrow_from_rows (pg_array d) colnames rows)"

definition pg_fetch :: "'w pg_driver \<Rightarrow> string \<Rightarrow> ('w, arrow_table) op" where
  "pg_fetch d sql = op_except
     (op_bind (pg_exec d (Execute [Raw sql])) (\<lambda>result.
      op_bind (op_of_res (rows_table d result)) (\<lambda>t.
      op_then (run_call d ConnCommit) (op_return t))))
     (\<lambda>e. op_then (run_call d ConnRollback) (op_raise e))"

definition table_columns_query :: string where
  "table_columns_query = ''SELECT column_name, is_nullable FROM information_schema.columns ''
     @ ''WHERE table_schema = %s AND table_name = %s ORDER BY ordinal_position''"

definition pg_table_columns :: "'w pg_driver \<Rightarrow> string \<Rightarrow> string \<Rightarrow> ('w, live_column list) op" where
  "pg_table_columns d schema tbl =
     op_bind (pg_exec d (ExecuteParams table_columns_query [schema, tbl])) (\<lambda>result.
     let rows = (case result of None \<Rightarrow> [] | Some (_, rows) \<Rightarrow> rows) in
     if rows = [] then op_raise (Exn LookupError (''table '' @ schema @ ''.'' @ tbl @ '' does not exist''))
     else op_return (map live_of_row rows))"

section \<open>Writes\<close>

definition insert_page_size :: nat where "insert_page_size = 1000"

text \<open>
  \<^verbatim>\<open>_insert_rows\<close>: every percent sign of the rendered text is doubled, since
  \<^verbatim>\<open>execute_values\<close> reads the text again as a template; only its own token is left single.
\<close>

definition double_percents :: "string \<Rightarrow> string" where
  "double_percents s = replace_char (CHR ''%'') ''%%'' s"

definition values_statement :: "(composed \<Rightarrow> string) \<Rightarrow> composed \<Rightarrow> composed option \<Rightarrow> string" where
  "values_statement render prefix suffix =
     double_percents (render prefix) @ '' VALUES %s''
     @ (case suffix of None \<Rightarrow> [] | Some parts \<Rightarrow> '' '' @ double_percents (render parts))"

definition insert_rows ::
  "'w pg_driver \<Rightarrow> string \<Rightarrow> string \<Rightarrow> arrow_table \<Rightarrow> composed option \<Rightarrow> ('w, unit) op" where
  "insert_rows d schema tbl data suffix =
     run_call d (ExecuteValues
       (values_statement (pg_render d) (insert_prefix schema tbl (column_names data)) suffix)
       (row_values data) insert_page_size)"

definition pg_load :: "'w pg_driver \<Rightarrow> string \<Rightarrow> string \<Rightarrow> arrow_table \<Rightarrow> ('w, unit) op" where
  "pg_load d schema tbl data = pg_transaction d
     (op_then (run_sql d (Raw ''TRUNCATE '' # table_ref schema tbl))
        (if num_rows data \<noteq> 0 then insert_rows d schema tbl data None else op_return ()))"

definition pg_append :: "'w pg_driver \<Rightarrow> string \<Rightarrow> string \<Rightarrow> arrow_table \<Rightarrow> ('w, unit) op" where
  "pg_append d schema tbl data =
     (if num_rows data = 0 then op_return ()
      else pg_transaction d (insert_rows d schema tbl data None))"

definition pg_upsert_rows ::
  "'w pg_driver \<Rightarrow> string \<Rightarrow> string \<Rightarrow> arrow_table \<Rightarrow> string list \<Rightarrow> ('w, unit) op" where
  "pg_upsert_rows d schema tbl data key =
     (if num_rows data = 0 then op_return ()
      else pg_transaction d (insert_rows d schema tbl data (Some (on_conflict (column_names data) key))))"

text \<open>The create and every index, all or none.\<close>

definition pg_create_indexed ::
  "'w pg_driver \<Rightarrow> string \<Rightarrow> string \<Rightarrow> composed \<Rightarrow> pg_index list \<Rightarrow> ('w, unit) op" where
  "pg_create_indexed d schema tbl elements ixs =
     op_then (run_sql d begin_sql)
     (on_error_rollback d
       (op_then (run_sql d (create_table_sql ''CREATE TABLE IF NOT EXISTS '' schema tbl elements))
       (op_then (op_each (\<lambda>ix. run_sql d (index_ddl schema tbl ix True)) ixs)
       (run_sql d commit_sql))))"

definition pg_ensure_table ::
  "'w pg_driver \<Rightarrow> string \<Rightarrow> string \<Rightarrow> pyval list \<Rightarrow> pyval \<Rightarrow> string list \<Rightarrow> ('w, unit) op" where
  "pg_ensure_table d schema tbl columns config key =
     op_bind (op_of_res (names_of columns)) (\<lambda>declared.
     op_bind (op_of_res (validated_indexes config tbl declared)) (\<lambda>ixs.
     op_then (op_of_res (validate_types columns))
     (let undeclared = filter (\<lambda>n. n \<notin> set declared) key in
      op_then (op_of_res (require (undeclared = []) (Exn ValueError
        (''primary key on undeclared column(s) '' @ repr_strs undeclared @ ''; declared columns: '' @ repr_strs declared))))
      (op_then (pg_ensure_schema d schema)
      (op_bind (op_of_res (column_ddl columns)) (\<lambda>ddl.
       let elements = (if key = [] then ddl else ddl @ Raw '', '' # primary_key_ddl key) in
       pg_create_indexed d schema tbl elements ixs))))))"

definition pg_close :: "'w pg_driver \<Rightarrow> ('w, unit) op" where
  "pg_close d = run_call d ConnClose"

section \<open>The adapter\<close>

text \<open>The adapter as the harness sees it: both write capabilities and the early config check.\<close>

definition postgres_adapter :: "'w pg_driver \<Rightarrow> 'w adapter" where
  "postgres_adapter d = \<lparr>
     ad_name = ''PostgresAdapter'',
     ad_fetch = pg_fetch d,
     ad_validate_config = Some (\<lambda>config names. op_of_res (pg_validate_config (PDict config) names)),
     ad_ensure_table = (\<lambda>schema tbl columns config key.
       pg_ensure_table d schema tbl (map column_dict columns) (PDict config) key),
     ad_table_columns = pg_table_columns d,
     ad_load = pg_load d,
     ad_append = Some (pg_append d),
     ad_upsert_rows = Some (pg_upsert_rows d),
     ad_close = pg_close d\<rparr>"

definition pg_required_env :: "string list" where
  "pg_required_env = [''POSTGRES_HOST'', ''POSTGRES_DB'', ''POSTGRES_USER'']"

text \<open>
  \<^verbatim>\<open>from_env\<close>: the parameters come from the environment, \<open>connect\<close> is the driver's, on a world
  that \<open>pause\<close> lets time pass in.
\<close>

definition pg_params :: "(string \<Rightarrow> string option) \<Rightarrow> (string \<times> string) list res" where
  "pg_params env =
     bind_res (env_value env ''POSTGRES_HOST'') (\<lambda>host.
     bind_res (env_value env ''POSTGRES_DB'') (\<lambda>db.
     bind_res (env_value env ''POSTGRES_USER'') (\<lambda>user.
     Inr [(''host'', host), (''port'', env_or env ''POSTGRES_PORT'' ''5432''), (''dbname'', db), (''user'', user),
          (''password'', env_or env ''POSTGRES_PASSWORD'' [])])))"

definition pg_from_env ::
  "((string \<times> string) list \<Rightarrow> ('n, 'w pg_driver) op) \<Rightarrow> (exn \<Rightarrow> bool) \<Rightarrow> (unit \<Rightarrow> 'n \<Rightarrow> 'n) \<Rightarrow>
   (string \<Rightarrow> string option) \<Rightarrow> ('n, 'w adapter) op" where
  "pg_from_env connect operational pause env =
     op_bind (op_of_res (pg_params env)) (\<lambda>params.
     op_bind (retry (connect_delay operational) pause (connect params) 1 (connect_attempts - 1)) (\<lambda>d.
     op_return (postgres_adapter d)))"

end
