(* ===== verification/Atomicity.thy ===== *)
theory Atomicity
  imports Harness Effects
begin

text \<open>
  What the harness may rely on when an adapter keeps the port's promises on atomicity: the
  interface \<open>atomic_adapter\<close> states them over the rows a warehouse holds (\<open>contents\<close>), and the lemma
  inside shows what they give a whole run: a run that reports an error has changed no row.
\<close>

section \<open>Actions as operations\<close>

lemma act_ops:
  "bind_act m f = op_bind m f" "of_res r = op_of_res r" "return_act a = op_return a"
  "catch_act g m = op_except m (\<lambda>e. op_raise (g e))"
  by (auto simp: fun_eq_iff bind_act_def op_bind_def of_res_def op_of_res_def return_act_def op_return_def
      catch_act_def op_except_def op_raise_def map_exn_def split: prod.splits sum.splits)

lemma wp_bind_act [wp_simps]: "wp (bind_act m f) Q E = wp m (\<lambda>a. wp (f a) Q E) E"
  by (simp add: act_ops wp_simps)

lemma wp_of_res_act [wp_simps]: "wp (of_res r) Q E s = (case r of Inl e \<Rightarrow> E e s | Inr a \<Rightarrow> Q a s)"
  by (simp add: act_ops wp_simps)

lemma wp_return_act [wp_simps]: "wp (return_act a) Q E = Q a"
  by (simp add: act_ops wp_simps)

lemma wp_catch_act [wp_simps]: "wp (catch_act g m) Q E = wp m Q (\<lambda>e. E (g e))"
  by (simp add: act_ops wp_simps)

lemma wp_call [wp_simps]:
  "wp (call ev m) Q E s =
     wp m (\<lambda>a u. Q a (s\<lparr>warehouse := u, trace := trace s @ [ev]\<rparr>)) (\<lambda>e u. E e (s\<lparr>warehouse := u, trace := trace s @ [ev]\<rparr>))
       (warehouse s)"
  by (auto simp: wp_def call_def split: prod.splits sum.splits)

section \<open>The interface\<close>

locale atomic_adapter =
  fixes ad :: "'w adapter" and contents :: "'w \<Rightarrow> 'c" and ready :: "'w \<Rightarrow> bool"
    and read_only :: "string \<Rightarrow> bool"
  assumes fetch_keeps: "ready w \<Longrightarrow> read_only sql \<Longrightarrow> contents w = c \<Longrightarrow>
      wp (ad_fetch ad sql) (\<lambda>_ u. ready u \<and> contents u = c) (\<lambda>_ u. ready u \<and> contents u = c) w"
    and validate_keeps: "ready w \<Longrightarrow> ad_validate_config ad = Some v \<Longrightarrow> contents w = c \<Longrightarrow>
      wp (v config names) (\<lambda>_ u. ready u \<and> contents u = c) (\<lambda>_ u. contents u = c) w"
    and ensure_keeps: "ready w \<Longrightarrow> contents w = c \<Longrightarrow>
      wp (ad_ensure_table ad schema tbl cols config key) (\<lambda>_ u. ready u \<and> contents u = c) (\<lambda>_ u. contents u = c) w"
    and columns_keep: "ready w \<Longrightarrow> contents w = c \<Longrightarrow>
      wp (ad_table_columns ad schema tbl) (\<lambda>_ u. ready u \<and> contents u = c) (\<lambda>_ u. contents u = c) w"
    and load_atomic: "ready w \<Longrightarrow> contents w = c \<Longrightarrow>
      wp (ad_load ad schema tbl data) (\<lambda>_ _. True) (\<lambda>_ u. contents u = c) w"
    and append_atomic: "ready w \<Longrightarrow> ad_append ad = Some f \<Longrightarrow> contents w = c \<Longrightarrow>
      wp (f schema tbl data) (\<lambda>_ _. True) (\<lambda>_ u. contents u = c) w"
    and upsert_atomic: "ready w \<Longrightarrow> ad_upsert_rows ad = Some g \<Longrightarrow> contents w = c \<Longrightarrow>
      wp (g schema tbl data key) (\<lambda>_ _. True) (\<lambda>_ u. contents u = c) w"
    and close_keeps: "contents w = c \<Longrightarrow> wp (ad_close ad) (\<lambda>_ u. contents u = c) (\<lambda>_ u. contents u = c) w"
begin

definition settled :: "'c \<Rightarrow> 'w hstate \<Rightarrow> bool" where
  "settled c s \<longleftrightarrow> ready (warehouse s) \<and> contents (warehouse s) = c"

definition same_contents :: "'c \<Rightarrow> 'w hstate \<Rightarrow> bool" where
  "same_contents c s \<longleftrightarrow> contents (warehouse s) = c"

lemma settled_same: "settled c s \<Longrightarrow> same_contents c s"
  by (simp add: settled_def same_contents_def)

lemma ctx_read_keeps:
  assumes "settled c s" and "ctx_read ad name ctx s = (r, ctx', s')"
    and "\<forall>(n, sql)\<in>set (ctx_reads ctx). read_only sql"
  shows "settled c s' \<and> ctx_reads ctx' = ctx_reads ctx"
proof (cases "map_of (ctx_reads ctx) name")
  case None
  then show ?thesis using assms by (simp add: ctx_read_def)
next
  case (Some sql)
  then have ro: "read_only sql" using assms(3) by (auto dest: map_of_SomeD)
  show ?thesis
  proof (cases "map_of (ctx_memo ctx) name")
    case memo: (Some t)
    then show ?thesis using assms Some by (simp add: ctx_read_def)
  next
    case None
    obtain x u where x: "ad_fetch ad sql (warehouse s) = (x, u)" by fastforce
    have "ready u \<and> contents u = c"
      using fetch_keeps [OF _ ro, of "warehouse s" c] assms(1) x
      by (auto simp: settled_def wp_def split: sum.splits)
    then show ?thesis using assms Some None x
      by (cases x) (auto simp: ctx_read_def call_def settled_def)
  qed
qed

lemma run_script_keeps:
  "settled c s \<Longrightarrow> \<forall>(n, sql)\<in>set (ctx_reads ctx). read_only sql \<Longrightarrow>
     wp (run_script sc ad ctx) (\<lambda>_. settled c) (\<lambda>_. settled c) s"
proof (induction sc arbitrary: ctx s)
  case (Read name k)
  obtain r ctx' s' where run: "ctx_read ad name ctx s = (r, ctx', s')" by (metis prod_cases3)
  from ctx_read_keeps [OF Read.prems(1) run Read.prems(2)] Read.prems(2)
  have "settled c s'" "\<forall>(n, sql)\<in>set (ctx_reads ctx'). read_only sql" by simp_all
  then have "wp (run_script (k r) ad ctx') (\<lambda>_. settled c) (\<lambda>_. settled c) s'" using Read.IH by blast
  then show ?case using run by (simp add: wp_def)
qed (simp_all add: wp_simps)

lemma produce_keeps:
  assumes "settled c s" and "\<forall>(name, sql)\<in>set (node_reads n). read_only sql"
  shows "wp (produce h n ad root_path) (\<lambda>_. settled c) (\<lambda>_. settled c) s"
proof -
  have script: "wp (run_script sc ad (new_context n)) (\<lambda>_. settled c) (\<lambda>_. settled c) s" for sc
    by (rule run_script_keeps [OF assms(1)]) (use assms(2) in \<open>simp add: new_context_def\<close>)
  have "wp (produce_from_script h n ad root_path) (\<lambda>_. settled c) (\<lambda>_. settled c) s"
    by (auto simp: produce_from_script_def wp_simps assms(1) split: sum.splits
        intro!: wp_mono [OF script])
  then show ?thesis using assms(1) by (auto simp: produce_def wp_simps split: sum.splits)
qed

lemma write_phase_atomic:
  assumes "settled c s" and w: "writer_for ad n = Inr w"
  shows "wp (write_phase ad w n schema tbl data) (\<lambda>_ _. True) (\<lambda>_. same_contents c) s"
proof -
  have rows: "wp (write_rows ad w schema tbl data key) (\<lambda>_ _. True) (\<lambda>_. same_contents c) t" if "settled c t" for t key
  proof (cases w)
    case WriteReplace
    then show ?thesis using that
      by (auto simp: wp_simps settled_def same_contents_def intro!: load_atomic)
  next
    case (WriteAppend f)
    then have "ad_append ad = Some f" using w
      by (auto simp: writer_for_def unsupported_def split: if_splits option.splits)
    then show ?thesis using that WriteAppend
      by (auto simp: wp_simps settled_def same_contents_def intro!: append_atomic)
  next
    case (WriteUpsert f)
    then have "ad_upsert_rows ad = Some f" using w
      by (auto simp: writer_for_def unsupported_def split: if_splits option.splits)
    then show ?thesis using that WriteUpsert
      by (auto simp: port_upsert_def wp_simps settled_def same_contents_def split: sum.splits intro!: upsert_atomic)
  qed
  have shape: "wp (check_shape ad n schema tbl) (\<lambda>_. settled c) (\<lambda>_. same_contents c) t" if "settled c t" for t
    using that unfolding check_shape_def settled_def same_contents_def
    by (auto simp: wp_simps Let_def split: sum.splits intro!: wp_mono [OF columns_keep])
  have "wp (call (EEnsureTable schema tbl (node_primary_key n))
         (ad_ensure_table ad schema tbl (node_output_columns n) (node_config n) (node_primary_key n)))
       (\<lambda>_. settled c) (\<lambda>_. same_contents c) s"
    using assms(1) unfolding settled_def same_contents_def by (auto simp: wp_simps intro!: wp_mono [OF ensure_keeps])
  then show ?thesis
    unfolding write_phase_def wp_catch_act wp_bind_act
    by (rule wp_mono) (auto simp: wp_simps intro!: rows wp_mono [OF shape])
qed

lemma execute_node_atomic:
  assumes "settled c s" and "\<forall>(name, sql)\<in>set (node_reads n). read_only sql"
  shows "wp (execute_node h ad n root_path schema tbl) (\<lambda>_ _. True) (\<lambda>_. same_contents c) s"
proof -
  have early: "wp (validate_config_early ad n) (\<lambda>_. settled c) (\<lambda>_. same_contents c) s"
    using assms(1) unfolding settled_def same_contents_def
    by (auto simp: validate_config_early_def wp_simps split: option.splits intro!: wp_mono [OF validate_keeps])
  show ?thesis
    unfolding execute_node_def wp_bind_act
    by (rule wp_mono [OF early])
      (auto simp: wp_simps settled_same split: sum.splits
        intro!: wp_mono [OF produce_keeps [OF _ assms(2)]] wp_mono [OF write_phase_atomic])
qed

theorem failed_run_keeps_rows:
  assumes "run_node h env (Some ad) s = (1, s')" and "ready (warehouse s)"
    and "\<And>j. prepare_node h env = Inr j \<Longrightarrow> \<forall>(name, sql)\<in>set (node_reads (job_node j)). read_only sql"
  shows "contents (warehouse s') = contents (warehouse s)"
  using assms(1)
proof (cases rule: run_node_cases)
  case (unprepared e)
  then show ?thesis by (simp add: print_block_def)
next
  case (executed j a outcome s1)
  then have a: "a = ad" and "prepare_node h env = Inr j"
    by (auto simp: node_result_def get_adapter_def res_simps)
  with assms(3) have reads: "\<forall>(name, sql)\<in>set (node_reads (job_node j)). read_only sql" by simp
  obtain e where "outcome = Inl e" using executed(3) by (cases outcome) (simp_all add: exit_code_def)
  with execute_node_atomic [OF _ reads, of "contents (warehouse s)" s h "job_root j" "job_schema j" "job_table j"]
    executed(2) a assms(2)
  have "contents (warehouse s1) = contents (warehouse s)"
    by (auto simp: settled_def same_contents_def wp_def)
  from close_keeps [OF this] show ?thesis using executed a
    by (auto simp: wp_def split: prod.splits sum.splits)
qed

end

end
