(* ===== verification/PgServer.thy ===== *)
theory PgServer
  imports Postgres Atomicity
begin

text \<open>
  What the Postgres adapter gives under the server's documented behaviour. The interface
  \<open>pg_server\<close> states that behaviour over three views of a session: the committed rows, the rows as
  the open transaction sees them, and whether one is open. From it the adapter is shown to be an
  \<open>atomic_adapter\<close>: its writes change all or nothing, and what it does besides leaves the rows alone.
\<close>

section \<open>Statements that end no transaction\<close>

text \<open>
  A composed statement is one statement when no raw part of it has a semicolon: psycopg2 quotes the
  identifiers, and the raw parts are constants of the adapter or column types, which the type
  grammar keeps to letters, digits, blanks, parentheses and commas.
\<close>

fun raw_safe :: "sql_part \<Rightarrow> bool" where
  "raw_safe (Raw t) \<longleftrightarrow> CHR '';'' \<notin> set t"
| "raw_safe (Ident n) \<longleftrightarrow> True"

definition starts_raw :: "string list \<Rightarrow> composed \<Rightarrow> bool" where
  "starts_raw keywords parts \<longleftrightarrow> (case parts of Raw t # _ \<Rightarrow> list_ex (\<lambda>k. starts_with k t) keywords | _ \<Rightarrow> False)"

definition plain_statement :: "string list \<Rightarrow> composed \<Rightarrow> bool" where
  "plain_statement keywords parts \<longleftrightarrow> starts_raw keywords parts \<and> list_all raw_safe parts"

definition ddl_keywords :: "string list" where "ddl_keywords = [''CREATE '', ''DROP TABLE '']"
definition create_keywords :: "string list" where "create_keywords = [''CREATE '']"

text \<open>The calls that only change rows inside a transaction.\<close>

definition row_call :: "(composed \<Rightarrow> string) \<Rightarrow> pg_call \<Rightarrow> bool" where
  "row_call render c = (case c of
     Execute parts \<Rightarrow> plain_statement [''TRUNCATE ''] parts
   | ExecuteValues t rows page \<Rightarrow> \<exists>schema tbl columns key suffix. suffix \<in> {None, Some (on_conflict columns key)}
       \<and> t = values_statement render (insert_prefix schema tbl columns) suffix
   | _ \<Rightarrow> False)"

text \<open>
  The calls that, outside a transaction, leave every row and the state of the session as they are:
  the connection's own commit and rollback, advisory locks, the catalog query, a declared read,
  and the creation of a schema.
\<close>

definition neutral_call :: "(string \<Rightarrow> bool) \<Rightarrow> pg_call \<Rightarrow> bool" where
  "neutral_call read_only c = (case c of
     Execute parts \<Rightarrow> (case parts of
         [Raw sql] \<Rightarrow> read_only sql
       | [Raw t, Ident n] \<Rightarrow> t = ''CREATE SCHEMA IF NOT EXISTS ''
       | _ \<Rightarrow> False)
   | ExecuteParams t ps \<Rightarrow> t \<in> {''SELECT pg_advisory_lock(hashtext(%s))'',
       ''SELECT pg_advisory_unlock(hashtext(%s))'', table_columns_query}
   | ConnCommit \<Rightarrow> True
   | ConnRollback \<Rightarrow> True
   | _ \<Rightarrow> False)"

locale pg_server =
  fixes d :: "'w pg_driver" and committed :: "'w \<Rightarrow> 'c" and working :: "'w \<Rightarrow> 'c" and in_tx :: "'w \<Rightarrow> bool"
    and read_only :: "string \<Rightarrow> bool"
  assumes begin_opens: "\<not> in_tx w \<Longrightarrow> pg_exec d (Execute begin_sql) w = (r, u) \<Longrightarrow>
      committed u = committed w \<and> ((\<exists>x. r = Inr x) \<longrightarrow> in_tx u \<and> working u = committed w)"
    and statement_isolated: "in_tx w \<Longrightarrow>
      row_call (pg_render d) c \<or> (\<exists>parts. c = Execute parts \<and> plain_statement ddl_keywords parts) \<Longrightarrow>
      pg_exec d c w = (r, u) \<Longrightarrow> in_tx u \<and> committed u = committed w"
    and create_keeps_rows: "in_tx w \<Longrightarrow> plain_statement create_keywords parts \<Longrightarrow>
      pg_exec d (Execute parts) w = (Inr x, u) \<Longrightarrow> working u = working w"
    and commit_publishes: "in_tx w \<Longrightarrow> pg_exec d (Execute commit_sql) w = (r, u) \<Longrightarrow>
      (case r of Inl e \<Rightarrow> committed u = committed w | Inr x \<Rightarrow> \<not> in_tx u \<and> committed u = working w)"
    and rollback_keeps: "pg_exec d (Execute rollback_sql) w = (r, u) \<Longrightarrow> committed u = committed w"
    and neutral_keeps: "\<not> in_tx w \<Longrightarrow> neutral_call read_only c \<Longrightarrow> pg_exec d c w = (r, u) \<Longrightarrow>
      \<not> in_tx u \<and> committed u = committed w"
    and close_keeps: "pg_exec d ConnClose w = (r, u) \<Longrightarrow> committed u = committed w"

section \<open>Composed statements are plain\<close>

lemma raw_safe_join:
  "list_all (list_all raw_safe) ps \<Longrightarrow> CHR '';'' \<notin> set sep \<Longrightarrow> list_all raw_safe (join_parts sep ps)"
  by (induction sep ps rule: join_parts.induct) auto

lemma raw_safe_idents [simp]: "list_all raw_safe (idents ns)"
  unfolding idents_def by (rule raw_safe_join) (auto simp: list_all_iff)

lemma type_text_safe: "validate_column_type t = Inr () \<Longrightarrow> CHR '';'' \<notin> set t"
proof
  assume "validate_column_type t = Inr ()" "CHR '';'' \<in> set t"
  then have "ddl_safe_char CHR '';''" using type_re_safe [of t] by (auto simp: validate_column_type_def require_eq_Inr)
  then show False by (simp add: ddl_safe_char_def is_digit_def is_upper_def is_lower_def ascii_space_def)
qed

lemma column_ddl_safe:
  assumes "validate_types columns = Inr ()" and "column_ddl columns = Inr ddl"
  shows "list_all raw_safe ddl"
proof -
  obtain parts where parts: "traverse column_ddl_part columns = Inr parts" and ddl: "ddl = join_parts '', '' parts"
    using assms(2) by (auto simp: column_ddl_def res_simps)
  have "list_all raw_safe p" if p: "p \<in> set parts" for p
  proof -
    from parts have "list_all2 (\<lambda>c p. column_ddl_part c = Inr p) columns parts" by (simp only: traverse_eq_Inr)
    with p obtain c where c: "c \<in> set columns" "column_ddl_part c = Inr p"
      by (blast dest: list_all2_member2)
    then obtain n t where t: "string_item c ''type'' = Inr t"
      and p: "p = [Ident n, Raw '' '', Raw t] @ (if is_nullable c then [] else [Raw '' '', Raw ''NOT NULL''])"
      by (auto simp: column_ddl_part_def res_simps)
    have "validate_column_type t = Inr ()"
      using assms(1) c(1) t by (auto simp: validate_types_def res_simps)
    then show ?thesis using type_text_safe by (simp add: p)
  qed
  then show ?thesis unfolding ddl by (intro raw_safe_join) (simp_all add: list_all_iff)
qed

lemma table_ref_safe [simp]: "list_all raw_safe (table_ref s t)"
  by (simp add: table_ref_def)

lemma create_table_plain:
  "list_all raw_safe elements \<Longrightarrow> CHR '';'' \<notin> set command \<Longrightarrow> starts_with ''CREATE '' command \<Longrightarrow>
     plain_statement create_keywords (create_table_sql command s t elements)"
  by (simp add: plain_statement_def starts_raw_def create_table_sql_def create_keywords_def)

lemma index_plain: "plain_statement create_keywords (index_ddl s t ix b)"
  by (simp add: plain_statement_def starts_raw_def index_ddl_def create_keywords_def starts_with_def)

lemma create_is_ddl: "plain_statement create_keywords p \<Longrightarrow> plain_statement ddl_keywords p"
  by (auto simp: plain_statement_def starts_raw_def create_keywords_def ddl_keywords_def
      split: list.splits sql_part.splits)

lemma drop_plain: "plain_statement ddl_keywords (drop_table_sql s t)"
  by (simp add: plain_statement_def starts_raw_def drop_table_sql_def ddl_keywords_def starts_with_def)

lemma primary_key_safe [simp]: "list_all raw_safe (primary_key_ddl key)"
  by (simp add: primary_key_ddl_def)

lemma row_call_insert:
  assumes "suffix \<in> {None, Some (on_conflict columns key)}"
  shows "row_call render (ExecuteValues (values_statement render (insert_prefix schema tbl columns) suffix) rows page)"
  unfolding row_call_def pg_call.case
  by (intro exI [of _ schema] exI [of _ tbl] exI [of _ columns] exI [of _ key] exI [of _ suffix] conjI assms refl)

section \<open>Transactions are atomic\<close>

context pg_server begin

lemma wp_run_sql: "wp (run_sql d parts) Q E = wp (pg_exec d (Execute parts)) (\<lambda>_. Q ()) E"
  by (simp add: run_sql_def wp_simps)

lemma wp_run_call: "wp (run_call d c) Q E = wp (pg_exec d c) (\<lambda>_. Q ()) E"
  by (simp add: run_call_def wp_simps)

lemma rollback_quietly_keeps:
  "committed w = c \<Longrightarrow> wp (rollback_quietly d) (\<lambda>_ u. committed u = c) (\<lambda>_ u. committed u = c) w"
  unfolding rollback_quietly_def wp_except wp_run_sql
  by (rule wpI) (auto simp: wp_simps split: sum.splits dest: rollback_keeps)

lemma on_error_rollback_keeps:
  assumes "wp body Q (\<lambda>_ u. committed u = c) w"
  shows "wp (on_error_rollback d body) Q (\<lambda>_ u. committed u = c) w"
  unfolding on_error_rollback_def wp_except wp_bind wp_raise
  by (rule wp_mono [OF assms]) (auto intro: rollback_quietly_keeps)

lemma begin_wp:
  assumes "\<not> in_tx w" and "committed w = c"
  shows "wp (run_sql d begin_sql) (\<lambda>_ u. in_tx u \<and> committed u = c \<and> working u = c) (\<lambda>_ u. committed u = c) w"
  unfolding wp_run_sql by (rule wpI) (use assms in \<open>auto split: sum.splits dest: begin_opens\<close>)

lemma commit_wp:
  assumes "in_tx w" and "committed w = c"
  shows "wp (run_sql d commit_sql) (\<lambda>_ u. \<not> in_tx u \<and> committed u = working w) (\<lambda>_ u. committed u = c) w"
  unfolding wp_run_sql by (rule wpI) (use assms in \<open>auto split: sum.splits dest: commit_publishes\<close>)

lemma row_call_wp:
  assumes "in_tx w" and "committed w = c" and "row_call (pg_render d) k"
  shows "wp (run_call d k) (\<lambda>_ u. in_tx u \<and> committed u = c) (\<lambda>_ u. committed u = c) w"
  unfolding wp_run_call by (rule wpI) (use assms statement_isolated [OF assms(1)] in \<open>auto split: sum.splits\<close>)

lemma create_wp:
  assumes "in_tx w" and "committed w = c" and "working w = c" and "plain_statement create_keywords parts"
  shows "wp (run_sql d parts) (\<lambda>_ u. in_tx u \<and> committed u = c \<and> working u = c) (\<lambda>_ u. committed u = c) w"
  unfolding wp_run_sql
proof (rule wpI)
  fix r u
  assume run: "pg_exec d (Execute parts) w = (r, u)"
  have "in_tx u \<and> committed u = c"
    using statement_isolated [OF assms(1) _ run] create_is_ddl [OF assms(4)] assms(2) by blast
  then show "case r of Inl e \<Rightarrow> committed u = c | Inr x \<Rightarrow> in_tx u \<and> committed u = c \<and> working u = c"
    using create_keeps_rows [OF assms(1,4)] run assms(3) by (auto split: sum.splits)
qed

text \<open>A transaction whose body keeps to the working rows: all or nothing.\<close>

lemma transaction_atomic:
  assumes "\<not> in_tx w" and "committed w = c"
    and body: "\<And>u. in_tx u \<Longrightarrow> committed u = c \<Longrightarrow>
      wp body (\<lambda>_ v. in_tx v \<and> committed v = c) (\<lambda>_ v. committed v = c) u"
  shows "wp (pg_transaction d body) (\<lambda>_ u. \<not> in_tx u) (\<lambda>_ u. committed u = c) w"
  unfolding pg_transaction_def wp_bind
proof (rule wp_mono [OF begin_wp [OF assms(1,2)]])
  fix u
  assume "in_tx u \<and> committed u = c \<and> working u = c"
  then have "wp (op_then body (run_sql d commit_sql)) (\<lambda>_ v. \<not> in_tx v) (\<lambda>_ v. committed v = c) u"
    unfolding wp_bind by (intro wp_mono [OF body]) (auto intro: wp_mono [OF commit_wp])
  then show "wp (on_error_rollback d (op_then body (run_sql d commit_sql))) (\<lambda>_ u. \<not> in_tx u) (\<lambda>_ u. committed u = c) u"
    by (rule on_error_rollback_keeps)
qed simp

lemma insert_rows_wp:
  assumes "in_tx u" "committed u = c" "suffix \<in> {None, Some (on_conflict (column_names data) key)}"
  shows "wp (insert_rows d schema tbl data suffix) (\<lambda>_ v. in_tx v \<and> committed v = c) (\<lambda>_ v. committed v = c) u"
  unfolding insert_rows_def
  by (rule row_call_wp [OF assms(1,2) row_call_insert [OF assms(3)]])

lemma truncate_wp:
  assumes "in_tx u" "committed u = c"
  shows "wp (run_sql d (Raw ''TRUNCATE '' # table_ref schema tbl)) (\<lambda>_ v. in_tx v \<and> committed v = c) (\<lambda>_ v. committed v = c) u"
proof -
  have "row_call (pg_render d) (Execute (Raw ''TRUNCATE '' # table_ref schema tbl))"
    by (simp add: row_call_def plain_statement_def starts_raw_def starts_with_def)
  from row_call_wp [OF assms this] show ?thesis by (simp add: wp_run_sql wp_run_call)
qed

lemma load_atomic:
  "\<not> in_tx w \<Longrightarrow> committed w = c \<Longrightarrow> wp (pg_load d schema tbl data) (\<lambda>_ u. \<not> in_tx u) (\<lambda>_ u. committed u = c) w"
  unfolding pg_load_def
  by (rule transaction_atomic) (auto simp: wp_simps intro!: wp_mono [OF truncate_wp] insert_rows_wp)

lemma append_atomic:
  "\<not> in_tx w \<Longrightarrow> committed w = c \<Longrightarrow> wp (pg_append d schema tbl data) (\<lambda>_ u. \<not> in_tx u) (\<lambda>_ u. committed u = c) w"
  unfolding pg_append_def by (auto simp: wp_simps intro!: transaction_atomic insert_rows_wp)

lemma upsert_atomic:
  "\<not> in_tx w \<Longrightarrow> committed w = c \<Longrightarrow>
     wp (pg_upsert_rows d schema tbl data key) (\<lambda>_ u. \<not> in_tx u) (\<lambda>_ u. committed u = c) w"
  unfolding pg_upsert_rows_def by (auto simp: wp_simps intro!: transaction_atomic insert_rows_wp)

section \<open>The operations beside the writes\<close>

lemma neutral_wp:
  assumes "\<not> in_tx w" "committed w = c" "neutral_call read_only k"
  shows "wp (pg_exec d k) (\<lambda>_ u. \<not> in_tx u \<and> committed u = c) (\<lambda>_ u. \<not> in_tx u \<and> committed u = c) w"
  by (rule wpI) (use neutral_keeps [OF assms(1,3)] assms(2) in \<open>auto split: sum.splits\<close>)

lemma neutral_run_wp:
  assumes "\<not> in_tx w" "committed w = c" "neutral_call read_only k"
  shows "wp (run_call d k) (\<lambda>_ u. \<not> in_tx u \<and> committed u = c) (\<lambda>_ u. \<not> in_tx u \<and> committed u = c) w"
  unfolding wp_run_call by (rule wp_mono [OF neutral_wp [OF assms]]) auto

lemma neutral_simps [simp]:
  "neutral_call read_only ConnCommit" "neutral_call read_only ConnRollback"
  "neutral_call read_only (ExecuteParams ''SELECT pg_advisory_lock(hashtext(%s))'' ps)"
  "neutral_call read_only (ExecuteParams ''SELECT pg_advisory_unlock(hashtext(%s))'' ps)"
  "neutral_call read_only (ExecuteParams table_columns_query ps)"
  "neutral_call read_only (Execute [Raw ''CREATE SCHEMA IF NOT EXISTS '', Ident n])"
  "neutral_call read_only (Execute [Raw sql]) = read_only sql"
  by (simp_all add: neutral_call_def)

lemma fetch_keeps:
  assumes "\<not> in_tx w" "read_only sql" "committed w = c"
  shows "wp (pg_fetch d sql) (\<lambda>_ u. \<not> in_tx u \<and> committed u = c) (\<lambda>_ u. \<not> in_tx u \<and> committed u = c) w"
  unfolding pg_fetch_def
  by (auto simp: wp_simps assms split: sum.splits intro!: wp_mono [OF neutral_wp] wp_mono [OF neutral_run_wp])

lemma ensure_schema_keeps:
  assumes "\<not> in_tx w" "committed w = c"
  shows "wp (pg_ensure_schema d schema) (\<lambda>_ u. \<not> in_tx u \<and> committed u = c) (\<lambda>_ u. committed u = c) w"
  unfolding pg_ensure_schema_def
  by (auto simp: wp_simps wp_run_sql assms intro!: wp_mono [OF neutral_run_wp] wp_mono [OF neutral_wp])

lemma table_columns_keep:
  assumes "\<not> in_tx w" "committed w = c"
  shows "wp (pg_table_columns d schema tbl) (\<lambda>_ u. \<not> in_tx u \<and> committed u = c) (\<lambda>_ u. committed u = c) w"
  unfolding pg_table_columns_def
  by (auto simp: wp_simps Let_def assms intro!: wp_mono [OF neutral_wp])

lemma create_indexed_keeps:
  assumes u: "\<not> in_tx u" "committed u = c" and safe: "list_all raw_safe elements"
  shows "wp (pg_create_indexed d schema tbl elements ixs) (\<lambda>_ v. \<not> in_tx v \<and> committed v = c) (\<lambda>_ v. committed v = c) u"
proof -
  let ?I = "\<lambda>v. in_tx v \<and> committed v = c \<and> working v = c"
  have create: "plain_statement create_keywords (create_table_sql ''CREATE TABLE IF NOT EXISTS '' schema tbl elements)"
    by (rule create_table_plain [OF safe]) (simp_all add: starts_with_def)
  have each: "wp (op_each (\<lambda>ix. run_sql d (index_ddl schema tbl ix True)) ixs)
      (\<lambda>_. wp (run_sql d commit_sql) (\<lambda>_ v. \<not> in_tx v \<and> committed v = c) (\<lambda>_ v. committed v = c))
      (\<lambda>_ v. committed v = c) v" if "?I v" for v
    using that by (rule wp_each [where I = ?I]) (auto intro!: create_wp index_plain wp_mono [OF commit_wp])
  have body: "wp (op_then (run_sql d (create_table_sql ''CREATE TABLE IF NOT EXISTS '' schema tbl elements))
       (op_then (op_each (\<lambda>ix. run_sql d (index_ddl schema tbl ix True)) ixs) (run_sql d commit_sql)))
      (\<lambda>_ v. \<not> in_tx v \<and> committed v = c) (\<lambda>_ v. committed v = c) v" if v: "?I v" for v
    unfolding wp_bind by (rule wp_mono [OF create_wp [OF _ _ _ create]]) (use v in \<open>simp_all add: each\<close>)
  show ?thesis
    unfolding pg_create_indexed_def
    by (subst wp_bind, rule wp_mono [OF begin_wp [OF u]]) (rule on_error_rollback_keeps [OF body], simp_all)
qed

lemma ensure_table_keeps:
  assumes "\<not> in_tx w" "committed w = c"
  shows "wp (pg_ensure_table d schema tbl columns config key)
    (\<lambda>_ u. \<not> in_tx u \<and> committed u = c) (\<lambda>_ u. committed u = c) w"
proof -
  have safe: "list_all raw_safe (if key = [] then ddl else ddl @ Raw '', '' # primary_key_ddl key)"
    if "validate_types columns = Inr ()" "column_ddl columns = Inr ddl" for ddl
    using column_ddl_safe [OF that] by simp
  have rest: "wp (op_then (pg_ensure_schema d schema) (op_bind (op_of_res (column_ddl columns)) (\<lambda>ddl.
       pg_create_indexed d schema tbl (if key = [] then ddl else ddl @ Raw '', '' # primary_key_ddl key) ixs)))
     (\<lambda>_ u. \<not> in_tx u \<and> committed u = c) (\<lambda>_ u. committed u = c) w"
    if "validate_types columns = Inr ()" for ixs
    unfolding wp_bind
  proof (rule wp_mono [OF ensure_schema_keeps [OF assms]])
    fix u
    assume "\<not> in_tx u \<and> committed u = c"
    then show "wp (op_of_res (column_ddl columns)) (\<lambda>ddl. wp (pg_create_indexed d schema tbl
        (if key = [] then ddl else ddl @ Raw '', '' # primary_key_ddl key) ixs)
        (\<lambda>_ u. \<not> in_tx u \<and> committed u = c) (\<lambda>_ u. committed u = c)) (\<lambda>_ u. committed u = c) u"
      unfolding wp_of_res using create_indexed_keeps safe [OF that] by (cases "column_ddl columns") simp_all
  qed simp
  show ?thesis
    unfolding pg_ensure_table_def Let_def
    using rest assms by (auto simp: wp_bind wp_of_res split: sum.splits)
qed

lemma build_empty_from_columns_atomic:
  assumes "\<not> in_tx w" "committed w = c"
  shows "wp (pg_build_empty_from_columns d schema tbl columns config) (\<lambda>_ u. \<not> in_tx u) (\<lambda>_ u. committed u = c) w"
proof -
  let ?I = "\<lambda>v. in_tx v \<and> committed v = c"
  have ddl: "wp (run_sql d parts) (\<lambda>_. ?I) (\<lambda>_ v. committed v = c) v"
    if "?I v" "plain_statement ddl_keywords parts" for v parts
    unfolding wp_run_sql
    by (rule wpI) (use that statement_isolated [of v "Execute parts"] in \<open>auto split: sum.splits\<close>)
  have body: "wp (op_then (run_sql d (drop_table_sql schema tbl))
         (op_then (run_sql d (create_table_sql ''CREATE TABLE '' schema tbl elements))
         (op_each (\<lambda>ix. run_sql d (index_ddl schema tbl ix False)) ixs))) (\<lambda>_. ?I) (\<lambda>_ v. committed v = c) v"
    if "?I v" "list_all raw_safe elements" for v elements ixs
  proof -
    have create: "plain_statement ddl_keywords (create_table_sql ''CREATE TABLE '' schema tbl elements)"
      by (intro create_is_ddl create_table_plain that(2)) (simp_all add: starts_with_def)
    have each: "wp (op_each (\<lambda>ix. run_sql d (index_ddl schema tbl ix False)) ixs) (\<lambda>_. ?I) (\<lambda>_ v. committed v = c) u"
      if "?I u" for u using that
      by (rule wp_each [where I = ?I]) (rule ddl, assumption, rule create_is_ddl, rule index_plain, assumption)
    show ?thesis
      unfolding wp_bind
      by (rule wp_mono [OF ddl [OF that(1) drop_plain]], rule wp_mono [OF ddl [OF _ create]]) (erule each | assumption)+
  qed
  have tx: "wp (op_then (run_sql d begin_sql) (op_then (on_error_rollback d
         (op_then (run_sql d (drop_table_sql schema tbl))
         (op_then (run_sql d (create_table_sql ''CREATE TABLE '' schema tbl elements))
         (op_each (\<lambda>ix. run_sql d (index_ddl schema tbl ix False)) ixs)))) (run_sql d commit_sql)))
      (\<lambda>_ u. \<not> in_tx u) (\<lambda>_ u. committed u = c) w" if "list_all raw_safe elements" for elements ixs
    by (subst wp_bind, rule wp_mono [OF begin_wp [OF assms]],
        subst wp_bind, rule wp_mono [OF on_error_rollback_keeps [OF body [OF _ that]]])
      (auto intro: wp_mono [OF commit_wp])
  show ?thesis
    unfolding pg_build_empty_from_columns_def
    using tx column_ddl_safe assms(2) by (auto simp: wp_bind wp_of_res split: sum.splits)
qed

lemma connection_close_keeps:
  "committed w = c \<Longrightarrow> wp (pg_close d) (\<lambda>_ u. committed u = c) (\<lambda>_ u. committed u = c) w"
  unfolding pg_close_def wp_run_call by (rule wpI) (auto split: sum.splits dest: close_keeps)

end

sublocale pg_server \<subseteq> pg_atomic: atomic_adapter "postgres_adapter d" committed "\<lambda>w. \<not> in_tx w" read_only
  by unfold_locales
    (auto simp: postgres_adapter_def wp_simps split: sum.splits
      intro!: fetch_keeps ensure_table_keeps table_columns_keep connection_close_keeps
        wp_mono [OF load_atomic] wp_mono [OF append_atomic] wp_mono [OF upsert_atomic])

context pg_server begin

lemma adapter_atomic: "atomic_adapter (postgres_adapter d) committed (\<lambda>w. \<not> in_tx w) read_only"
  by (rule pg_atomic.atomic_adapter_axioms)

end

end
