(* ===== verification/SamplePg.thy ===== *)
theory SamplePg
  imports Sample PgServer
begin

text \<open>
  A concrete Postgres session for the witnesses: the committed rows, the rows the open transaction
  sees, whether one is open. An insert refuses a null, as a table of non-null columns does; a
  truncation inside a transaction empties what the transaction sees.
\<close>

type_synonym session = "pyval list list \<times> pyval list list \<times> bool"

definition sample_rows :: pg_rows where
  "sample_rows = Some ([''id'', ''v''], [[PInt 1, PStr ''a''], [PInt 2, PNone]])"

definition sample_shape :: pg_rows where
  "sample_shape = Some ([''column_name'', ''is_nullable''], [[PStr ''id'', PStr ''NO''], [PStr ''v'', PStr ''YES'']])"

definition sample_exec :: "pg_call \<Rightarrow> (session, pg_rows) op" where
  "sample_exec c w = (case w of (com, wrk, tx) \<Rightarrow>
     if c = Execute begin_sql then (Inr None, (com, com, True))
     else if c = Execute commit_sql then (Inr None, (if tx then wrk else com, [], False))
     else if c = Execute rollback_sql then (Inr None, (com, [], False))
     else case c of
         ExecuteValues t rows page \<Rightarrow>
           if list_ex (\<lambda>r. PNone \<in> set r) rows then (Inl (Exn (OtherError ''NotNullViolation'') ''null value''), w)
           else (Inr None, (com, wrk @ rows, tx))
       | Execute parts \<Rightarrow> if starts_raw [''TRUNCATE ''] parts then (Inr None, (com, [], tx)) else (Inr sample_rows, w)
       | ExecuteParams t ps \<Rightarrow> (Inr sample_shape, w)
       | _ \<Rightarrow> (Inr None, w))"

fun sample_part :: "sql_part \<Rightarrow> string" where
  "sample_part (Raw t) = t"
| "sample_part (Ident n) = n"

definition sample_driver :: "session pg_driver" where
  "sample_driver = \<lparr>pg_exec = sample_exec, pg_render = \<lambda>ps. concat (map sample_part ps),
     pg_error = \<lambda>e. exn_kind e = OtherError ''Error'', pg_schema_race = \<lambda>e. False,
     pg_array = \<lambda>vs. Inr (if list_ex is_str vs then Utf8 else Int64, vs), pg_parse = sample_parser\<rparr>"

abbreviation sample_committed :: "session \<Rightarrow> pyval list list" where "sample_committed w \<equiv> fst w"
abbreviation sample_working :: "session \<Rightarrow> pyval list list" where "sample_working w \<equiv> fst (snd w)"
abbreviation sample_in_tx :: "session \<Rightarrow> bool" where "sample_in_tx w \<equiv> snd (snd w)"

lemma plain_not_control [simp]:
  "\<not> plain_statement ddl_keywords begin_sql" "\<not> plain_statement ddl_keywords commit_sql"
  "\<not> plain_statement ddl_keywords rollback_sql" "\<not> plain_statement [''TRUNCATE ''] begin_sql"
  "\<not> plain_statement [''TRUNCATE ''] commit_sql" "\<not> plain_statement [''TRUNCATE ''] rollback_sql"
  by code_simp+

lemma create_not_truncate: "plain_statement create_keywords parts \<Longrightarrow> \<not> starts_raw [''TRUNCATE ''] parts"
  by (auto simp: plain_statement_def starts_raw_def create_keywords_def starts_with_iff split: list.splits sql_part.splits)

lemma neutral_not_control:
  "neutral_call (\<lambda>sql. sql = ''select 1'') c \<Longrightarrow>
     c \<notin> {Execute begin_sql, Execute commit_sql, Execute rollback_sql}"
  "\<not> neutral_call r (ExecuteValues t rows page)"
  by (auto simp: neutral_call_def begin_sql_def commit_sql_def rollback_sql_def)

lemma control_distinct [simp]:
  "begin_sql \<noteq> commit_sql" "begin_sql \<noteq> rollback_sql" "commit_sql \<noteq> rollback_sql"
  "commit_sql \<noteq> begin_sql" "rollback_sql \<noteq> begin_sql" "rollback_sql \<noteq> commit_sql"
  by (simp_all add: begin_sql_def commit_sql_def rollback_sql_def)

interpretation sample_pg: pg_server sample_driver sample_committed sample_working sample_in_tx "\<lambda>sql. sql = ''select 1''"
proof
  fix w u :: session and r c parts x
  have d: "pg_exec sample_driver = sample_exec" by (simp add: sample_driver_def)
  show "sample_committed u = sample_committed w \<and> ((\<exists>x. r = Inr x) \<longrightarrow> sample_in_tx u \<and> sample_working u = sample_committed w)"
    if "pg_exec sample_driver (Execute begin_sql) w = (r, u)"
    using that by (auto simp: d sample_exec_def split: prod.splits)
  show "sample_in_tx u \<and> sample_committed u = sample_committed w"
    if "sample_in_tx w" "row_call (pg_render sample_driver) c \<or> (\<exists>parts. c = Execute parts \<and> plain_statement ddl_keywords parts)"
      "pg_exec sample_driver c w = (r, u)"
    using that by (cases c) (auto simp: d sample_exec_def row_call_def split: prod.splits if_splits)
  show "sample_working u = sample_working w"
    if "plain_statement create_keywords parts" "pg_exec sample_driver (Execute parts) w = (Inr x, u)"
  proof -
    have "parts \<notin> {begin_sql, commit_sql, rollback_sql}"
      using create_is_ddl [OF that(1)] plain_not_control by auto
    then show ?thesis using that create_not_truncate by (auto simp: d sample_exec_def split: prod.splits if_splits)
  qed
  show "case r of Inl e \<Rightarrow> sample_committed u = sample_committed w | Inr x \<Rightarrow> \<not> sample_in_tx u \<and> sample_committed u = sample_working w"
    if "sample_in_tx w" "pg_exec sample_driver (Execute commit_sql) w = (r, u)"
    using that by (auto simp: d sample_exec_def split: prod.splits)
  show "sample_committed u = sample_committed w" if "pg_exec sample_driver (Execute rollback_sql) w = (r, u)"
    using that by (auto simp: d sample_exec_def split: prod.splits)
  show "\<not> sample_in_tx u \<and> sample_committed u = sample_committed w"
    if "\<not> sample_in_tx w" "neutral_call (\<lambda>sql. sql = ''select 1'') c" "pg_exec sample_driver c w = (r, u)"
    using that neutral_not_control
    by (cases c) (auto simp: d sample_exec_def split: prod.splits if_splits)
  show "sample_committed u = sample_committed w" if "pg_exec sample_driver ConnClose w = (r, u)"
    using that by (auto simp: d sample_exec_def split: prod.splits)
qed

section \<open>A run that fails in its write\<close>

definition sample_session :: session where
  "sample_session = ([[PInt 9, PStr ''old'']], [], False)"

lemma sample_pg_run:
  "run_node sample_harness sample_env (Some (postgres_adapter sample_driver)) \<lparr>warehouse = sample_session, trace = []\<rparr> =
     (1, \<lparr>warehouse = sample_session,
       trace = [EValidateConfig, EFetch ''select 1'', EEnsureTable ''s1'' ''t1'' [''id''], ETableColumns ''s1'' ''t1'',
         EUpsert ''s1'' ''t1'' sample_table [''id''],
         EPrint (result_block ''error'' (failure_message (Exn (Harness LoadError) ''failed to write s1.t1: null value'')) 1 ''proj.s.t''),
         EClose]\<rparr>)"
  by code_simp

lemma sample_prepared: "prepare_node (sample_harness :: 'w harness) sample_env = Inr j \<Longrightarrow> job_node j = sample_node"
proof -
  have "map_sum id job_node (prepare_node (sample_harness :: 'w harness) sample_env) = Inr sample_node" by code_simp
  then show "prepare_node (sample_harness :: 'w harness) sample_env = Inr j \<Longrightarrow> job_node j = sample_node" by simp
qed

section \<open>A server that refuses at first\<close>

definition sample_refusal :: exn where
  "sample_refusal = Exn (OtherError ''OperationalError'') ''connection to server at 10.0.0.1 failed: Connection refused''"

definition sample_connect :: "(string \<times> string) list \<Rightarrow> (nat, session pg_driver) op" where
  "sample_connect params k = (case k of 0 \<Rightarrow> (Inr sample_driver, 0) | Suc n \<Rightarrow> (Inl sample_refusal, n))"

definition sample_pg_env :: "string \<Rightarrow> string option" where
  "sample_pg_env = [''POSTGRES_HOST'' \<mapsto> ''h'', ''POSTGRES_DB'' \<mapsto> ''d'', ''POSTGRES_USER'' \<mapsto> ''u'']"

definition sample_pg_params :: "(string \<times> string) list" where
  "sample_pg_params = [(''host'', ''h''), (''port'', ''5432''), (''dbname'', ''d''), (''user'', ''u''), (''password'', [])]"

end
