(* ===== verification/PyUrl.thy ===== *)
theory PyUrl
  imports PyStr Prelude
begin

text \<open>
  \<^verbatim>\<open>urllib.parse.urlsplit\<close> and \<^verbatim>\<open>urlunsplit\<close>, as far as the sources use them. The check of a
  bracketed host is left out (a host in brackets is taken as it is), and so is the one for characters
  outside Latin-1.
\<close>

record url_parts =
  url_scheme :: string
  url_netloc :: string
  url_path :: string
  url_query :: string
  url_fragment :: string

definition is_ascii_letter :: "char \<Rightarrow> bool" where
  "is_ascii_letter c \<longleftrightarrow> code_point c < 128 \<and> (is_upper c \<or> is_lower c)"

definition scheme_char :: "char \<Rightarrow> bool" where
  "scheme_char c \<longleftrightarrow> is_ascii_letter c \<or> is_digit c \<or> c \<in> set ''+-.''"

definition uses_netloc :: "string list" where
  "uses_netloc = ['''', ''ftp'', ''http'', ''gopher'', ''nntp'', ''telnet'', ''imap'', ''wais'', ''file'', ''mms'', ''https'',
     ''shttp'', ''snews'', ''prospero'', ''rtsp'', ''rtsps'', ''rtspu'', ''rsync'', ''svn'', ''svn+ssh'', ''sftp'', ''nfs'', ''git'',
     ''git+ssh'', ''ws'', ''wss'', ''itms-services'']"

definition clean_url :: "string \<Rightarrow> string" where
  "clean_url url = filter (\<lambda>c. c \<notin> {CHR 0x09, newline, carriage_return}) (dropWhile (\<lambda>c. code_point c \<le> 32) url)"

definition split_scheme :: "string \<Rightarrow> string \<times> string" where
  "split_scheme url = (let s = before_char (CHR '':'') url in
     if CHR '':'' \<in> set url \<and> s \<noteq> [] \<and> is_ascii_letter (hd s) \<and> list_all scheme_char s
     then (ascii_lower s, after_char (CHR '':'') url) else ([], url))"

definition split_netloc :: "string \<Rightarrow> string \<times> string" where
  "split_netloc url =
     (if starts_with ''//'' url then
        (takeWhile (\<lambda>c. c \<notin> set ''/?#'') (drop 2 url), dropWhile (\<lambda>c. c \<notin> set ''/?#'') (drop 2 url))
      else ([], url))"

definition urlsplit :: "string \<Rightarrow> url_parts res" where
  "urlsplit url =
     (case split_scheme (clean_url url) of (scheme, u1) \<Rightarrow>
      case split_netloc u1 of (netloc, u2) \<Rightarrow>
        if (CHR ''['' \<in> set netloc) \<noteq> (CHR '']'' \<in> set netloc) then raise_value ''Invalid IPv6 URL''
        else
          let u3 = before_char (CHR ''#'') u2; fragment = after_char (CHR ''#'') u2 in
          Inr \<lparr>url_scheme = scheme, url_netloc = netloc, url_path = before_char (CHR ''?'') u3,
            url_query = after_char (CHR ''?'') u3, url_fragment = fragment\<rparr>)"

definition urlunsplit :: "url_parts \<Rightarrow> string" where
  "urlunsplit p =
     (let path = url_path p; netloc = url_netloc p; scheme = url_scheme p;
          u1 = (if netloc \<noteq> [] then ''//'' @ netloc @ (if path \<noteq> [] \<and> \<not> starts_with ''/'' path then CHR ''/'' # path else path)
            else if starts_with ''//'' path then ''//'' @ path
            else if scheme \<noteq> [] \<and> scheme \<in> set uses_netloc \<and> (path = [] \<or> starts_with ''/'' path) then ''//'' @ path
            else path);
          u2 = (if scheme \<noteq> [] then scheme @ '':'' @ u1 else u1);
          u3 = (if url_query p \<noteq> [] then u2 @ ''?'' @ url_query p else u2) in
      if url_fragment p \<noteq> [] then u3 @ ''#'' @ url_fragment p else u3)"

lemma before_char_id: "c \<notin> set s \<Longrightarrow> before_char c s = s"
  unfolding before_char_def by (induction s) auto

section \<open>Hierarchical locations\<close>

text \<open>A location of an object store: a scheme, a bucket, an absolute path, nothing to escape.\<close>

definition store_url :: "string \<Rightarrow> string \<Rightarrow> string \<Rightarrow> string" where
  "store_url scheme netloc path = scheme @ ''://'' @ netloc @ path"

definition store_url_ok :: "string \<Rightarrow> string \<Rightarrow> string \<Rightarrow> bool" where
  "store_url_ok scheme netloc path \<longleftrightarrow>
     scheme \<noteq> [] \<and> is_ascii_letter (hd scheme) \<and> list_all scheme_char scheme \<and> ascii_lower scheme = scheme
     \<and> netloc \<noteq> [] \<and> list_all (\<lambda>c. c \<notin> set ''/?#[]'' \<and> code_point c > 32) netloc
     \<and> starts_with ''/'' path \<and> list_all (\<lambda>c. c \<notin> set ''?#'' \<and> code_point c > 32) path"

lemma scheme_char_plain: "scheme_char c \<Longrightarrow> c \<noteq> CHR '':'' \<and> code_point c > 32"
  by (auto simp: scheme_char_def is_ascii_letter_def is_digit_def is_upper_def is_lower_def Let_def)

lemma clean_url_plain: "list_all (\<lambda>c. code_point c > 32) s \<Longrightarrow> clean_url s = s"
proof -
  assume a: "list_all (\<lambda>c. code_point c > 32) s"
  then have "dropWhile (\<lambda>c. code_point c \<le> 32) s = s" by (cases s) auto
  moreover have "filter (\<lambda>c. c \<notin> {CHR 0x09, newline, carriage_return}) s = s"
    using a by (auto simp: list_all_iff intro!: filter_True)
  ultimately show ?thesis by (simp add: clean_url_def)
qed

lemma urlsplit_store:
  assumes "store_url_ok scheme netloc path"
  shows "urlsplit (store_url scheme netloc path) = Inr \<lparr>url_scheme = scheme, url_netloc = netloc, url_path = path,
     url_query = [], url_fragment = []\<rparr>"
proof -
  have N: "list_all (\<lambda>c. c \<notin> set ''/?#[]'' \<and> code_point c > 32) netloc"
    and P: "list_all (\<lambda>c. c \<notin> set ''?#'' \<and> code_point c > 32) path"
    using assms unfolding store_url_ok_def by blast+
  have plain: "list_all (\<lambda>c. code_point c > 32) (store_url scheme netloc path)"
    using assms scheme_char_plain by (auto simp: store_url_def store_url_ok_def list_all_iff)
  have no_colon: "CHR '':'' \<notin> set scheme" using assms scheme_char_plain by (auto simp: store_url_ok_def list_all_iff)
  obtain p where path: "path = CHR ''/'' # p" using assms by (cases path) (auto simp: store_url_ok_def starts_with_iff)
  have scheme: "split_scheme (store_url scheme netloc path) = (scheme, ''//'' @ netloc @ path)"
    using assms no_colon by (simp add: split_scheme_def store_url_def before_char_append after_char_append store_url_ok_def Let_def)
  have free: "c \<in> set netloc \<Longrightarrow> c \<notin> set ''/?#''" for c
    using N by (auto simp: list_all_iff)
  have "takeWhile (\<lambda>c. c \<notin> set ''/?#'') (netloc @ path) = netloc"
    "dropWhile (\<lambda>c. c \<notin> set ''/?#'') (netloc @ path) = path"
    unfolding path by (rule takeWhile_append2 [OF free, THEN trans], assumption, simp)
      (rule dropWhile_append2 [OF free, THEN trans], assumption, simp)
  then have netloc: "split_netloc (''//'' @ netloc @ path) = (netloc, path)"
    by (simp add: split_netloc_def starts_with_def)
  have b: "CHR ''['' \<notin> set netloc" "CHR '']'' \<notin> set netloc"
    using N by (auto simp: list_all_iff)
  have "CHR ''#'' \<notin> set path" "CHR ''?'' \<notin> set path"
    using P by (auto simp: list_all_iff)
  then have "before_char (CHR ''#'') path = path" "before_char (CHR ''?'') path = path"
    "after_char (CHR ''#'') path = []" "after_char (CHR ''?'') path = []"
    by (simp_all only: before_char_id after_char_free not_False_eq_True)
  then show ?thesis
    unfolding urlsplit_def clean_url_plain [OF plain] scheme netloc prod.case Let_def by (simp only: b simp_thms if_False)
qed

end
