(* ===== verification/SqlScan.thy ===== *)
theory SqlScan
  imports Quoting
begin

text \<open>
  A scanner of the SQL that the adapters compose: quoted names, names of three parts, lists of items with
  a separator, the tail of a \<^verbatim>\<open>MERGE\<close>. Each reader comes with the lemma that it reads back what the
  adapters write, whatever the names are and whatever follows.
\<close>

section \<open>References\<close>

text \<open>A qualified name and its reference reader.\<close>

definition read_dotted :: "string \<Rightarrow> (string \<times> string) option" where
  "read_dotted s = (case read_quoted quote2 s of
     Some (name, c # rest) \<Rightarrow> if c = CHR ''.'' then Some (name, rest) else None
   | _ \<Rightarrow> None)"

definition read_ref :: "string \<Rightarrow> ((string \<times> string \<times> string) \<times> string) option" where
  "read_ref s = (case read_dotted s of None \<Rightarrow> None | Some (catalog, s1) \<Rightarrow>
     (case read_dotted s1 of None \<Rightarrow> None | Some (schema, s2) \<Rightarrow>
     (case read_quoted quote2 s2 of None \<Rightarrow> None | Some (tbl, rest) \<Rightarrow> Some ((catalog, schema, tbl), rest))))"

definition ref_text :: "string \<Rightarrow> string \<Rightarrow> string \<Rightarrow> string" where
  "ref_text catalog schema tbl = quoted quote2 catalog @ ''.'' @ quoted quote2 schema @ ''.'' @ quoted quote2 tbl"

lemma read_dotted_quoted: "read_dotted (quoted quote2 n @ ''.'' @ rest) = Some (n, rest)"
proof -
  have "read_quoted quote2 (quoted quote2 n @ ''.'' @ rest) = Some (n, ''.'' @ rest)" by (rule read_quoted) simp
  then show ?thesis by (simp add: read_dotted_def)
qed

lemma read_ref_text:
  assumes "\<forall>r. rest \<noteq> quote2 # r"
  shows "read_ref (ref_text catalog schema tbl @ rest) = Some ((catalog, schema, tbl), rest)"
  unfolding read_ref_def ref_text_def append_assoc read_dotted_quoted option.case prod.case
    read_quoted [OF assms] by (rule refl)

lemma ref_text_inject: "ref_text c s t = ref_text c' s' t' \<longleftrightarrow> c = c' \<and> s = s' \<and> t = t'"
proof
  assume eq: "ref_text c s t = ref_text c' s' t'"
  have "Some ((c, s, t), []) = read_ref (ref_text c s t @ [])" by (subst read_ref_text) simp_all
  also have "\<dots> = Some ((c', s', t'), [])" unfolding eq by (subst read_ref_text) simp_all
  finally show "c = c' \<and> s = s' \<and> t = t'" by simp
qed simp

section \<open>Scanning\<close>

definition expect :: "string \<Rightarrow> string \<Rightarrow> string option" where
  "expect p s = (if starts_with p s then Some (drop (length p) s) else None)"

lemma expect_append: "expect p (p @ s) = Some s"
  by (simp add: expect_def starts_with_def)

lemma expect_whole: "expect p p = Some []"
  using expect_append [of p "[]"] by simp

lemma expect_other: "length q \<le> length p \<Longrightarrow> take (length q) p \<noteq> q \<Longrightarrow> expect q (p @ s) = None"
  by (simp add: expect_def starts_with_def)

text \<open>A list of items with a separator; \<open>n\<close> bounds the number of items.\<close>

fun read_list :: "(string \<Rightarrow> ('a \<times> string) option) \<Rightarrow> string \<Rightarrow> nat \<Rightarrow> string \<Rightarrow> ('a list \<times> string) option" where
  "read_list item sep 0 s = Some ([], s)"
| "read_list item sep (Suc n) s = (case item s of
     None \<Rightarrow> Some ([], s)
   | Some (x, r) \<Rightarrow> (case expect sep r of
         None \<Rightarrow> Some ([x], r)
       | Some r' \<Rightarrow> (case read_list item sep n r' of Some (xs, t) \<Rightarrow> Some (x # xs, t) | None \<Rightarrow> None)))"

definition plain_start :: "string \<Rightarrow> bool" where
  "plain_start rest \<longleftrightarrow> (\<forall>r. rest \<noteq> quote2 # r)"

lemma plain_start_simps [simp]: "plain_start []" "plain_start (c # s) \<longleftrightarrow> c \<noteq> quote2"
  by (auto simp: plain_start_def)

lemma read_list_join:
  assumes item: "\<And>x r. plain_start r \<Longrightarrow> item (f x @ r) = Some (x, r)"
    and sep: "\<And>r. plain_start (sep @ r)" and stop: "plain_start rest" "expect sep rest = None"
  shows "xs \<noteq> [] \<Longrightarrow> length xs \<le> n \<Longrightarrow> read_list item sep n (join sep (map f xs) @ rest) = Some (xs, rest)"
proof (induction xs arbitrary: n rule: induct_list012)
  case (2 x)
  then show ?case using item [OF stop(1), of x] stop(2) by (cases n) simp_all
next
  case (3 x y ys)
  then obtain m where n: "n = Suc m" by (cases n) simp_all
  have "read_list item sep m (join sep (map f (y # ys)) @ rest) = Some (y # ys, rest)" using 3 n by simp
  moreover have "item (join sep (map f (x # y # ys)) @ rest) = Some (x, sep @ join sep (map f (y # ys)) @ rest)"
    using item [OF sep, of x "join sep (map f (y # ys)) @ rest"] by simp
  ultimately show ?case by (simp add: n expect_append)
qed simp

lemma read_list_none: "item rest = None \<Longrightarrow> read_list item sep n rest = Some ([], rest)"
  by (cases n) simp_all

definition read_name :: "string \<Rightarrow> (string \<times> string) option" where
  "read_name s = read_quoted quote2 s"

lemma read_name_quoted: "plain_start r \<Longrightarrow> read_name (quoted quote2 n @ r) = Some (n, r)"
  unfolding read_name_def plain_start_def by (rule read_quoted)

lemma read_name_plain: "plain_start s \<Longrightarrow> read_name s = None"
  by (cases s) (auto simp: read_name_def read_quoted_def)

definition read_names :: "string \<Rightarrow> (string list \<times> string) option" where
  "read_names s = read_list read_name '', '' (length s) s"

lemma length_join_quoted: "length xs \<le> length (join '', '' (map (quoted quote2) xs))"
  by (induction xs rule: induct_list012) (simp_all add: quoted_def)

lemma read_names_join:
  assumes "plain_start rest" and "expect '', '' rest = None"
  shows "read_names (join '', '' (map (quoted quote2) xs) @ rest) = Some (xs, rest)"
proof (cases "xs = []")
  case True
  then show ?thesis using assms(1) by (simp add: read_names_def read_list_none read_name_plain)
next
  case False
  have "length xs \<le> length (join '', '' (map (quoted quote2) xs) @ rest)" using length_join_quoted [of xs] by simp
  from read_list_join [OF read_name_quoted _ assms False this] show ?thesis by (simp add: read_names_def)
qed

lemma read_ref_name: "plain_start rest \<Longrightarrow> read_ref (ref_text c s t @ rest) = Some ((c, s, t), rest)"
  unfolding plain_start_def by (rule read_ref_text)

lemma read_ref_whole: "read_ref (ref_text c s t) = Some ((c, s, t), [])"
  using read_ref_name [of "[]" c s t] by simp

text \<open>A key of the join condition: the name on both sides.\<close>

definition read_match :: "string \<Rightarrow> (string \<times> string) option" where
  "read_match s = Option.bind (expect ''t.'' s) (\<lambda>r. Option.bind (read_name r) (\<lambda>(k, r1).
     Option.bind (expect '' = s.'' r1) (\<lambda>r2. Option.bind (read_name r2) (\<lambda>(k', r3).
     if k = k' then Some (k, r3) else None))))"

lemma read_match_key: "plain_start r \<Longrightarrow> read_match ((''t.'' @ quoted quote2 k @ '' = s.'' @ quoted quote2 k) @ r) = Some (k, r)"
  by (simp only: read_match_def append_assoc expect_append bind.bind_lunit read_name_quoted prod.case
      plain_start_simps append_Cons append_Nil if_True simp_thms)
    (simp add: read_name_quoted expect_def starts_with_def)

definition column_list :: "string list \<Rightarrow> string" where
  "column_list columns = join '', '' (map (quoted quote2) columns)"

definition read_assignment :: "string \<Rightarrow> (string \<times> string) option" where
  "read_assignment s = Option.bind (read_name s) (\<lambda>(k, r). Option.bind (expect '' = s.'' r) (\<lambda>r1.
     Option.bind (read_name r1) (\<lambda>(k', r2). if k = k' then Some (k, r2) else None)))"

definition read_source :: "string \<Rightarrow> (string \<times> string) option" where
  "read_source s = Option.bind (expect ''s.'' s) read_name"

lemma read_assignment_text: "plain_start r \<Longrightarrow> read_assignment ((quoted quote2 k @ '' = s.'' @ quoted quote2 k) @ r) = Some (k, r)"
  by (simp only: read_assignment_def append_assoc expect_append bind.bind_lunit read_name_quoted prod.case
      plain_start_simps append_Cons append_Nil if_True simp_thms)
    (simp add: read_name_quoted expect_def starts_with_def)

lemma read_source_text: "plain_start r \<Longrightarrow> read_source ((''s.'' @ quoted quote2 k) @ r) = Some (k, r)"
  by (simp only: read_source_def append_assoc expect_append bind.bind_lunit read_name_quoted)

lemma length_join_ge: "(\<And>x. f x \<noteq> []) \<Longrightarrow> length xs \<le> length (join sep (map f xs) @ r)"
proof (induction xs rule: induct_list012)
  case (2 x)
  then show ?case by (cases "f x") auto
next
  case (3 x y zs)
  then show ?case using 3(1,2) by (cases "f x") auto
qed simp

text \<open>Lists of items as the merge writes them, of any length.\<close>

lemma read_items:
  assumes item: "\<And>x r. plain_start r \<Longrightarrow> item (f x @ r) = Some (x, r)" and none: "item rest = None"
    and sep: "\<And>r. plain_start (sep @ r)" and stop: "plain_start rest" "expect sep rest = None" and f: "\<And>x. f x \<noteq> []"
  shows "read_list item sep (length (join sep (map f xs) @ rest)) (join sep (map f xs) @ rest) = Some (xs, rest)"
proof (cases "xs = []")
  case False
  from read_list_join [OF item sep stop False length_join_ge [OF f]] show ?thesis by simp
qed (simp add: read_list_none none)

section \<open>The tail of a merge\<close>

text \<open>
  What a \<^verbatim>\<open>MERGE\<close> says after its two relations: the key columns are compared, the other columns of a
  matched row overwritten, an unmatched row is inserted.
\<close>

definition merge_tail :: "string list \<Rightarrow> string list \<Rightarrow> string" where
  "merge_tail columns key = '' AS s ON (''
     @ join '' AND '' (map (\<lambda>k. ''t.'' @ quoted quote2 k @ '' = s.'' @ quoted quote2 k) key) @ '')''
     @ (if filter (\<lambda>n. n \<notin> set key) columns = [] then []
        else '' WHEN MATCHED THEN UPDATE SET '' @ join '', '' (map (\<lambda>u. quoted quote2 u @ '' = s.'' @ quoted quote2 u)
          (filter (\<lambda>n. n \<notin> set key) columns)))
     @ '' WHEN NOT MATCHED THEN INSERT ('' @ column_list columns @ '') VALUES (''
     @ join '', '' (map (\<lambda>n. ''s.'' @ quoted quote2 n) columns) @ '')''"

definition read_merge_tail :: "string \<Rightarrow> (string list \<times> string list) option" where
  "read_merge_tail s = Option.bind (expect '' AS s ON ('' s) (\<lambda>r3.
     Option.bind (read_list read_match '' AND '' (length r3) r3) (\<lambda>(keys, r4). Option.bind (expect '')'' r4) (\<lambda>r5.
     Option.bind (case expect '' WHEN MATCHED THEN UPDATE SET '' r5 of
         None \<Rightarrow> Some ([], r5)
       | Some r6 \<Rightarrow> read_list read_assignment '', '' (length r6) r6) (\<lambda>(updates, r7).
     Option.bind (expect '' WHEN NOT MATCHED THEN INSERT ('' r7) (\<lambda>r8. Option.bind (read_names r8) (\<lambda>(columns, r9).
     Option.bind (expect '') VALUES ('' r9) (\<lambda>r10. Option.bind (read_list read_source '', '' (length r10) r10) (\<lambda>(sources, r11).
     if r11 = '')'' \<and> sources = columns \<and> updates = filter (\<lambda>n. n \<notin> set keys) columns
     then Some (columns, keys) else None))))))))"

lemma read_merge_tail_text: "read_merge_tail (merge_tail columns key) = Some (columns, key)"
proof -
  define updates where "updates = filter (\<lambda>n. n \<notin> set key) columns"
  define upd where "upd = join '', '' (map (\<lambda>u. quoted quote2 u @ '' = s.'' @ quoted quote2 u) updates)"
  define src where "src = join '', '' (map (\<lambda>n. ''s.'' @ quoted quote2 n) columns)"
  define ks where "ks = join '' AND '' (map (\<lambda>k. ''t.'' @ quoted quote2 k @ '' = s.'' @ quoted quote2 k) key)"
  have keys: "read_list read_match '' AND '' (length (ks @ '')'' @ x)) (ks @ '')'' @ x) = Some (key, '')'' @ x)" for x
    unfolding ks_def by (rule read_items [OF read_match_key]) (simp_all add: expect_def starts_with_def read_match_def)
  have upds: "read_list read_assignment '', '' (length (upd @ '' WHEN NOT MATCHED THEN INSERT ('' @ x)) (upd @ '' WHEN NOT MATCHED THEN INSERT ('' @ x)
      = Some (updates, '' WHEN NOT MATCHED THEN INSERT ('' @ x)" for x
    unfolding upd_def by (rule read_items [OF read_assignment_text])
      (simp_all add: expect_def starts_with_def read_assignment_def read_name_plain)
  have names: "read_names (column_list columns @ '') VALUES ('' @ x) = Some (columns, '') VALUES ('' @ x)" for x
    unfolding column_list_def by (rule read_names_join) (simp_all add: expect_def starts_with_def)
  have sources: "read_list read_source '', '' (length (src @ '')'')) (src @ '')'') = Some (columns, '')'')"
    unfolding src_def by (rule read_items [OF read_source_text]) (simp_all add: expect_def starts_with_def read_source_def)
  have other: "expect '' WHEN MATCHED THEN UPDATE SET '' ('' WHEN NOT MATCHED THEN INSERT ('' @ x) = None" for x
    by (simp add: expect_def starts_with_def)
  have form: "merge_tail columns key = '' AS s ON ('' @ ks @ '')''
     @ (if updates = [] then [] else '' WHEN MATCHED THEN UPDATE SET '' @ upd)
     @ '' WHEN NOT MATCHED THEN INSERT ('' @ column_list columns @ '') VALUES ('' @ src @ '')''"
    by (simp only: merge_tail_def ks_def upd_def src_def updates_def)
  show ?thesis
  proof (cases "updates = []")
    case True
    show ?thesis
      unfolding form True if_P [OF refl] append_Nil expect_append option.case bind.bind_lunit
        read_merge_tail_def prod.case keys other names sources
      using True by (simp add: updates_def)
  next
    case False
    show ?thesis
      unfolding form if_not_P [OF False] append_assoc expect_append option.case bind.bind_lunit
        read_merge_tail_def prod.case keys upds names sources
      by (simp add: updates_def)
  qed
qed

end
