(* ===== verification/TrinoLayout.thy ===== *)
theory TrinoLayout
  imports PyUrl AdapterBase SqlScan
begin

text \<open>
  The part of \<^verbatim>\<open>adapters/trino/continuo_trino_adapter/adapter.py\<close> that decides without a
  connection: type spellings, quoted names and literals, the layout block and its \<^verbatim>\<open>WITH\<close> clause, the
  columns of a \<^verbatim>\<open>CREATE TABLE\<close>, the location of a stage beside its target, and which failures mean
  that the coordinator never answered.
\<close>

section \<open>Types, names, literals\<close>

definition trino_type_aliases :: "(string \<times> string) list" where
  "trino_type_aliases = [(''TEXT'', ''VARCHAR''), (''DOUBLE PRECISION'', ''DOUBLE'')]"

definition trino_type :: "string \<Rightarrow> string" where
  "trino_type type_str = (let upper = ascii_upper type_str in
     if starts_with ''NUMERIC('' upper then ''DECIMAL('' @ drop (length ''NUMERIC('') upper
     else (case map_of trino_type_aliases upper of Some t \<Rightarrow> t | None \<Rightarrow> type_str))"

definition trino_quote :: "string \<Rightarrow> string res" where
  "trino_quote identifier =
     (if identifier = [] then raise_value ''identifier must not be empty'' else Inr (quoted quote2 identifier))"

definition sql_string :: "string \<Rightarrow> string" where
  "sql_string v = quoted quote1 v"

definition schema_ref :: "string \<Rightarrow> string \<Rightarrow> string res" where
  "schema_ref catalog schema =
     bind_res (trino_quote catalog) (\<lambda>c. bind_res (trino_quote schema) (\<lambda>s. Inr (c @ ''.'' @ s)))"

definition trino_table_ref :: "string \<Rightarrow> string \<Rightarrow> string \<Rightarrow> string res" where
  "trino_table_ref catalog schema tbl =
     bind_res (schema_ref catalog schema) (\<lambda>s. bind_res (trino_quote tbl) (\<lambda>t. Inr (s @ ''.'' @ t)))"

section \<open>The layout block\<close>

definition trino_config_keys :: "string list" where
  "trino_config_keys = [''partitioning'', ''sorted_by'', ''format'', ''format_version'']"

definition array_config_keys :: "string list" where
  "array_config_keys = [''partitioning'', ''sorted_by'']"

definition allowed_formats :: "string list" where
  "allowed_formats = [''PARQUET'', ''ORC'', ''AVRO'']"

definition nonempty_string :: "pyval \<Rightarrow> bool" where
  "nonempty_string v = (case v of PStr s \<Rightarrow> s \<noteq> [] | _ \<Rightarrow> False)"

definition array_property :: "string \<Rightarrow> pyval \<Rightarrow> string res" where
  "array_property key v = (case v of
     PList vs \<Rightarrow>
       if vs \<noteq> [] \<and> list_all nonempty_string vs
       then Inr (key @ '' = ARRAY['' @ join '', '' (map (\<lambda>v. case v of PStr s \<Rightarrow> sql_string s | _ \<Rightarrow> []) vs) @ '']'')
       else raise_value (''config '' @ repr_str key @ '' must be a non-empty list of non-empty strings, got '' @ repr v)
   | _ \<Rightarrow> raise_value (''config '' @ repr_str key @ '' must be a non-empty list of non-empty strings, got '' @ repr v))"

definition format_property :: "string \<Rightarrow> pyval \<Rightarrow> string res" where
  "format_property key v =
     (let bad = raise_value (''config '' @ repr_str ''format'' @ '' must be one of '' @ repr_strs (sort allowed_formats)
            @ '', got '' @ repr v) in
      case v of
        PStr s \<Rightarrow> if ascii_upper s \<in> set allowed_formats then Inr (key @ '' = '' @ sql_string (ascii_upper s)) else bad
      | _ \<Rightarrow> bad)"

definition version_property :: "string \<Rightarrow> pyval \<Rightarrow> string res" where
  "version_property key v = (case v of
     PInt i \<Rightarrow> Inr (key @ '' = '' @ int_str i)
   | _ \<Rightarrow> raise_value (''config '' @ repr_str ''format_version'' @ '' must be an integer, got '' @ repr v))"

definition render_property :: "string \<Rightarrow> pyval \<Rightarrow> string res" where
  "render_property key v =
     (if key \<in> set array_config_keys then array_property key v
      else if key = ''format'' then format_property key v
      else if key = ''format_version'' then version_property key v
      else Inl (Exn AssertionError (''unhandled config key '' @ repr_str key)))"

definition table_properties :: "pyval \<Rightarrow> string res" where
  "table_properties config =
     (if config = PNone then Inr []
      else bind_res (ensure_known_keys config trino_config_keys ''trino'' ''config'') (\<lambda>_.
      let d = (case config of PDict d \<Rightarrow> d | _ \<Rightarrow> []) in
      bind_res (traverse (\<lambda>key. render_property key (get_or_none d key)) (filter (has_key d) trino_config_keys)) (\<lambda>rendered.
      Inr (if rendered = [] then [] else '' WITH ('' @ join '', '' rendered @ '')''))))"

section \<open>Columns\<close>

text \<open>A name of a JSON spec may be any value; one that is no string has no \<^verbatim>\<open>replace\<close>.\<close>

definition quote_value :: "pyval \<Rightarrow> string res" where
  "quote_value v = (case v of
     PStr s \<Rightarrow> trino_quote s
   | _ \<Rightarrow> if \<not> truthy v then raise_value ''identifier must not be empty''
       else Inl (Exn (OtherError ''AttributeError'')
         (repr_str (type_name v) @ '' object has no attribute '' @ repr_str ''replace'')))"

definition trino_column_def :: "pyval \<Rightarrow> string res" where
  "trino_column_def col =
     bind_res (bind_res (subscript col ''name'') quote_value) (\<lambda>n.
     bind_res (string_item col ''type'') (\<lambda>t.
     Inr (n @ '' '' @ trino_type t @ (if is_nullable col then [] else '' NOT NULL''))))"

definition trino_column_ddl :: "pyval list \<Rightarrow> string res" where
  "trino_column_ddl columns = bind_res (traverse trino_column_def columns) (\<lambda>defs. Inr (join '', '' defs))"

section \<open>The location of a stage\<close>

definition before_last :: "char \<Rightarrow> string \<Rightarrow> string" where
  "before_last c s = rev (after_char c (rev s))"

definition sibling_location :: "string \<Rightarrow> string \<Rightarrow> string res" where
  "sibling_location location name =
     (if location = [] then raise_value ''table location must not be empty''
      else bind_res (urlsplit location) (\<lambda>parsed.
        let path = rstrip_char (CHR ''/'') (url_path parsed);
            sibling_path =
              (if CHR ''/'' \<in> set path then before_last (CHR ''/'') path @ ''/'' @ name
               else if url_netloc parsed \<noteq> [] \<or> starts_with ''/'' (url_path parsed) then ''/'' @ name
               else name) in
        Inr (urlunsplit (parsed\<lparr>url_path := sibling_path\<rparr>))))"

section \<open>Statements of a write\<close>

definition append_statement :: "string \<Rightarrow> string \<Rightarrow> string list \<Rightarrow> string res" where
  "append_statement target_ref stage_ref columns =
     bind_res (traverse trino_quote columns) (\<lambda>names. let col_list = join '', '' names in
     Inr (''INSERT INTO '' @ target_ref @ '' ('' @ col_list @ '') SELECT '' @ col_list @ '' FROM '' @ stage_ref))"

definition merge_statement :: "string \<Rightarrow> string \<Rightarrow> string list \<Rightarrow> string list \<Rightarrow> string res" where
  "merge_statement target_ref stage_ref columns primary_key =
     bind_res (traverse trino_quote primary_key) (\<lambda>keys.
     bind_res (traverse trino_quote (filter (\<lambda>n. n \<notin> set primary_key) columns)) (\<lambda>updates.
     bind_res (traverse trino_quote columns) (\<lambda>names.
     Inr (''MERGE INTO '' @ target_ref @ '' AS t USING '' @ stage_ref @ '' AS s ON (''
       @ join '' AND '' (map (\<lambda>k. ''t.'' @ k @ '' = s.'' @ k) keys) @ '')''
       @ (if updates = [] then []
          else '' WHEN MATCHED THEN UPDATE SET '' @ join '', '' (map (\<lambda>u. u @ '' = s.'' @ u) updates))
       @ '' WHEN NOT MATCHED THEN INSERT ('' @ join '', '' names @ '') VALUES (''
       @ join '', '' (map (\<lambda>n. ''s.'' @ n) names) @ '')''))))"

section \<open>A coordinator that never answered\<close>

text \<open>
  An exception chain as the objects it is made of: the object at an address has the error number of an
  \<^verbatim>\<open>OSError\<close>, if it is one, and the addresses of its cause and of its context. The walk follows the
  cause, else the context, and stops at an object it has seen: a chain may be cyclic.
\<close>

record exc_object =
  ex_errno :: "int option"
  ex_cause :: "nat option"
  ex_context :: "nat option"

definition unreachable_errnos :: "int list" where
  "unreachable_errnos = [111, 113, 101]"

definition next_exception :: "exc_object \<Rightarrow> nat option" where
  "next_exception x = (case ex_cause x of Some a \<Rightarrow> Some a | None \<Rightarrow> ex_context x)"

definition has_unreachable_errno :: "exc_object \<Rightarrow> bool" where
  "has_unreachable_errno x = (case ex_errno x of Some n \<Rightarrow> n \<in> set unreachable_errnos | None \<Rightarrow> False)"

lemma fewer_unseen:
  assumes "a \<notin> set seen" and "a < (n :: nat)"
  shows "card ({..<n} - insert a (set seen)) < card ({..<n} - set seen)"
  by (rule psubset_card_mono) (use assms in auto)

function walk_chain :: "exc_object list \<Rightarrow> nat list \<Rightarrow> nat option \<Rightarrow> bool" where
  "walk_chain store seen None = False"
| "walk_chain store seen (Some a) =
     (if a \<in> set seen \<or> length store \<le> a then False
      else if has_unreachable_errno (store ! a) then True
      else walk_chain store (a # seen) (next_exception (store ! a)))"
  by pat_completeness auto
termination
  by (relation "measure (\<lambda>(store, seen, current). card ({..<length store} - set seen))") (auto simp: fewer_unseen simp del: card_Diff_insert)

declare walk_chain.simps [simp del]

definition trino_unreachable :: "exc_object list \<Rightarrow> bool" where
  "trino_unreachable store = walk_chain store [] (Some 0)"

section \<open>References\<close>

lemma trino_table_ref_Inr:
  "trino_table_ref catalog schema tbl = Inr r \<longleftrightarrow>
     catalog \<noteq> [] \<and> schema \<noteq> [] \<and> tbl \<noteq> [] \<and> r = ref_text catalog schema tbl"
  by (auto simp: trino_table_ref_def schema_ref_def trino_quote_def ref_text_def res_simps)

section \<open>A stage stands beside its target\<close>

lemma before_last_append: "c \<notin> set t \<Longrightarrow> before_last c (s @ c # t) = s"
  by (simp add: before_last_def after_char_append)

lemma sibling_location_store:
  assumes "store_url_ok scheme netloc (dir @ CHR ''/'' # tbl)" and "CHR ''/'' \<notin> set tbl" and "tbl \<noteq> []"
  shows "sibling_location (store_url scheme netloc (dir @ CHR ''/'' # tbl)) name
     = Inr (store_url scheme netloc (dir @ CHR ''/'' # name))"
proof -
  have path: "rstrip_char (CHR ''/'') (dir @ CHR ''/'' # tbl) = dir @ CHR ''/'' # tbl"
  proof -
    have "hd (rev tbl) \<noteq> CHR ''/''" using assms(2,3) hd_in_set [of "rev tbl"] by auto
    then have "dropWhile (\<lambda>x. x = CHR ''/'') (rev tbl @ CHR ''/'' # rev dir) = rev tbl @ CHR ''/'' # rev dir"
      using assms(3) by (cases "rev tbl") auto
    then show ?thesis by (simp add: rstrip_char_def)
  qed
  have start: "starts_with ''/'' (dir @ CHR ''/'' # x)" for x
    using assms(1) by (cases dir) (simp_all add: store_url_ok_def starts_with_iff)
  have "scheme \<noteq> []" "netloc \<noteq> []" using assms(1) unfolding store_url_ok_def by blast+
  then have "urlunsplit \<lparr>url_scheme = scheme, url_netloc = netloc, url_path = dir @ CHR ''/'' # name, url_query = [], url_fragment = []\<rparr>
      = store_url scheme netloc (dir @ CHR ''/'' # name)"
    by (simp add: urlunsplit_def Let_def store_url_def start)
  moreover have "store_url scheme netloc (dir @ CHR ''/'' # tbl) \<noteq> []" by (simp add: store_url_def)
  ultimately show ?thesis
    by (simp add: sibling_location_def urlsplit_store [OF assms(1)] path before_last_append [OF assms(2)] Let_def)
qed

section \<open>The walk of an exception chain\<close>

definition chain_link :: "exc_object list \<Rightarrow> (nat \<times> nat) set" where
  "chain_link store = {(a, b). a < length store \<and> next_exception (store ! a) = Some b}"

text \<open>What has been seen is no reason to retry, and leads only to what has been seen or to where the walk stands.\<close>

definition seen_ok :: "exc_object list \<Rightarrow> nat list \<Rightarrow> nat option \<Rightarrow> bool" where
  "seen_ok store seen current \<longleftrightarrow> (\<forall>x\<in>set seen. x < length store \<and> \<not> has_unreachable_errno (store ! x)
     \<and> (\<forall>y. next_exception (store ! x) = Some y \<longrightarrow> y \<in> set seen \<or> current = Some y))"

lemma seen_closed:
  assumes "seen_ok store seen (Some a)" and "a \<in> set seen" and "(a, b) \<in> (chain_link store)\<^sup>*"
  shows "b \<in> set seen"
  using assms(3)
proof (induction rule: rtrancl_induct)
  case (step y z)
  then show ?case using assms(1,2) by (auto simp: chain_link_def seen_ok_def)
qed (fact assms(2))

lemma walk_chain_iff:
  "seen_ok store seen current \<Longrightarrow> walk_chain store seen current \<longleftrightarrow>
     (\<exists>a b. current = Some a \<and> (a, b) \<in> (chain_link store)\<^sup>* \<and> b < length store \<and> has_unreachable_errno (store ! b))"
proof (induction store seen current rule: walk_chain.induct)
  case (2 store seen a)
  show ?case
  proof (cases "a \<in> set seen")
    case True
    have "walk_chain store seen (Some a) = False" by (simp add: True walk_chain.simps)
    then show ?thesis using seen_closed [OF "2.prems" True] "2.prems" by (auto simp: seen_ok_def)
  next
    case False
    show ?thesis
    proof (cases "a < length store")
      case bound: True
      show ?thesis
      proof (cases "has_unreachable_errno (store ! a)")
        case True
        then show ?thesis using False bound by (auto simp: walk_chain.simps)
      next
        case good: False
        have ok: "seen_ok store (a # seen) (next_exception (store ! a))"
          using "2.prems" bound good by (auto simp: seen_ok_def)
        have "(a, b) \<in> (chain_link store)\<^sup>* \<longleftrightarrow> a = b \<or> (\<exists>c. next_exception (store ! a) = Some c \<and> (c, b) \<in> (chain_link store)\<^sup>*)" for b
          using bound by (subst rtrancl_eq_or_trancl, subst trancl_unfold_left) (auto simp: chain_link_def intro: rtrancl_into_trancl2)
        then show ?thesis using "2.IH" [OF _ good ok] False bound good by (auto simp: walk_chain.simps)
      qed
    next
      case out: False
      have "b = a" if "(a, b) \<in> (chain_link store)\<^sup>*" for b
        using that out by (cases rule: converse_rtranclE) (auto simp: chain_link_def)
      then show ?thesis using out by (auto simp: walk_chain.simps)
    qed
  qed
qed (simp add: walk_chain.simps)

lemma trino_unreachable_iff:
  "trino_unreachable store \<longleftrightarrow> (\<exists>b. (0, b) \<in> (chain_link store)\<^sup>* \<and> b < length store \<and> has_unreachable_errno (store ! b))"
  unfolding trino_unreachable_def by (subst walk_chain_iff) (auto simp: seen_ok_def)

end
