(* ===== verification/Trino.thy ===== *)
theory Trino
  imports TrinoLayout
begin

text \<open>
  \<^verbatim>\<open>TrinoAdapter\<close> (\<^verbatim>\<open>adapters/trino/continuo_trino_adapter/adapter.py\<close>): its statements and its
  operations, over a driver. The driver is the trino DBAPI and the coordinator behind it, a parameter:
  what a statement run to completion does and returns, the token of a new UUID, the close of the
  connection, and which exceptions are the query failures of the client.
\<close>

section \<open>The driver\<close>

text \<open>A statement returns the names of its columns, if it has any, and its rows.\<close>

record 'w trino_driver =
  tr_catalog :: string
  tr_exec :: "string \<Rightarrow> pyval list option \<Rightarrow> ('w, string list option \<times> pyval list list) op"
  tr_token :: "('w, string) op"
  tr_close :: "('w, unit) op"
  tr_query_error :: "exn \<Rightarrow> bool"
  tr_array :: "pyval list \<Rightarrow> (arrow_type \<times> pyval list) res"
  tr_parse :: sql_parser

definition trino_execute :: "'w trino_driver \<Rightarrow> string \<Rightarrow> pyval list option \<Rightarrow> ('w, pyval list list) op" where
  "trino_execute d statement params =
     op_bind (tr_exec d statement params) (\<lambda>(names, rows). op_return rows)"

definition trino_run :: "'w trino_driver \<Rightarrow> string \<Rightarrow> ('w, unit) op" where
  "trino_run d statement = op_then (trino_execute d statement None) (op_return ())"

definition trino_ref :: "'w trino_driver \<Rightarrow> string \<Rightarrow> string \<Rightarrow> ('w, string) op" where
  "trino_ref d schema tbl = op_of_res (trino_table_ref (tr_catalog d) schema tbl)"

definition runtime_error :: "string \<Rightarrow> exn" where
  "runtime_error m = Exn (OtherError ''RuntimeError'') m"

definition location_of_rows :: "string \<Rightarrow> string \<Rightarrow> pyval list list \<Rightarrow> string res" where
  "location_of_rows schema tbl rows = (case rows of
     [PStr location # rest] \<Rightarrow>
       if location = [] then Inl (runtime_error (''Iceberg location is empty for '' @ schema @ ''.'' @ tbl))
       else Inr location
   | _ \<Rightarrow> Inl (runtime_error (''could not determine Iceberg location for '' @ schema @ ''.'' @ tbl)))"

definition location_query :: "string \<Rightarrow> string" where
  "location_query properties_ref = ''SELECT value FROM '' @ properties_ref @ '' WHERE key = '' @ sql_string ''location''"

definition trino_table_location :: "'w trino_driver \<Rightarrow> string \<Rightarrow> string \<Rightarrow> ('w, string) op" where
  "trino_table_location d schema tbl =
     op_bind (trino_ref d schema (tbl @ ''$properties'')) (\<lambda>properties_ref.
     op_bind (trino_execute d (location_query properties_ref) None) (\<lambda>rows.
     op_of_res (location_of_rows schema tbl rows)))"

section \<open>Schemas and validation builds\<close>

definition trino_schema_exists :: "'w trino_driver \<Rightarrow> string \<Rightarrow> ('w, bool) op" where
  "trino_schema_exists d schema =
     op_bind (op_of_res (trino_quote (tr_catalog d))) (\<lambda>catalog.
     op_bind (trino_execute d (''SHOW SCHEMAS FROM '' @ catalog) None) (\<lambda>rows.
     op_return (list_ex (\<lambda>row. case row of v # rest \<Rightarrow> v = PStr schema | [] \<Rightarrow> False) rows)))"

definition trino_ensure_schema :: "'w trino_driver \<Rightarrow> string \<Rightarrow> ('w, unit) op" where
  "trino_ensure_schema d schema = op_except
     (op_bind (op_of_res (schema_ref (tr_catalog d) schema)) (\<lambda>s.
      trino_run d (''CREATE SCHEMA IF NOT EXISTS '' @ s)))
     (\<lambda>e. if tr_query_error d e then
            op_bind (trino_schema_exists d schema) (\<lambda>exists. if exists then op_return () else op_raise e)
          else op_raise e)"

definition trino_drop_schema :: "'w trino_driver \<Rightarrow> string \<Rightarrow> ('w, unit) op" where
  "trino_drop_schema d schema =
     op_bind (op_of_res (schema_ref (tr_catalog d) schema)) (\<lambda>s.
     trino_run d (''DROP SCHEMA IF EXISTS '' @ s @ '' CASCADE''))"

definition trino_build_empty_from_sql :: "'w trino_driver \<Rightarrow> string \<Rightarrow> string \<Rightarrow> string \<Rightarrow> ('w, unit) op" where
  "trino_build_empty_from_sql d schema tbl compiled_sql =
     op_bind (trino_ref d schema tbl) (\<lambda>ref.
     op_then (trino_run d (''DROP TABLE IF EXISTS '' @ ref))
     (trino_run d (''CREATE TABLE '' @ ref @ '' AS ('' @ bare_read compiled_sql @ '') WITH NO DATA'')))"

definition trino_clone_empty_from_prod :: "'w trino_driver \<Rightarrow> string \<Rightarrow> string \<Rightarrow> string \<Rightarrow> ('w, unit) op" where
  "trino_clone_empty_from_prod d candidate_schema prod_schema tbl =
     op_bind (trino_ref d candidate_schema tbl) (\<lambda>ref.
     op_then (trino_run d (''DROP TABLE IF EXISTS '' @ ref))
     (op_bind (trino_ref d prod_schema tbl) (\<lambda>prod_ref.
      trino_run d (''CREATE TABLE '' @ ref @ '' AS SELECT * FROM '' @ prod_ref @ '' WITH NO DATA''))))"

text \<open>Every check stands before the first statement.\<close>

definition trino_build_empty_from_columns ::
  "'w trino_driver \<Rightarrow> string \<Rightarrow> string \<Rightarrow> pyval list \<Rightarrow> pyval \<Rightarrow> ('w, unit) op" where
  "trino_build_empty_from_columns d schema tbl columns config =
     op_then (op_of_res (validate_types columns))
     (op_bind (op_of_res (trino_column_ddl columns)) (\<lambda>col_defs.
      op_bind (op_of_res (table_properties config)) (\<lambda>properties.
      op_bind (trino_ref d schema tbl) (\<lambda>ref.
      op_then (trino_run d (''DROP TABLE IF EXISTS '' @ ref))
      (trino_run d (''CREATE TABLE '' @ ref @ '' ('' @ col_defs @ '')'' @ properties))))))"

definition trino_check_binds :: "'w trino_driver \<Rightarrow> string \<Rightarrow> ('w, unit) op" where
  "trino_check_binds d sql =
     op_then (op_of_res (ensure_single_read (tr_parse d) sql (Some ''trino'')))
     (trino_run d (''EXPLAIN (TYPE VALIDATE) SELECT * FROM ('' @ [newline] @ bare_read sql @ [newline]
        @ '') AS __check_binds__''))"

section \<open>Reads\<close>

definition trino_table_from_rows ::
  "(pyval list \<Rightarrow> (arrow_type \<times> pyval list) res) \<Rightarrow> string list \<Rightarrow> pyval list list \<Rightarrow> arrow_table res" where
  "trino_table_from_rows infer colnames rows = arrow_from_rows infer colnames rows"

definition trino_fetch :: "'w trino_driver \<Rightarrow> string \<Rightarrow> ('w, arrow_table) op" where
  "trino_fetch d sql =
     op_bind (tr_exec d sql None) (\<lambda>(description, rows).
     let colnames = (case description of Some names \<Rightarrow> names | None \<Rightarrow> []) in
     op_of_res (trino_table_from_rows (tr_array d) colnames rows))"

definition trino_columns_query :: "string \<Rightarrow> string" where
  "trino_columns_query catalog = ''SELECT column_name, is_nullable FROM '' @ catalog @ ''.information_schema.columns ''
     @ ''WHERE table_schema = ? AND table_name = ? ORDER BY ordinal_position''"

definition trino_table_columns :: "'w trino_driver \<Rightarrow> string \<Rightarrow> string \<Rightarrow> ('w, live_column list) op" where
  "trino_table_columns d schema tbl =
     op_bind (op_of_res (trino_quote (tr_catalog d))) (\<lambda>catalog.
     op_bind (trino_execute d (trino_columns_query catalog) (Some [PStr (py_lower schema), PStr (py_lower tbl)])) (\<lambda>rows.
     if rows = [] then op_raise (Exn LookupError
       (''table '' @ schema @ ''.'' @ tbl @ '' does not exist in catalog '' @ tr_catalog d))
     else op_return (map live_of_row rows)))"

section \<open>Tables\<close>

definition trino_validate_config :: "pyval \<Rightarrow> string list \<Rightarrow> unit res" where
  "trino_validate_config config declared = bind_res (table_properties config) (\<lambda>_. Inr ())"

definition merge_format_ok :: "pyval \<Rightarrow> string list \<Rightarrow> unit res" where
  "merge_format_ok config primary_key =
     (case get_or_none (case config of PDict d \<Rightarrow> d | _ \<Rightarrow> []) ''format_version'' of
        PInt i \<Rightarrow> require (\<not> (primary_key \<noteq> [] \<and> i < 2)) (Exn ValueError
          (''config '' @ repr_str ''format_version'' @ '' '' @ int_str i @ '' cannot hold an upsert table: ''
           @ ''Trino's MERGE needs Iceberg format version 2 or later''))
      | _ \<Rightarrow> Inr ())"

definition trino_ensure_table ::
  "'w trino_driver \<Rightarrow> string \<Rightarrow> string \<Rightarrow> pyval list \<Rightarrow> pyval \<Rightarrow> string list \<Rightarrow> ('w, unit) op" where
  "trino_ensure_table d schema tbl columns config primary_key =
     op_bind (op_of_res (table_properties config)) (\<lambda>properties.
     op_then (op_of_res (merge_format_ok config primary_key))
     (op_then (op_of_res (validate_types columns))
     (op_then (trino_ensure_schema d schema)
     (op_bind (op_of_res (trino_column_ddl columns)) (\<lambda>col_defs.
      op_bind (trino_ref d schema tbl) (\<lambda>ref.
      trino_run d (''CREATE TABLE IF NOT EXISTS '' @ ref @ '' ('' @ col_defs @ '')'' @ properties)))))))"

section \<open>Writes\<close>

definition stage_prefix :: string where "stage_prefix = ''__continuo_stage_''"
definition old_prefix :: string where "old_prefix = ''__continuo_old_''"
definition insert_batch_size :: nat where "insert_batch_size = 500"

definition create_like_sql :: "string \<Rightarrow> string \<Rightarrow> string \<Rightarrow> string" where
  "create_like_sql stage_ref target_ref location =
     ''CREATE TABLE '' @ stage_ref @ '' (LIKE '' @ target_ref @ '' INCLUDING PROPERTIES) WITH (location = ''
     @ sql_string location @ '')''"

definition drop_sql :: "string \<Rightarrow> string" where
  "drop_sql ref = ''DROP TABLE '' @ ref"

definition rename_sql :: "string \<Rightarrow> string \<Rightarrow> string" where
  "rename_sql a b = ''ALTER TABLE '' @ a @ '' RENAME TO '' @ b"

definition create_stage :: "'w trino_driver \<Rightarrow> string \<Rightarrow> string \<Rightarrow> string \<Rightarrow> ('w, string) op" where
  "create_stage d schema tbl token =
     op_bind (trino_ref d schema tbl) (\<lambda>target_ref.
     let stage_table = stage_prefix @ token in
     op_bind (trino_ref d schema stage_table) (\<lambda>stage_ref.
     op_bind (trino_table_location d schema tbl) (\<lambda>location.
     op_bind (op_of_res (sibling_location location stage_table)) (\<lambda>stage_location.
     op_then (trino_run d (create_like_sql stage_ref target_ref stage_location)) (op_return stage_ref)))))"

definition drop_stage :: "'w trino_driver \<Rightarrow> string \<Rightarrow> ('w, unit) op" where
  "drop_stage d stage_ref = op_except (trino_run d (drop_sql stage_ref)) (\<lambda>e. op_return ())"

text \<open>\<^verbatim>\<open>rows[start:start + size] for start in range(0, len(rows), size)\<close>.\<close>

definition batches :: "nat \<Rightarrow> 'a list \<Rightarrow> 'a list list" where
  "batches n rows = map (\<lambda>k. take n (drop (k * n) rows)) [0..<(length rows + n - 1) div n]"

definition insert_values_sql :: "string \<Rightarrow> string \<Rightarrow> nat \<Rightarrow> nat \<Rightarrow> string" where
  "insert_values_sql table_ref col_list width rows_in_batch =
     ''INSERT INTO '' @ table_ref @ '' ('' @ col_list @ '') VALUES ''
     @ join '', '' (replicate rows_in_batch (''('' @ join '', '' (replicate width ''?'') @ '')''))"

definition insert_batches :: "'w trino_driver \<Rightarrow> string \<Rightarrow> string list \<Rightarrow> arrow_table \<Rightarrow> ('w, unit) op" where
  "insert_batches d table_ref columns data =
     op_bind (op_of_res (traverse trino_quote columns)) (\<lambda>names.
     op_each (\<lambda>batch. op_then
         (trino_execute d (insert_values_sql table_ref (join '', '' names) (length columns) (length batch)) (Some (concat batch)))
         (op_return ()))
       (batches insert_batch_size (row_values data)))"

text \<open>
  The swap. The \<^verbatim>\<open>finally\<close> clause drops the stage as long as it still has its private name: after a
  failure of any step up to the second rename, not after the swap.
\<close>

definition swap_in :: "'w trino_driver \<Rightarrow> string \<Rightarrow> string \<Rightarrow> string \<Rightarrow> ('w, unit) op" where
  "swap_in d target_ref stage_ref old_ref =
     op_then (trino_run d (rename_sql target_ref old_ref))
     (op_except (trino_run d (rename_sql stage_ref target_ref))
       (\<lambda>e. op_then (op_except (trino_run d (rename_sql old_ref target_ref)) (\<lambda>e'. op_return ())) (op_raise e)))"

definition fill_and_swap :: "'w trino_driver \<Rightarrow> arrow_table \<Rightarrow> string \<Rightarrow> string \<Rightarrow> string \<Rightarrow> ('w, unit) op" where
  "fill_and_swap d data target_ref stage_ref old_ref =
     op_then (if num_rows data \<noteq> 0 then insert_batches d stage_ref (column_names data) data else op_return ())
       (swap_in d target_ref stage_ref old_ref)"

definition trino_load :: "'w trino_driver \<Rightarrow> string \<Rightarrow> string \<Rightarrow> arrow_table \<Rightarrow> ('w, unit) op" where
  "trino_load d schema tbl data =
     op_bind (trino_ref d schema tbl) (\<lambda>target_ref.
     op_bind (tr_token d) (\<lambda>token.
     op_bind (trino_ref d schema (old_prefix @ token)) (\<lambda>old_ref.
     op_bind (create_stage d schema tbl token) (\<lambda>stage_ref.
     op_then
       (op_except (fill_and_swap d data target_ref stage_ref old_ref)
         (\<lambda>e. op_then (drop_stage d stage_ref) (op_raise e)))
       (trino_run d (drop_sql old_ref))))))"

definition write_via_stage ::
  "'w trino_driver \<Rightarrow> string \<Rightarrow> string \<Rightarrow> arrow_table \<Rightarrow> (string \<Rightarrow> string res) \<Rightarrow> ('w, unit) op" where
  "write_via_stage d schema tbl data final_statement =
     op_bind (tr_token d) (\<lambda>token.
     op_bind (create_stage d schema tbl token) (\<lambda>stage_ref.
     op_finally
       (op_then (insert_batches d stage_ref (column_names data) data)
         (op_bind (op_of_res (final_statement stage_ref)) (trino_run d)))
       (drop_stage d stage_ref)))"

definition trino_append :: "'w trino_driver \<Rightarrow> string \<Rightarrow> string \<Rightarrow> arrow_table \<Rightarrow> ('w, unit) op" where
  "trino_append d schema tbl data =
     (if num_rows data = 0 then op_return ()
      else op_bind (trino_ref d schema tbl) (\<lambda>target_ref.
        write_via_stage d schema tbl data (\<lambda>stage_ref. append_statement target_ref stage_ref (column_names data))))"

definition trino_upsert_rows :: "'w trino_driver \<Rightarrow> string \<Rightarrow> string \<Rightarrow> arrow_table \<Rightarrow> string list \<Rightarrow> ('w, unit) op" where
  "trino_upsert_rows d schema tbl data primary_key =
     (if num_rows data = 0 then op_return ()
      else op_bind (trino_ref d schema tbl) (\<lambda>target_ref.
        write_via_stage d schema tbl data
          (\<lambda>stage_ref. merge_statement target_ref stage_ref (column_names data) primary_key)))"

section \<open>The adapter\<close>

definition trino_adapter :: "'w trino_driver \<Rightarrow> 'w adapter" where
  "trino_adapter d = \<lparr>
     ad_name = ''TrinoAdapter'',
     ad_fetch = trino_fetch d,
     ad_validate_config = Some (\<lambda>config names. op_of_res (trino_validate_config (PDict config) names)),
     ad_ensure_table = (\<lambda>schema tbl columns config key.
       trino_ensure_table d schema tbl (map column_dict columns) (PDict config) key),
     ad_table_columns = trino_table_columns d,
     ad_load = trino_load d,
     ad_append = Some (trino_append d),
     ad_upsert_rows = Some (trino_upsert_rows d),
     ad_close = tr_close d\<rparr>"

section \<open>Connecting\<close>

definition trino_required_env :: "string list" where
  "trino_required_env = [''TRINO_HOST'', ''TRINO_CATALOG'']"

text \<open>\<^verbatim>\<open>int(text)\<close>.\<close>

definition py_int :: "string \<Rightarrow> int res" where
  "py_int text = (let t = strip text;
       sign = (case t of c # r \<Rightarrow> if c = CHR ''-'' then - 1 else 1 | [] \<Rightarrow> 1);
       body = (case t of c # r \<Rightarrow> if c \<in> set ''+-'' then r else t | [] \<Rightarrow> t) in
     if list_all (\<lambda>p. p \<noteq> [] \<and> list_all is_digit p) (split_on (CHR ''_'') body)
     then Inr (sign * int (digits_val (filter is_digit body)))
     else raise_value (''invalid literal for int() with base 10: '' @ repr_str text))"

record trino_params =
  tp_host :: string
  tp_port :: int
  tp_user :: string
  tp_catalog :: string
  tp_scheme :: string
  tp_auth :: "(string \<times> string) option"

definition trino_params_of :: "(string \<Rightarrow> string option) \<Rightarrow> trino_params res" where
  "trino_params_of env =
     bind_res (env_value env ''TRINO_CATALOG'') (\<lambda>catalog.
     let user = env_or env ''TRINO_USER'' ''continuo''; scheme = env_or env ''TRINO_HTTP_SCHEME'' ''http'';
         password = env_or env ''TRINO_PASSWORD'' [] in
     if password \<noteq> [] \<and> scheme \<noteq> ''https'' then
       raise_value (''TRINO_PASSWORD is set but TRINO_HTTP_SCHEME is not 'https'; ''
         @ ''Trino refuses basic auth over plaintext'')
     else bind_res (env_value env ''TRINO_HOST'') (\<lambda>host.
       bind_res (py_int (env_or env ''TRINO_PORT'' ''8080'')) (\<lambda>port.
       Inr \<lparr>tp_host = host, tp_port = port, tp_user = user, tp_catalog = catalog, tp_scheme = scheme,
         tp_auth = (if password = [] then None else Some (user, password))\<rparr>)))"

definition trino_connect_attempts :: nat where "trino_connect_attempts = 5"
definition fast_failure_seconds :: rat where "fast_failure_seconds = 5"

text \<open>An attempt that fails carries how long it took, by the clock of the world it ran in.\<close>

definition timed :: "('w \<Rightarrow> rat) \<Rightarrow> ('w, 'a) op \<Rightarrow> 'w \<Rightarrow> ((exn \<times> rat) + 'a) \<times> 'w" where
  "timed clock m w = (case m w of
     (Inr a, u) \<Rightarrow> (Inr a, u)
   | (Inl e, u) \<Rightarrow> (Inl (e, clock u - clock w), u))"

definition trino_delay :: "(exn \<Rightarrow> exc_object list) \<Rightarrow> nat \<Rightarrow> exn \<times> rat \<Rightarrow> unit option" where
  "trino_delay chain attempt = (\<lambda>(e, elapsed).
     if trino_unreachable (chain e) \<and> elapsed \<le> fast_failure_seconds then Some () else None)"

interpretation trino_connect: retry_policy "trino_delay chain"
    "\<lambda>(e, elapsed). trino_unreachable (chain e) \<and> elapsed \<le> fast_failure_seconds"
  for chain
  by unfold_locales (auto simp: trino_delay_def split: if_splits)

text \<open>The first request decides; a connection that stays unusable is closed before its failure is raised.\<close>

definition trino_from_env ::
  "(trino_params \<Rightarrow> 'w trino_driver res) \<Rightarrow> (exn \<Rightarrow> exc_object list) \<Rightarrow> ('w \<Rightarrow> rat) \<Rightarrow> (unit \<Rightarrow> 'w \<Rightarrow> 'w) \<Rightarrow>
   (string \<Rightarrow> string option) \<Rightarrow> ('w, 'w adapter) op" where
  "trino_from_env connect chain clock pause env =
     op_bind (op_of_res (bind_res (trino_params_of env) connect)) (\<lambda>d w.
       case retry (trino_delay chain) pause (timed clock (trino_execute d ''SELECT 1'' None)) 1
              (trino_connect_attempts - 1) w of
         (Inr rows, u) \<Rightarrow> (Inr (trino_adapter d), u)
       | (Inl (e, elapsed), u) \<Rightarrow> op_then (tr_close d) (op_raise e) u)"

end
