(* ===== verification/TrinoServer.thy ===== *)
theory TrinoServer
  imports Trino
begin

text \<open>
  What the Trino adapter relies on, as the interface \<open>trino_server\<close>: every statement of a write is one
  commit, all of its effect or none, on tables whose names are kept in lower case. Inside it: what the
  staged writes leave behind, on success and on every failure.
\<close>

section \<open>Batches\<close>

lemma concat_takes: "concat (map (\<lambda>k. take n (drop (k * n) xs)) [0..<m]) = take (m * n) xs"
proof (induction m)
  case (Suc m)
  then show ?case using take_add [of "m * n" n xs] by (simp add: add.commute)
qed simp

lemma concat_batches:
  assumes "0 < n"
  shows "concat (batches n xs) = xs"
proof -
  have "length xs \<le> (length xs + n - 1) div n * n"
    using assms div_mult_mod_eq [of "length xs + n - 1" n] mod_less_divisor [OF assms, of "length xs + n - 1"] by linarith
  then show ?thesis by (simp add: batches_def concat_takes)
qed

lemma batches_bound: "b \<in> set (batches n xs) \<Longrightarrow> length b \<le> n \<and> set b \<subseteq> set xs"
  by (auto simp: batches_def dest!: in_set_takeD in_set_dropD)

lemma row_values_width: "r \<in> set (row_values t) \<Longrightarrow> length r = length (column_names t)"
  by (auto simp: row_values_def)

section \<open>The interface\<close>

type_synonym table_key = "string \<times> string"

definition table_key :: "string \<Rightarrow> string \<Rightarrow> table_key" where
  "table_key schema tbl = (py_lower schema, py_lower tbl)"

abbreviation stage_key :: "string \<Rightarrow> string \<Rightarrow> table_key" where
  "stage_key s token \<equiv> table_key s (stage_prefix @ token)"

abbreviation old_key :: "string \<Rightarrow> string \<Rightarrow> table_key" where
  "old_key s token \<equiv> table_key s (old_prefix @ token)"

type_synonym table_store = "table_key \<Rightarrow> pyval list list option"

text \<open>
  Stores of tables under any names: a target \<open>a\<close>, a stage \<open>g\<close> and a name \<open>z\<close> for the old table. A stage
  may stand beside its target when the target is there and the private name is free.
\<close>

definition target_stage :: "'k \<Rightarrow> 'k \<Rightarrow> ('k \<Rightarrow> 'v option) \<Rightarrow> bool" where
  "target_stage a g T \<longleftrightarrow> T a \<noteq> None \<and> T g = None"

lemma target_stage_distinct: "target_stage a g T \<Longrightarrow> g \<noteq> a"
  by (auto simp: target_stage_def)

definition same_elsewhere :: "'k \<Rightarrow> 'k set \<Rightarrow> ('k \<Rightarrow> 'v option) \<Rightarrow> ('k \<Rightarrow> 'v option) \<Rightarrow> bool" where
  "same_elsewhere a P T T' \<longleftrightarrow> (\<forall>k. k \<noteq> a \<longrightarrow> k \<notin> P \<longrightarrow> T' k = T k)"

text \<open>
  A failed load: the target holds what it held; or the swap is done and only the old table could not be
  dropped; or the second rename and the recovery both failed, and the old rows are under a private name.
\<close>

definition load_failed :: "'k \<Rightarrow> 'k set \<Rightarrow> 'v \<Rightarrow> ('k \<Rightarrow> 'v option) \<Rightarrow> ('k \<Rightarrow> 'v option) \<Rightarrow> bool" where
  "load_failed a P new T T' \<longleftrightarrow> same_elsewhere a P T T' \<and>
     (T' a = T a \<or> (T a \<noteq> None \<and> T' a = Some new)
      \<or> (T' a = None \<and> (\<exists>k. k \<in> P \<and> T k = None \<and> T' k = T a)))"

lemma load_failed_refl: "load_failed a P new T T"
  by (simp add: load_failed_def same_elsewhere_def)

lemma load_failed_staged: "target_stage a g T \<Longrightarrow> g \<in> P \<Longrightarrow> T' = T(g := p) \<Longrightarrow> load_failed a P new T T'"
  using target_stage_distinct [of a g T] by (auto simp: load_failed_def same_elsewhere_def)

lemma load_failed_swapped:
  "T a = Some old \<Longrightarrow> T z = None \<Longrightarrow> z \<in> P \<Longrightarrow> T' = T(a \<mapsto> new, z \<mapsto> old) \<Longrightarrow> load_failed a P new T T'"
  by (auto simp: load_failed_def same_elsewhere_def)

text \<open>The state between the two renames, where only the private name has the old rows.\<close>

definition between_renames :: "'k \<Rightarrow> 'k \<Rightarrow> 'k \<Rightarrow> 'v \<Rightarrow> ('k \<Rightarrow> 'v option) \<Rightarrow> 'v option \<Rightarrow> ('k \<Rightarrow> 'v option) \<Rightarrow> bool" where
  "between_renames a g z old T p T' \<longleftrightarrow> T z = None \<and> z \<noteq> a \<and> z \<noteq> g \<and> T' = T(g := p, a := None, z \<mapsto> old)"

lemma load_failed_between:
  "target_stage a g T \<Longrightarrow> T a = Some old \<Longrightarrow> between_renames a g z old T p T' \<Longrightarrow> g \<in> P \<Longrightarrow> z \<in> P \<Longrightarrow> load_failed a P new T T'"
  by (auto simp: load_failed_def same_elsewhere_def between_renames_def intro!: exI [of _ z])

text \<open>The two renames and the recovery, as updates of a store.\<close>

lemma first_rename:
  assumes "target_stage a g T" and "T a = Some old" and "T' = T(g \<mapsto> new)"
    and "T' a = Some rows" and "T' z = None" and "T'' = T'(a := None, z \<mapsto> rows)"
  shows "between_renames a g z old T (Some new) T''"
  using assms target_stage_distinct [OF assms(1)] by (auto simp: between_renames_def split: if_splits)

lemma second_rename:
  assumes "target_stage a g T" and "between_renames a g z old T (Some new) T'"
    and "T' g = Some rows" and "T'' = T'(g := None, a \<mapsto> rows)"
  shows "T z = None \<and> T'' = T(a \<mapsto> new, z \<mapsto> old)"
  using assms target_stage_distinct [OF assms(1)] by (auto simp: between_renames_def target_stage_def fun_eq_iff)

lemma recovery_rename:
  assumes "T a = Some old" and "between_renames a g z old T (Some new) T'"
    and "T' z = Some rows" and "T'' = T'(z := None, a \<mapsto> rows)" and "a \<noteq> g"
  shows "T'' = T(g \<mapsto> new)"
  using assms by (auto simp: between_renames_def fun_eq_iff)

text \<open>What a fill and swap that failed leaves, before and after its stage is dropped.\<close>

definition half_done :: "'k \<Rightarrow> 'k \<Rightarrow> 'k \<Rightarrow> 'v \<Rightarrow> ('k \<Rightarrow> 'v option) \<Rightarrow> ('k \<Rightarrow> 'v option) \<Rightarrow> bool" where
  "half_done a g z old T T' \<longleftrightarrow> (\<exists>p. T' = T(g := p) \<or> between_renames a g z old T p T')"

lemma half_done_drop:
  assumes "target_stage a g T" and "half_done a g z old T T'"
  shows "half_done a g z old T (T'(g := None))"
  using assms target_stage_distinct [OF assms(1)] by (auto simp: half_done_def between_renames_def fun_eq_iff)

lemma half_done_failed:
  "target_stage a g T \<Longrightarrow> T a = Some old \<Longrightarrow> half_done a g z old T T' \<Longrightarrow> g \<in> P \<Longrightarrow> z \<in> P \<Longrightarrow> load_failed a P new T T'"
  unfolding half_done_def using load_failed_staged load_failed_between by metis

lemma drop_old:
  "T z = None \<Longrightarrow> z \<noteq> a \<Longrightarrow> T' = T(a \<mapsto> new, z \<mapsto> old) \<Longrightarrow> T'(z := None) = T(a \<mapsto> new)"
  by (auto simp: fun_eq_iff)

text \<open>A write in one statement: the target's new rows from the old ones, or everything as it was.\<close>

definition written :: "'k \<Rightarrow> 'k set \<Rightarrow> ('v \<Rightarrow> 'v) \<Rightarrow> ('k \<Rightarrow> 'v option) \<Rightarrow> ('k \<Rightarrow> 'v option) \<Rightarrow> bool" where
  "written a P f T T' \<longleftrightarrow> same_elsewhere a P T T' \<and> T a \<noteq> None \<and> T' a = map_option f (T a)"

definition unwritten :: "'k \<Rightarrow> 'k set \<Rightarrow> ('k \<Rightarrow> 'v option) \<Rightarrow> ('k \<Rightarrow> 'v option) \<Rightarrow> bool" where
  "unwritten a P T T' \<longleftrightarrow> same_elsewhere a P T T' \<and> T' a = T a"

lemma unwritten_refl: "unwritten a P T T"
  by (simp add: unwritten_def same_elsewhere_def)

lemma written_staged:
  "target_stage a g T \<Longrightarrow> T a = Some old \<Longrightarrow> g \<in> P \<Longrightarrow> T' = T(a \<mapsto> f old, g := p) \<Longrightarrow> written a P f T T'"
  using target_stage_distinct [of a g T] by (auto simp: written_def same_elsewhere_def)

lemma unwritten_staged: "target_stage a g T \<Longrightarrow> g \<in> P \<Longrightarrow> T' = T(g := p) \<Longrightarrow> unwritten a P T T'"
  using target_stage_distinct [of a g T] by (auto simp: unwritten_def same_elsewhere_def)

lemma one_statement:
  assumes "target_stage a g T" and "T a = Some old" and "T' = T(g \<mapsto> new)"
    and "T' a = Some old'" and "T' g = Some staged" and "T'' = T'(a \<mapsto> f staged old')"
  shows "T'' = T(a \<mapsto> f new old, g \<mapsto> new)"
  using assms target_stage_distinct [OF assms(1)] by (auto simp: fun_eq_iff)

definition private_keys :: "string \<Rightarrow> table_key set" where
  "private_keys s = range (stage_key s) \<union> range (old_key s)"

lemma private_keysI: "stage_key s token \<in> private_keys s" "old_key s token \<in> private_keys s"
  by (auto simp: private_keys_def)

locale trino_server =
  fixes d :: "'w trino_driver" and tables :: "'w \<Rightarrow> table_store"
    and merged :: "string list \<Rightarrow> string list \<Rightarrow> pyval list list \<Rightarrow> pyval list list \<Rightarrow> pyval list list"
  assumes token_keeps: "wp (tr_token d) (\<lambda>_ u. tables u = tables w) (\<lambda>_ u. tables u = tables w) w"
    and location_keeps: "wp (tr_exec d (location_query ref) None)
        (\<lambda>_ u. tables u = tables w) (\<lambda>_ u. tables u = tables w) w"
    and create_like: "wp (tr_exec d (create_like_sql (ref_text (tr_catalog d) s g) (ref_text (tr_catalog d) s t) loc) None)
        (\<lambda>_ u. tables w (table_key s g) = None \<and> tables w (table_key s t) \<noteq> None
           \<and> tables u = (tables w)(table_key s g \<mapsto> []))
        (\<lambda>_ u. tables u = tables w) w"
    and insert_values: "list_all (\<lambda>r. length r = length columns) batch \<Longrightarrow>
        wp (tr_exec d (insert_values_sql (ref_text (tr_catalog d) s g) (column_list columns) (length columns) (length batch))
             (Some (concat batch)))
        (\<lambda>_ u. \<exists>rows. tables w (table_key s g) = Some rows \<and> tables u = (tables w)(table_key s g \<mapsto> rows @ batch))
        (\<lambda>_ u. tables u = tables w) w"
    and rename: "wp (tr_exec d (rename_sql (ref_text (tr_catalog d) s a) (ref_text (tr_catalog d) s b)) None)
        (\<lambda>_ u. \<exists>rows. tables w (table_key s a) = Some rows \<and> tables w (table_key s b) = None
           \<and> tables u = (tables w)(table_key s a := None, table_key s b \<mapsto> rows))
        (\<lambda>_ u. tables u = tables w) w"
    and drop_table: "wp (tr_exec d (drop_sql (ref_text (tr_catalog d) s a)) None)
        (\<lambda>_ u. tables u = (tables w)(table_key s a := None)) (\<lambda>_ u. tables u = tables w) w"
    and insert_select: "append_statement (ref_text (tr_catalog d) s t) (ref_text (tr_catalog d) s g) columns = Inr sql \<Longrightarrow>
        wp (tr_exec d sql None)
        (\<lambda>_ u. \<exists>old staged. tables w (table_key s t) = Some old \<and> tables w (table_key s g) = Some staged
           \<and> tables u = (tables w)(table_key s t \<mapsto> old @ staged))
        (\<lambda>_ u. tables u = tables w) w"
    and merge_into: "merge_statement (ref_text (tr_catalog d) s t) (ref_text (tr_catalog d) s g) columns key = Inr sql \<Longrightarrow>
        wp (tr_exec d sql None)
        (\<lambda>_ u. \<exists>old staged. tables w (table_key s t) = Some old \<and> tables w (table_key s g) = Some staged
           \<and> tables u = (tables w)(table_key s t \<mapsto> merged columns key staged old))
        (\<lambda>_ u. tables u = tables w) w"
begin

text \<open>A statement whose rows are not looked at.\<close>

lemma wp_execute: "wp (trino_execute d sql params) Q E = wp (tr_exec d sql params) (\<lambda>(names, rows). Q rows) E"
  unfolding trino_execute_def wp_bind by (rule arg_cong [of _ _ "\<lambda>q. wp _ q _"]) (auto simp: fun_eq_iff wp_return)

lemma wp_exec_done:
  "wp (op_then (trino_execute d sql params) (op_return ())) Q E = wp (tr_exec d sql params) (\<lambda>_. Q ()) E"
  unfolding wp_bind wp_execute by (rule arg_cong [of _ _ "\<lambda>q. wp _ q _"]) (auto simp: fun_eq_iff wp_return)

lemma wp_run_stmt: "wp (trino_run d sql) Q E = wp (tr_exec d sql None) (\<lambda>_. Q ()) E"
  unfolding trino_run_def wp_exec_done by (rule refl)

lemma wp_ref:
  "(\<And>r. trino_table_ref (tr_catalog d) s t = Inr r \<Longrightarrow> Q (ref_text (tr_catalog d) s t) w) \<Longrightarrow>
     (\<And>e. E e w) \<Longrightarrow> wp (trino_ref d s t) Q E w"
  by (auto simp: trino_ref_def wp_of_res trino_table_ref_Inr split: sum.splits)

lemma create_stage_wp:
  assumes T: "tables w = T"
  shows "wp (create_stage d s t token)
    (\<lambda>r u. r = ref_text (tr_catalog d) s (stage_prefix @ token) \<and> target_stage (table_key s t) (stage_key s token) T
       \<and> tables u = T(table_key s (stage_prefix @ token) \<mapsto> []))
    (\<lambda>_ u. tables u = T) w"
proof -
  have create: "wp (trino_run d (create_like_sql (ref_text (tr_catalog d) s (stage_prefix @ token)) (ref_text (tr_catalog d) s t) loc))
      (\<lambda>_ u. target_stage (table_key s t) (stage_key s token) T \<and> tables u = T(table_key s (stage_prefix @ token) \<mapsto> []))
      (\<lambda>_ u. tables u = T) v" if "tables v = T" for v loc
    unfolding wp_run_stmt by (rule wp_mono [OF create_like]) (simp_all add: that target_stage_def)
  have location: "wp (trino_table_location d s t) (\<lambda>_ u. tables u = T) (\<lambda>_ u. tables u = T) w"
    unfolding trino_table_location_def wp_bind wp_execute
    by (intro wp_ref wp_mono [OF location_keeps]) (auto simp: wp_of_res T split: sum.splits)
  show ?thesis
    unfolding create_stage_def wp_bind Let_def
    by (intro wp_ref wp_mono [OF location])
      (auto simp: wp_simps T split: sum.splits intro!: wp_mono [OF create])
qed

lemma each_insert_wp:
  assumes "tables w = T(k \<mapsto> acc)" and "\<forall>b\<in>set bs. list_all (\<lambda>r. length r = length columns) b" and k: "k = table_key s g"
  shows "wp (op_each (\<lambda>batch. op_then
         (trino_execute d (insert_values_sql (ref_text (tr_catalog d) s g) (column_list columns) (length columns) (length batch))
           (Some (concat batch))) (op_return ())) bs)
    (\<lambda>_ u. tables u = T(k \<mapsto> acc @ concat bs)) (\<lambda>_ u. \<exists>p. tables u = T(k \<mapsto> p)) w"
  using assms(1,2)
proof (induction bs arbitrary: w acc)
  case Nil
  then show ?case by (simp add: wp_simps)
next
  case (Cons b bs)
  have "list_all (\<lambda>r. length r = length columns) b" using Cons.prems(2) by simp
  from insert_values [OF this, of s g w] Cons.prems(1)
  have ins: "wp (tr_exec d (insert_values_sql (ref_text (tr_catalog d) s g) (column_list columns) (length columns) (length b))
      (Some (concat b))) (\<lambda>_ u. tables u = T(k \<mapsto> acc @ b)) (\<lambda>_ u. tables u = T(k \<mapsto> acc)) w"
    by (elim wp_mono) (auto simp: k)
  have rest: "wp (op_each (\<lambda>batch. op_then
         (trino_execute d (insert_values_sql (ref_text (tr_catalog d) s g) (column_list columns) (length columns) (length batch))
           (Some (concat batch))) (op_return ())) bs)
      (\<lambda>_ u. tables u = T(k \<mapsto> (acc @ b) @ concat bs)) (\<lambda>_ u. \<exists>p. tables u = T(k \<mapsto> p)) u"
    if "tables u = T(k \<mapsto> acc @ b)" for u
    by (rule Cons.IH [OF that]) (use Cons.prems(2) in simp)
  show ?case
    unfolding op_each.simps wp_bind [of _ "\<lambda>_. op_each _ _"] wp_exec_done
    by (rule wp_mono [OF ins], unfold concat.simps append_assoc [symmetric], rule rest, assumption) blast
qed

lemma insert_batches_wp:
  assumes "tables w = T(table_key s g \<mapsto> [])"
  shows "wp (insert_batches d (ref_text (tr_catalog d) s g) (column_names data) data)
    (\<lambda>_ u. tables u = T(table_key s g \<mapsto> row_values data)) (\<lambda>_ u. \<exists>p. tables u = T(table_key s g \<mapsto> p)) w"
proof -
  have width: "\<forall>b\<in>set (batches insert_batch_size (row_values data)). list_all (\<lambda>r. length r = length (column_names data)) b"
    using batches_bound row_values_width by (fastforce simp: list_all_iff)
  have names: "traverse trino_quote cs = Inr ns \<Longrightarrow> ns = map (quoted quote2) cs" for cs ns
    by (induction cs arbitrary: ns) (auto simp: res_simps trino_quote_def split: if_splits)
  have all: "concat (batches insert_batch_size (row_values data)) = row_values data"
    by (rule concat_batches) (simp add: insert_batch_size_def)
  show ?thesis
    unfolding insert_batches_def wp_bind wp_of_res
    using each_insert_wp [OF assms width refl, unfolded all append_Nil] assms
    by (auto dest!: names simp: column_list_def split: sum.splits)
qed

text \<open>The two renames, from a filled stage.\<close>

lemma swap_in_wp:
  assumes st: "target_stage (table_key s t) (stage_key s token) T" and old: "T (table_key s t) = Some old"
    and w: "tables w = T(stage_key s token \<mapsto> new)"
  shows "wp (swap_in d (ref_text (tr_catalog d) s t) (ref_text (tr_catalog d) s (stage_prefix @ token))
        (ref_text (tr_catalog d) s (old_prefix @ token)))
    (\<lambda>_ u. T (old_key s token) = None \<and> tables u = T(table_key s t \<mapsto> new, old_key s token \<mapsto> old))
    (\<lambda>_ u. half_done (table_key s t) (stage_key s token) (old_key s token) old T (tables u)) w"
proof -
  let ?between = "\<lambda>u. between_renames (table_key s t) (stage_key s token) (old_key s token) old T (Some new) (tables u)"
  have first: "wp (trino_run d (rename_sql (ref_text (tr_catalog d) s t) (ref_text (tr_catalog d) s (old_prefix @ token))))
      (\<lambda>_. ?between) (\<lambda>_ u. tables u = tables w) w"
    unfolding wp_run_stmt by (rule wp_mono [OF rename], elim exE conjE, rule first_rename [OF st old w], assumption+)
  have second: "wp (trino_run d (rename_sql (ref_text (tr_catalog d) s (stage_prefix @ token)) (ref_text (tr_catalog d) s t)))
      (\<lambda>_ u. T (old_key s token) = None \<and> tables u = T(table_key s t \<mapsto> new, old_key s token \<mapsto> old))
      (\<lambda>_. ?between) v" if "?between v" for v
    unfolding wp_run_stmt
    by (rule wp_mono [OF rename], elim exE conjE, rule second_rename [OF st that], assumption+) (use that in simp)
  have restore: "wp (trino_run d (rename_sql (ref_text (tr_catalog d) s (old_prefix @ token)) (ref_text (tr_catalog d) s t)))
      (\<lambda>_ u. tables u = tables w) (\<lambda>_. ?between) v" if "?between v" for v
    unfolding wp_run_stmt w
    by (rule wp_mono [OF rename], elim exE conjE, rule recovery_rename [OF old that], assumption+)
      (use that target_stage_distinct [OF st] in auto)
  have ends: "tables u = tables w \<Longrightarrow> half_done (table_key s t) (stage_key s token) (old_key s token) old T (tables u)"
    "?between u \<Longrightarrow> half_done (table_key s t) (stage_key s token) (old_key s token) old T (tables u)" for u
    unfolding half_done_def w by blast+
  show ?thesis
    unfolding swap_in_def wp_bind wp_except wp_return wp_raise
    by (rule wp_mono [OF first], rule wp_mono [OF second], assumption, assumption, rule wp_mono [OF restore])
      (assumption | erule ends)+
qed

section \<open>Replacing a table\<close>

lemma fill_and_swap_wp:
  assumes st: "target_stage (table_key s t) (stage_key s token) T" and old: "T (table_key s t) = Some old"
    and w: "tables w = T(stage_key s token \<mapsto> [])"
  shows "wp (fill_and_swap d data (ref_text (tr_catalog d) s t) (ref_text (tr_catalog d) s (stage_prefix @ token))
        (ref_text (tr_catalog d) s (old_prefix @ token)))
    (\<lambda>_ u. T (old_key s token) = None \<and> tables u = T(table_key s t \<mapsto> row_values data, old_key s token \<mapsto> old))
    (\<lambda>_ u. half_done (table_key s t) (stage_key s token) (old_key s token) old T (tables u)) w"
proof -
  have fill: "wp (if num_rows data \<noteq> 0 then insert_batches d (ref_text (tr_catalog d) s (stage_prefix @ token)) (column_names data) data
       else op_return ())
      (\<lambda>_ u. tables u = T(stage_key s token \<mapsto> row_values data)) (\<lambda>_ u. \<exists>p. tables u = T(stage_key s token \<mapsto> p)) w"
    using insert_batches_wp [OF w] w by (simp add: wp_return row_values_def)
  show ?thesis
    unfolding fill_and_swap_def wp_bind
    by (rule wp_mono [OF fill], rule swap_in_wp [OF st old], assumption) (auto simp: half_done_def)
qed

lemma drop_stage_wp:
  assumes "\<And>u. tables u = (tables w)(stage_key s token := None) \<Longrightarrow> Q u" and "\<And>u. tables u = tables w \<Longrightarrow> Q u"
  shows "wp (drop_stage d (ref_text (tr_catalog d) s (stage_prefix @ token))) (\<lambda>_. Q) E w"
  unfolding drop_stage_def wp_except wp_run_stmt wp_return
  by (rule wp_mono [OF drop_table]) (fact assms)+

lemma drop_old_wp:
  assumes old: "T (table_key s t) = Some old" and z: "T (old_key s token) = None"
    and w: "tables w = T(table_key s t \<mapsto> new, old_key s token \<mapsto> old)"
  shows "wp (trino_run d (drop_sql (ref_text (tr_catalog d) s (old_prefix @ token))))
    (\<lambda>_ u. tables u = T(table_key s t \<mapsto> new)) (\<lambda>_ u. load_failed (table_key s t) (private_keys s) new T (tables u)) w"
proof -
  have "old_key s token \<noteq> table_key s t" using old z by auto
  from drop_old [OF z this w] load_failed_swapped [OF old z private_keysI(2) w] show ?thesis
    unfolding wp_run_stmt by (intro wp_mono [OF drop_table]) simp_all
qed

lemma staged_load_wp:
  assumes st: "target_stage (table_key s t) (stage_key s token) T" and w: "tables w = T(stage_key s token \<mapsto> [])"
  shows "wp (op_then
      (op_except (fill_and_swap d data (ref_text (tr_catalog d) s t) (ref_text (tr_catalog d) s (stage_prefix @ token))
          (ref_text (tr_catalog d) s (old_prefix @ token)))
        (\<lambda>e. op_then (drop_stage d (ref_text (tr_catalog d) s (stage_prefix @ token))) (op_raise e)))
      (trino_run d (drop_sql (ref_text (tr_catalog d) s (old_prefix @ token)))))
    (\<lambda>_ u. T (table_key s t) \<noteq> None \<and> tables u = T(table_key s t \<mapsto> row_values data))
    (\<lambda>_ u. load_failed (table_key s t) (private_keys s) (row_values data) T (tables u)) w"
proof -
  obtain old where old: "T (table_key s t) = Some old" using st unfolding target_stage_def by blast
  have cleanup: "wp (drop_stage d (ref_text (tr_catalog d) s (stage_prefix @ token)))
      (\<lambda>_ u. load_failed (table_key s t) (private_keys s) (row_values data) T (tables u))
      (\<lambda>_ u. load_failed (table_key s t) (private_keys s) (row_values data) T (tables u)) v"
    if "half_done (table_key s t) (stage_key s token) (old_key s token) old T (tables v)" for v
    using half_done_failed [OF st old that private_keysI] half_done_failed [OF st old half_done_drop [OF st that] private_keysI]
    by (intro drop_stage_wp) simp_all
  have finish: "wp (trino_run d (drop_sql (ref_text (tr_catalog d) s (old_prefix @ token))))
    (\<lambda>_ u. T (table_key s t) \<noteq> None \<and> tables u = T(table_key s t \<mapsto> row_values data))
    (\<lambda>_ u. load_failed (table_key s t) (private_keys s) (row_values data) T (tables u)) v"
    if "T (old_key s token) = None \<and> tables v = T(table_key s t \<mapsto> row_values data, old_key s token \<mapsto> old)" for v
    using drop_old_wp [of T s t old token v "row_values data"] old that by (auto elim!: wp_mono)
  show ?thesis
    unfolding wp_bind wp_except wp_raise
    by (rule wp_mono [OF fill_and_swap_wp [OF st old w]], erule finish, erule cleanup)
qed

lemma load_wp:
  assumes T: "tables w = T"
  shows "wp (trino_load d s t data)
    (\<lambda>_ u. T (table_key s t) \<noteq> None \<and> tables u = T(table_key s t \<mapsto> row_values data))
    (\<lambda>_ u. load_failed (table_key s t) (private_keys s) (row_values data) T (tables u)) w"
proof -
  have create: "wp (op_bind (create_stage d s t token) (\<lambda>r. op_then
         (op_except (fill_and_swap d data (ref_text (tr_catalog d) s t) r (ref_text (tr_catalog d) s (old_prefix @ token)))
           (\<lambda>e. op_then (drop_stage d r) (op_raise e)))
         (trino_run d (drop_sql (ref_text (tr_catalog d) s (old_prefix @ token))))))
      (\<lambda>_ u. T (table_key s t) \<noteq> None \<and> tables u = T(table_key s t \<mapsto> row_values data))
      (\<lambda>_ u. load_failed (table_key s t) (private_keys s) (row_values data) T (tables u)) u" if "tables u = T" for token u
    unfolding wp_bind [of "create_stage d s t token"]
    by (rule wp_mono [OF create_stage_wp [OF that]]) (elim conjE, simp only:, rule staged_load_wp, assumption+, simp only: load_failed_refl)
  have named: "wp (op_bind (trino_ref d s (old_prefix @ token)) (\<lambda>old_ref. op_bind (create_stage d s t token) (\<lambda>r. op_then
         (op_except (fill_and_swap d data (ref_text (tr_catalog d) s t) r old_ref)
           (\<lambda>e. op_then (drop_stage d r) (op_raise e)))
         (trino_run d (drop_sql old_ref)))))
      (\<lambda>_ u. T (table_key s t) \<noteq> None \<and> tables u = T(table_key s t \<mapsto> row_values data))
      (\<lambda>_ u. load_failed (table_key s t) (private_keys s) (row_values data) T (tables u)) u" if "tables u = T" for token u
    unfolding wp_bind [of "trino_ref d s (old_prefix @ token)"]
    by (rule wp_ref) (use create [OF that] that in \<open>simp_all only: load_failed_refl\<close>)
  show ?thesis
    unfolding trino_load_def wp_bind [of "trino_ref d s t"] wp_bind [of "tr_token d"]
    by (rule wp_ref, rule wp_mono [OF token_keeps]) (use named T in \<open>simp_all only: load_failed_refl\<close>)
qed

section \<open>One statement on the target\<close>

text \<open>
  A write through a stage: a failure leaves the target as it was, and success gives it the rows that
  the one statement makes of the staged rows and the old ones. Other tables keep theirs.
\<close>

lemma staged_statement_wp:
  assumes st: "target_stage (table_key s t) (stage_key s token) T" and old: "T (table_key s t) = Some old"
    and w: "tables w = T(stage_key s token \<mapsto> [])"
    and one: "\<And>sql v. final_statement (ref_text (tr_catalog d) s (stage_prefix @ token)) = Inr sql \<Longrightarrow>
      wp (tr_exec d sql None)
        (\<lambda>_ u. \<exists>old staged. tables v (table_key s t) = Some old \<and> tables v (stage_key s token) = Some staged
           \<and> tables u = (tables v)(table_key s t \<mapsto> f staged old)) (\<lambda>_ u. tables u = tables v) v"
  shows "wp (op_then (insert_batches d (ref_text (tr_catalog d) s (stage_prefix @ token)) (column_names data) data)
      (op_bind (op_of_res (final_statement (ref_text (tr_catalog d) s (stage_prefix @ token)))) (trino_run d)))
    (\<lambda>_ u. \<exists>p. tables u = T(table_key s t \<mapsto> f (row_values data) old, stage_key s token := p))
    (\<lambda>_ u. \<exists>p. tables u = T(stage_key s token := p)) w"
proof -
  have "wp (op_bind (op_of_res (final_statement (ref_text (tr_catalog d) s (stage_prefix @ token)))) (trino_run d))
    (\<lambda>_ u. \<exists>p. tables u = T(table_key s t \<mapsto> f (row_values data) old, stage_key s token := p))
    (\<lambda>_ u. \<exists>p. tables u = T(stage_key s token := p)) v" if v: "tables v = T(stage_key s token \<mapsto> row_values data)" for v
  proof (cases "final_statement (ref_text (tr_catalog d) s (stage_prefix @ token))")
    case (Inl e)
    then show ?thesis using v by (auto simp: wp_bind wp_of_res)
  next
    case (Inr sql)
    show ?thesis
      unfolding wp_bind wp_of_res Inr sum.case wp_run_stmt
    proof (rule wp_mono [OF one [OF Inr, of v]], elim exE conjE)
      fix u old' staged
      assume "tables v (table_key s t) = Some old'" "tables v (stage_key s token) = Some staged"
        "tables u = (tables v)(table_key s t \<mapsto> f staged old')"
      from one_statement [of _ _ _ _ _ _ _ _ _ f, OF st old v this]
      show "\<exists>p. tables u = T(table_key s t \<mapsto> f (row_values data) old, stage_key s token := p)" by blast
    qed (use v in auto)
  qed
  then show ?thesis unfolding wp_bind [of "insert_batches _ _ _ _"]
    by (intro wp_mono [OF insert_batches_wp [OF w]]) auto
qed

lemma staged_write_wp:
  assumes st: "target_stage (table_key s t) (stage_key s token) T" and w: "tables w = T(stage_key s token \<mapsto> [])"
    and one: "\<And>sql v. final_statement (ref_text (tr_catalog d) s (stage_prefix @ token)) = Inr sql \<Longrightarrow>
      wp (tr_exec d sql None)
        (\<lambda>_ u. \<exists>old staged. tables v (table_key s t) = Some old \<and> tables v (stage_key s token) = Some staged
           \<and> tables u = (tables v)(table_key s t \<mapsto> f staged old)) (\<lambda>_ u. tables u = tables v) v"
  shows "wp (op_finally
      (op_then (insert_batches d (ref_text (tr_catalog d) s (stage_prefix @ token)) (column_names data) data)
        (op_bind (op_of_res (final_statement (ref_text (tr_catalog d) s (stage_prefix @ token)))) (trino_run d)))
      (drop_stage d (ref_text (tr_catalog d) s (stage_prefix @ token))))
    (\<lambda>_ u. written (table_key s t) (private_keys s) (f (row_values data)) T (tables u))
    (\<lambda>_ u. unwritten (table_key s t) (private_keys s) T (tables u)) w"
proof -
  obtain old where old: "T (table_key s t) = Some old" using st unfolding target_stage_def by blast
  have kept: "wp (drop_stage d (ref_text (tr_catalog d) s (stage_prefix @ token)))
      (\<lambda>_ u. written (table_key s t) (private_keys s) (f (row_values data)) T (tables u)) E x"
    if x: "tables x = T(table_key s t \<mapsto> f (row_values data) old, stage_key s token := p)" for x p E
    by (rule drop_stage_wp; rule written_staged [OF st old private_keysI(1)]) (simp add: x, simp add: x)
  have failed: "wp (drop_stage d (ref_text (tr_catalog d) s (stage_prefix @ token)))
      (\<lambda>_ u. unwritten (table_key s t) (private_keys s) T (tables u)) E x"
    if x: "tables x = T(stage_key s token := p)" for x p E
    by (rule drop_stage_wp; rule unwritten_staged [OF st private_keysI(1)]) (simp add: x, simp add: x)
  show ?thesis
    unfolding wp_finally
    by (rule wp_mono [OF staged_statement_wp [OF st old w one]], assumption; elim exE) (erule kept, erule failed)
qed

lemma write_via_stage_wp:
  assumes T: "tables w = T"
    and one: "\<And>g sql v. final_statement (ref_text (tr_catalog d) s g) = Inr sql \<Longrightarrow>
      wp (tr_exec d sql None)
        (\<lambda>_ u. \<exists>old staged. tables v (table_key s t) = Some old \<and> tables v (table_key s g) = Some staged
           \<and> tables u = (tables v)(table_key s t \<mapsto> f staged old)) (\<lambda>_ u. tables u = tables v) v"
  shows "wp (write_via_stage d s t data final_statement)
    (\<lambda>_ u. written (table_key s t) (private_keys s) (f (row_values data)) T (tables u))
    (\<lambda>_ u. unwritten (table_key s t) (private_keys s) T (tables u)) w"
proof -
  have staged: "wp (op_bind (create_stage d s t token) (\<lambda>r. op_finally
        (op_then (insert_batches d r (column_names data) data) (op_bind (op_of_res (final_statement r)) (trino_run d)))
        (drop_stage d r)))
      (\<lambda>_ u. written (table_key s t) (private_keys s) (f (row_values data)) T (tables u))
      (\<lambda>_ u. unwritten (table_key s t) (private_keys s) T (tables u)) v" if "tables v = T" for v token
    unfolding wp_bind [of "create_stage d s t token"]
    by (rule wp_mono [OF create_stage_wp [OF that]])
      (elim conjE, simp only:, rule staged_write_wp, assumption+, erule one, simp only: unwritten_refl)
  show ?thesis
    unfolding write_via_stage_def wp_bind [of "tr_token d"]
    by (rule wp_mono [OF token_keeps]) (use staged T in \<open>simp_all only: unwritten_refl\<close>)
qed

lemma append_wp:
  assumes T: "tables w = T" and "num_rows data \<noteq> 0"
  shows "wp (trino_append d s t data)
    (\<lambda>_ u. written (table_key s t) (private_keys s) (\<lambda>old. old @ row_values data) T (tables u))
    (\<lambda>_ u. unwritten (table_key s t) (private_keys s) T (tables u)) w"
  unfolding trino_append_def if_not_P [OF assms(2)] wp_bind
  by (rule wp_ref, rule write_via_stage_wp [OF T, where f = "\<lambda>staged old. old @ staged"])
    (use insert_select T in \<open>simp_all add: unwritten_refl\<close>)

lemma upsert_wp:
  assumes T: "tables w = T" and "num_rows data \<noteq> 0"
  shows "wp (trino_upsert_rows d s t data key)
    (\<lambda>_ u. written (table_key s t) (private_keys s) (merged (column_names data) key (row_values data)) T (tables u))
    (\<lambda>_ u. unwritten (table_key s t) (private_keys s) T (tables u)) w"
  unfolding trino_upsert_rows_def if_not_P [OF assms(2)] wp_bind
  by (rule wp_ref, rule write_via_stage_wp [OF T]) (use merge_into T in \<open>simp_all add: unwritten_refl\<close>)

end

end
