(* ===== verification/TrinoSql.thy ===== *)
theory TrinoSql
  imports TrinoServer
begin

text \<open>
  A reference reader of the statements that the Trino adapter writes tables with. It is what a server's
  scanner does with quoted names and literals; whatever the names are, it reads each statement back as
  the one that was meant.
\<close>

type_synonym sql_name = "string \<times> string \<times> string"

datatype sql_write =
    RenameTable sql_name sql_name
  | CreateTableLike sql_name sql_name string
  | DropTable sql_name
  | InsertValues sql_name "string list" nat
  | InsertSelect sql_name "string list" sql_name
  | MergeInto sql_name sql_name "string list" "string list"

section \<open>Statements\<close>

definition read_rename :: "string \<Rightarrow> sql_write option" where
  "read_rename s = Option.bind (read_ref s) (\<lambda>(a, r). Option.bind (expect '' RENAME TO '' r) (\<lambda>r1.
     Option.bind (read_ref r1) (\<lambda>(b, r2). if r2 = [] then Some (RenameTable a b) else None)))"

definition read_create :: "string \<Rightarrow> sql_write option" where
  "read_create s = Option.bind (read_ref s) (\<lambda>(a, r). Option.bind (expect '' (LIKE '' r) (\<lambda>r1.
     Option.bind (read_ref r1) (\<lambda>(b, r2). Option.bind (expect '' INCLUDING PROPERTIES) WITH (location = '' r2) (\<lambda>r3.
     Option.bind (read_quoted quote1 r3) (\<lambda>(location, r4).
     if r4 = '')'' then Some (CreateTableLike a b location) else None)))))"

definition read_drop :: "string \<Rightarrow> sql_write option" where
  "read_drop s = Option.bind (read_ref s) (\<lambda>(a, r). if r = [] then Some (DropTable a) else None)"

text \<open>The number of rows of a \<^verbatim>\<open>VALUES\<close> list, from the length of one row of placeholders.\<close>

definition placeholders :: "nat \<Rightarrow> string" where
  "placeholders width = ''('' @ join '', '' (replicate width ''?'') @ '')''"

definition read_insert :: "string \<Rightarrow> sql_write option" where
  "read_insert s = Option.bind (read_ref s) (\<lambda>(a, r). Option.bind (expect '' ('' r) (\<lambda>r1.
     Option.bind (read_names r1) (\<lambda>(columns, r2). (case expect '') VALUES '' r2 of
         Some r3 \<Rightarrow> (let width = length columns; n = (length r3 + 2) div (length (placeholders width) + 2) in
           if r3 = join '', '' (replicate n (placeholders width)) then Some (InsertValues a columns n) else None)
       | None \<Rightarrow> Option.bind (expect '') SELECT '' r2) (\<lambda>r3. Option.bind (read_names r3) (\<lambda>(columns', r4).
           Option.bind (expect '' FROM '' r4) (\<lambda>r5. Option.bind (read_ref r5) (\<lambda>(b, r6).
           if r6 = [] \<and> columns' = columns then Some (InsertSelect a columns b) else None))))))))"

definition read_merge :: "string \<Rightarrow> sql_write option" where
  "read_merge s = Option.bind (read_ref s) (\<lambda>(a, r). Option.bind (expect '' AS t USING '' r) (\<lambda>r1.
     Option.bind (read_ref r1) (\<lambda>(b, r2). Option.bind (read_merge_tail r2) (\<lambda>(columns, keys).
     Some (MergeInto a b columns keys)))))"

definition read_statement :: "string \<Rightarrow> sql_write option" where
  "read_statement s =
     (case expect ''ALTER TABLE '' s of Some r \<Rightarrow> read_rename r
      | None \<Rightarrow> (case expect ''CREATE TABLE '' s of Some r \<Rightarrow> read_create r
      | None \<Rightarrow> (case expect ''DROP TABLE '' s of Some r \<Rightarrow> read_drop r
      | None \<Rightarrow> (case expect ''INSERT INTO '' s of Some r \<Rightarrow> read_insert r
      | None \<Rightarrow> Option.bind (expect ''MERGE INTO '' s) read_merge))))"

lemma expect_heads:
  "expect ''ALTER TABLE '' (''CREATE TABLE '' @ s) = None" "expect ''ALTER TABLE '' (''DROP TABLE '' @ s) = None"
  "expect ''ALTER TABLE '' (''INSERT INTO '' @ s) = None" "expect ''ALTER TABLE '' (''MERGE INTO '' @ s) = None"
  "expect ''CREATE TABLE '' (''DROP TABLE '' @ s) = None" "expect ''CREATE TABLE '' (''INSERT INTO '' @ s) = None"
  "expect ''CREATE TABLE '' (''MERGE INTO '' @ s) = None" "expect ''DROP TABLE '' (''INSERT INTO '' @ s) = None"
  "expect ''DROP TABLE '' (''MERGE INTO '' @ s) = None" "expect ''INSERT INTO '' (''MERGE INTO '' @ s) = None"
  by (simp_all add: expect_def starts_with_def)

lemmas read_steps = append_assoc expect_append expect_whole bind.bind_lunit prod.case option.case
  read_ref_name read_ref_whole plain_start_simps append_Cons append_Nil

lemma read_rename_text: "read_statement (rename_sql (ref_text c s a) (ref_text c' s' b)) = Some (RenameTable (c, s, a) (c', s', b))"
proof -
  have a: "read_ref (ref_text c s a @ '' RENAME TO '' @ ref_text c' s' b) = Some ((c, s, a), '' RENAME TO '' @ ref_text c' s' b)"
    by (rule read_ref_name) simp
  show ?thesis
    unfolding read_statement_def rename_sql_def expect_append option.case read_rename_def a bind.bind_lunit prod.case
      read_ref_whole by simp
qed

lemma read_drop_text: "read_statement (drop_sql (ref_text c s a)) = Some (DropTable (c, s, a))"
  unfolding read_statement_def drop_sql_def expect_append expect_heads option.case read_drop_def read_ref_whole
    bind.bind_lunit prod.case by simp

lemma read_create_text:
  "read_statement (create_like_sql (ref_text c s a) (ref_text c' s' b) location)
     = Some (CreateTableLike (c, s, a) (c', s', b) location)"
proof -
  have a: "read_ref (ref_text c s a @ '' (LIKE '' @ x) = Some ((c, s, a), '' (LIKE '' @ x)" for x
    by (rule read_ref_name) simp
  have b: "read_ref (ref_text c' s' b @ '' INCLUDING PROPERTIES) WITH (location = '' @ x)
      = Some ((c', s', b), '' INCLUDING PROPERTIES) WITH (location = '' @ x)" for x
    by (rule read_ref_name) simp
  have l: "read_quoted quote1 (quoted quote1 location @ '')'') = Some (location, '')'')"
    by (rule read_quoted) simp
  show ?thesis
    unfolding read_statement_def create_like_sql_def expect_append expect_heads option.case read_create_def a b
      bind.bind_lunit prod.case sql_string_def l by simp
qed

lemma length_join_replicate:
  "length (join '', '' (replicate n x)) + 2 = n * (length x + 2) + (if n = 0 then 2 else 0)"
proof (induction n)
  case (Suc n)
  then show ?case by (cases n) simp_all
qed simp

lemma read_insert_values_text:
  "read_statement (insert_values_sql (ref_text c s a) (column_list columns) (length columns) n)
     = Some (InsertValues (c, s, a) columns n)"
proof -
  have a: "read_ref (ref_text c s a @ '' ('' @ x) = Some ((c, s, a), '' ('' @ x)" for x
    by (rule read_ref_name) simp
  have names: "read_names (column_list columns @ '') VALUES '' @ x) = Some (columns, '') VALUES '' @ x)" for x
    unfolding column_list_def by (rule read_names_join) (simp_all add: expect_def starts_with_def)
  have len: "(length (join '', '' (replicate n (placeholders (length columns)))) + 2) div (length (placeholders (length columns)) + 2) = n"
  proof (cases "n = 0")
    case True
    then show ?thesis by (simp add: placeholders_def)
  next
    case False
    then have "length (join '', '' (replicate n (placeholders (length columns)))) + 2 = n * (length (placeholders (length columns)) + 2)"
      using length_join_replicate [of n "placeholders (length columns)"] by simp
    then show ?thesis by (simp only: div_mult_self_is_m)
  qed
  show ?thesis
    unfolding read_statement_def insert_values_sql_def expect_append expect_heads option.case read_insert_def a
      bind.bind_lunit prod.case names Let_def placeholders_def [symmetric] len by simp
qed

lemma traverse_trino_quote: "traverse trino_quote cs = Inr ns \<Longrightarrow> ns = map (quoted quote2) cs"
  by (induction cs arbitrary: ns) (auto simp: res_simps trino_quote_def split: if_splits)

lemma append_statement_Inr:
  "append_statement t g columns = Inr sql \<Longrightarrow>
     sql = ''INSERT INTO '' @ t @ '' ('' @ column_list columns @ '') SELECT '' @ column_list columns @ '' FROM '' @ g"
  by (auto simp: append_statement_def column_list_def res_simps Let_def dest!: traverse_trino_quote)

lemma read_append_text:
  assumes "append_statement (ref_text c s a) (ref_text c' s' b) columns = Inr sql"
  shows "read_statement sql = Some (InsertSelect (c, s, a) columns (c', s', b))"
proof -
  have a: "read_ref (ref_text c s a @ '' ('' @ x) = Some ((c, s, a), '' ('' @ x)" for x
    by (rule read_ref_name) simp
  have n1: "read_names (column_list columns @ '') SELECT '' @ x) = Some (columns, '') SELECT '' @ x)" for x
    unfolding column_list_def by (rule read_names_join) (simp_all add: expect_def starts_with_def)
  have n2: "read_names (column_list columns @ '' FROM '' @ x) = Some (columns, '' FROM '' @ x)" for x
    unfolding column_list_def by (rule read_names_join) (simp_all add: expect_def starts_with_def)
  have other: "expect '') VALUES '' ('') SELECT '' @ x) = None" for x by (simp add: expect_def starts_with_def)
  show ?thesis
    unfolding append_statement_Inr [OF assms] read_statement_def expect_append expect_heads option.case read_insert_def a
      bind.bind_lunit prod.case n1 n2 other read_ref_whole by simp
qed

lemma merge_statement_Inr:
  assumes "merge_statement t g columns key = Inr sql"
  shows "sql = ''MERGE INTO '' @ t @ '' AS t USING '' @ g @ merge_tail columns key"
  using assms by (auto simp: merge_statement_def merge_tail_def column_list_def res_simps comp_def dest!: traverse_trino_quote)

lemma read_merge_text:
  assumes "merge_statement (ref_text c s a) (ref_text c' s' b) columns key = Inr sql"
  shows "read_statement sql = Some (MergeInto (c, s, a) (c', s', b) columns key)"
proof -
  have a: "read_ref (ref_text c s a @ '' AS t USING '' @ x) = Some ((c, s, a), '' AS t USING '' @ x)" for x
    by (rule read_ref_name) simp
  have b: "read_ref (ref_text c' s' b @ merge_tail columns key) = Some ((c', s', b), merge_tail columns key)"
    by (rule read_ref_name) (simp add: merge_tail_def)
  show ?thesis
    unfolding merge_statement_Inr [OF assms] append_assoc read_statement_def expect_append expect_heads option.case bind.bind_lunit
      read_merge_def a b prod.case read_merge_tail_text by simp
qed

text \<open>Only an empty name is refused.\<close>

lemma traverse_trino_quote_Inl: "traverse trino_quote ns = Inl e \<Longrightarrow> [] \<in> set ns"
  by (induction ns) (auto simp: res_simps trino_quote_def split: if_splits)

lemma append_statement_Inl: "append_statement t g columns = Inl e \<Longrightarrow> [] \<in> set columns"
  by (auto simp: append_statement_def res_simps Let_def dest: traverse_trino_quote_Inl)

lemma merge_statement_Inl: "merge_statement t g columns key = Inl e \<Longrightarrow> [] \<in> set columns \<union> set key"
  by (auto simp: merge_statement_def res_simps dest!: traverse_trino_quote_Inl)

end
