(* ===== verification/SampleTrino.thy ===== *)
theory SampleTrino
  imports TrinoSql Sample
begin

text \<open>
  A concrete coordinator for the witnesses. It scans every statement with the reference reader and acts
  on a store of tables; an insert refuses a null, as a table of non-null columns does, and a merge
  matches rows on the key columns.
\<close>

definition merge_key :: "string list \<Rightarrow> string list \<Rightarrow> pyval list \<Rightarrow> pyval option list" where
  "merge_key columns key row = map (map_of (zip columns row)) key"

definition merge_rows :: "string list \<Rightarrow> string list \<Rightarrow> pyval list list \<Rightarrow> pyval list list \<Rightarrow> pyval list list" where
  "merge_rows columns key staged old =
     map (\<lambda>r. case find (\<lambda>x. merge_key columns key x = merge_key columns key r) staged of Some x \<Rightarrow> x | None \<Rightarrow> r) old
     @ filter (\<lambda>x. \<not> list_ex (\<lambda>r. merge_key columns key r = merge_key columns key x) old) staged"

definition rows_of_params :: "nat \<Rightarrow> nat \<Rightarrow> 'a list \<Rightarrow> 'a list list" where
  "rows_of_params width n params = map (\<lambda>i. take width (drop (i * width) params)) [0..<n]"

fun key_of :: "sql_name \<Rightarrow> table_key" where
  "key_of (catalog, schema, tbl) = table_key schema tbl"

fun sample_write :: "sql_write \<Rightarrow> pyval list \<Rightarrow> table_store \<Rightarrow> table_store option" where
  "sample_write (RenameTable a b) ps T = (case T (key_of a) of
     Some rows \<Rightarrow> if T (key_of b) = None then Some (T(key_of a := None, key_of b \<mapsto> rows)) else None
   | None \<Rightarrow> None)"
| "sample_write (CreateTableLike g t location) ps T =
     (if T (key_of g) = None \<and> T (key_of t) \<noteq> None then Some (T(key_of g \<mapsto> [])) else None)"
| "sample_write (DropTable a) ps T = Some (T(key_of a := None))"
| "sample_write (InsertValues a columns n) ps T = (case T (key_of a) of
     Some rows \<Rightarrow> if PNone \<in> set ps then None else Some (T(key_of a \<mapsto> rows @ rows_of_params (length columns) n ps))
   | None \<Rightarrow> None)"
| "sample_write (InsertSelect t columns g) ps T = (case (T (key_of t), T (key_of g)) of
     (Some old, Some staged) \<Rightarrow> Some (T(key_of t \<mapsto> old @ staged)) | _ \<Rightarrow> None)"
| "sample_write (MergeInto t g columns key) ps T = (case (T (key_of t), T (key_of g)) of
     (Some old, Some staged) \<Rightarrow> Some (T(key_of t \<mapsto> merge_rows columns key staged old)) | _ \<Rightarrow> None)"

definition sample_trino_exec :: "string \<Rightarrow> pyval list option \<Rightarrow> (table_store, string list option \<times> pyval list list) op" where
  "sample_trino_exec sql params T = (case read_statement sql of
     Some st \<Rightarrow> (case sample_write st (case params of Some ps \<Rightarrow> ps | None \<Rightarrow> []) T of
         Some T' \<Rightarrow> (Inr (None, []), T')
       | None \<Rightarrow> (Inl (Exn (OtherError ''TrinoUserError'') ''refused''), T))
   | None \<Rightarrow> (Inr (Some [''value''], [[PStr ''s3://lake/wh/t'']]), T))"

definition sample_trino :: "table_store trino_driver" where
  "sample_trino = \<lparr>tr_catalog = ''lake'', tr_exec = sample_trino_exec, tr_token = op_return ''0f'', tr_close = op_return (),
     tr_query_error = \<lambda>e. True, tr_array = \<lambda>vs. Inr (if list_ex is_str vs then Utf8 else Int64, vs), tr_parse = sample_parser\<rparr>"

lemma rows_of_params_concat: "list_all (\<lambda>r. length r = w) batch \<Longrightarrow> rows_of_params w (length batch) (concat batch) = batch"
proof (induction batch)
  case (Cons r batch)
  have "[0..<Suc (length batch)] = 0 # map Suc [0..<length batch]" by (simp add: upt_conv_Cons map_Suc_upt del: upt_Suc)
  with Cons show ?case by (simp add: rows_of_params_def comp_def del: upt_Suc)
qed (simp add: rows_of_params_def)

text \<open>A statement that the reader reads acts as the store update it stands for.\<close>

lemma sample_statement:
  assumes "read_statement sql = Some st"
    and "\<And>T'. sample_write st (case params of Some ps \<Rightarrow> ps | None \<Rightarrow> []) T = Some T' \<Longrightarrow> Q (None, []) T'" and "E T"
  shows "wp (tr_exec sample_trino sql params) Q (\<lambda>_. E) T"
  using assms by (auto simp: wp_def sample_trino_def sample_trino_exec_def split: option.splits)

lemma location_query_reads_nothing: "read_statement (location_query ref) = None"
  by (simp add: read_statement_def location_query_def expect_def starts_with_def)

lemma sample_catalog [simp]: "tr_catalog sample_trino = ''lake''"
  by (simp add: sample_trino_def)

interpretation sample_trino: trino_server sample_trino "\<lambda>T. T" merge_rows
proof
  show "wp (tr_token sample_trino) (\<lambda>_ u. u = w) (\<lambda>_ u. u = w) w" for w
    by (simp add: sample_trino_def wp_return)
  show "wp (tr_exec sample_trino (location_query ref) None) (\<lambda>_ u. u = w) (\<lambda>_ u. u = w) w" for ref w
    by (simp add: wp_def sample_trino_def sample_trino_exec_def location_query_reads_nothing)
  show "wp (tr_exec sample_trino (create_like_sql (ref_text (tr_catalog sample_trino) s g) (ref_text (tr_catalog sample_trino) s t) loc) None)
      (\<lambda>_ u. w (table_key s g) = None \<and> w (table_key s t) \<noteq> None \<and> u = w(table_key s g \<mapsto> [])) (\<lambda>_ u. u = w) w" for s g t loc w
    by (rule sample_statement [OF read_create_text]) (auto split: if_splits)
  show "wp (tr_exec sample_trino (insert_values_sql (ref_text (tr_catalog sample_trino) s g) (column_list columns) (length columns) (length batch))
         (Some (concat batch)))
      (\<lambda>_ u. \<exists>rows. w (table_key s g) = Some rows \<and> u = w(table_key s g \<mapsto> rows @ batch)) (\<lambda>_ u. u = w) w"
    if "list_all (\<lambda>r. length r = length columns) batch" for columns batch s g w
    by (rule sample_statement [OF read_insert_values_text])
      (auto simp: rows_of_params_concat [OF that] split: option.splits if_splits)
  show "wp (tr_exec sample_trino (rename_sql (ref_text (tr_catalog sample_trino) s a) (ref_text (tr_catalog sample_trino) s b)) None)
      (\<lambda>_ u. \<exists>rows. w (table_key s a) = Some rows \<and> w (table_key s b) = None \<and> u = w(table_key s a := None, table_key s b \<mapsto> rows))
      (\<lambda>_ u. u = w) w" for s a b w
    by (rule sample_statement [OF read_rename_text]) (auto split: option.splits if_splits)
  show "wp (tr_exec sample_trino (drop_sql (ref_text (tr_catalog sample_trino) s a)) None)
      (\<lambda>_ u. u = w(table_key s a := None)) (\<lambda>_ u. u = w) w" for s a w
    by (rule sample_statement [OF read_drop_text]) auto
  show "wp (tr_exec sample_trino sql None)
      (\<lambda>_ u. \<exists>old staged. w (table_key s t) = Some old \<and> w (table_key s g) = Some staged \<and> u = w(table_key s t \<mapsto> old @ staged))
      (\<lambda>_ u. u = w) w"
    if "append_statement (ref_text (tr_catalog sample_trino) s t) (ref_text (tr_catalog sample_trino) s g) columns = Inr sql" for s t g columns sql w
    by (rule sample_statement [OF read_append_text [OF that]]) (auto split: option.splits)
  show "wp (tr_exec sample_trino sql None)
      (\<lambda>_ u. \<exists>old staged. w (table_key s t) = Some old \<and> w (table_key s g) = Some staged
         \<and> u = w(table_key s t \<mapsto> merge_rows columns key staged old)) (\<lambda>_ u. u = w) w"
    if "merge_statement (ref_text (tr_catalog sample_trino) s t) (ref_text (tr_catalog sample_trino) s g) columns key = Inr sql" for s t g columns key sql w
    by (rule sample_statement [OF read_merge_text [OF that]]) (auto split: option.splits)
qed

definition sample_store :: table_store where
  "sample_store = [table_key ''s'' ''t'' \<mapsto> [[PInt 1, PStr ''a'']]]"

definition sample_rows_table :: arrow_table where
  "sample_rows_table = \<lparr>table_cols = [(''id'', Int64, [PInt 1, PInt 2]), (''v'', Utf8, [PStr ''b'', PStr ''c''])], num_rows = 2\<rparr>"

lemma sample_row_values: "row_values sample_rows_table = [[PInt 1, PStr ''b''], [PInt 2, PStr ''c'']]"
  by code_simp

lemma sample_row_count: "num_rows sample_rows_table = 2"
  by (simp add: sample_rows_table_def)

lemma sample_columns_of: "column_names sample_rows_table = [''id'', ''v'']"
  by code_simp

lemma sample_upsert:
  "fst (trino_upsert_rows sample_trino ''s'' ''t'' sample_rows_table [''id''] sample_store) = Inr ()"
  by code_simp

lemma sample_merged:
  "merge_rows [''id'', ''v''] [''id''] [[PInt 1, PStr ''b''], [PInt 2, PStr ''c'']] [[PInt 1, PStr ''a'']]
     = [[PInt 1, PStr ''b''], [PInt 2, PStr ''c'']]"
  by code_simp

end
