(* ===== verification/CsvLine.thy ===== *)
theory CsvLine
  imports PyValue
begin

text \<open>
  The first record of \<^verbatim>\<open>csv.reader([line])\<close> in the default dialect, for a line without line feeds: the
  states of the reader of the standard library, the comma, the doubled quote, the lenient character after a
  closing quote, and the refusal of a carriage return inside the line. A quoted field left open ends with the
  line.
\<close>

datatype csv_state = StartField | InField | InQuoted | QuoteInQuoted | AfterReturn

text \<open>\<open>csv_scan state field fields line\<close>: the field and the fields read so far, both reversed.\<close>

fun csv_scan :: "csv_state \<Rightarrow> string \<Rightarrow> string list \<Rightarrow> string \<Rightarrow> string list res" where
  "csv_scan AfterReturn field fields [] = Inr (rev fields)"
| "csv_scan st field fields [] = Inr (rev (rev field # fields))"
| "csv_scan AfterReturn field fields (c # cs) =
     (if c = CHR 0x0D then csv_scan AfterReturn field fields cs
      else Inl (Exn (OtherError ''Error'')
        (''new-line character seen in unquoted field - do you need to open the file with newline='' @ repr_str [] @ ''?'')))"
| "csv_scan InQuoted field fields (c # cs) =
     (if c = CHR 0x22 then csv_scan QuoteInQuoted field fields cs
      else csv_scan InQuoted (c # field) fields cs)"
| "csv_scan st field fields (c # cs) =
     (if c = CHR 0x0D then csv_scan AfterReturn [] (rev field # fields) cs
      else if c = CHR '','' then csv_scan StartField [] (rev field # fields) cs
      else if c = CHR 0x22 \<and> st = StartField then csv_scan InQuoted field fields cs
      else if c = CHR 0x22 \<and> st = QuoteInQuoted then csv_scan InQuoted (c # field) fields cs
      else csv_scan InField (c # field) fields cs)"

definition csv_record :: "string \<Rightarrow> string list res" where
  "csv_record line =
     (if line = [] then Inr []
      else if hd line = CHR 0x0D then csv_scan AfterReturn [] [] (tl line)
      else csv_scan StartField [] [] line)"

section \<open>Fields written by a quoting writer come back\<close>

definition quote_field :: "string \<Rightarrow> string" where
  "quote_field f = CHR 0x22 # concat (map (\<lambda>c. if c = CHR 0x22 then [c, c] else [c]) f) @ [CHR 0x22]"

lemma csv_scan_quoted:
  "csv_scan InQuoted acc fields (concat (map (\<lambda>c. if c = CHR 0x22 then [c, c] else [c]) f) @ CHR 0x22 # rest)
     = csv_scan QuoteInQuoted (rev f @ acc) fields rest"
  by (induction f arbitrary: acc) simp_all

lemma csv_scan_quote_field:
  "csv_scan StartField [] fields (quote_field f @ rest) = csv_scan QuoteInQuoted (rev f) fields rest"
  by (simp add: quote_field_def csv_scan_quoted)

lemma csv_scan_fields:
  "fs \<noteq> [] \<Longrightarrow> csv_scan StartField [] past (join '','' (map quote_field fs)) = Inr (rev past @ fs)"
proof (induction fs arbitrary: past rule: induct_list012)
  case (2 f)
  show ?case using csv_scan_quote_field [of past f "[]"] by simp
next
  case (3 f g fs)
  show ?case using 3 by (simp add: csv_scan_quote_field)
qed simp

lemma csv_record_fields: "fs \<noteq> [] \<Longrightarrow> csv_record (join '','' (map quote_field fs)) = Inr fs"
  using csv_scan_fields [of fs "[]"]
  by (cases fs rule: remdups_adj.cases) (auto simp: csv_record_def quote_field_def)

end
