(* ===== verification/CsvProbe.thy ===== *)
theory CsvProbe
  imports CsvSource
begin

text \<open>
  Reading the header line of a csv source without downloading it
  (\<^verbatim>\<open>continuo_python_runtime/csv_readers\<close>, \<^verbatim>\<open>csv_source.py\<close>): the ranged probe of
  S3 and of HTTPS, and the bounded read of a server that ignores ranges. The object store and the web
  server are parameters: what a ranged request returns. Decoding bytes (\<^verbatim>\<open>utf-8-sig\<close>) is a
  parameter too. The reference is \<open>header_spec\<close>, the first line of the whole object.
\<close>

definition header_probe_bytes :: nat where "header_probe_bytes = 65536"
definition max_header_bytes :: nat where "max_header_bytes = 1048576"

type_synonym decoder = "string \<Rightarrow> string res"

definition header_too_long :: "string \<Rightarrow> 'a res" where
  "header_too_long src = raise_value (''csv header line exceeds '' @ nat_str max_header_bytes @ '' bytes: '' @ src)"

definition extract_header_line :: "decoder \<Rightarrow> string \<Rightarrow> string \<Rightarrow> string res" where
  "extract_header_line decode data src =
     (let line = (if newline \<in> set data then before_char newline data else data) in
      if length line > max_header_bytes then header_too_long src
      else decode (rstrip_char carriage_return line))"

section \<open>S3\<close>

text \<open>
  \<open>get start stop\<close> is the body of the bytes from \<open>start\<close> to \<open>stop\<close>; \<open>invalid_range e\<close> says that \<open>e\<close>
  is the client error \<^verbatim>\<open>InvalidRange\<close>. The loop ends: a body shorter than the probe is the
  stop one, and otherwise the buffer grows past the limit.
\<close>

type_synonym ranged_get = "nat \<Rightarrow> nat \<Rightarrow> string res"

function s3_header_loop ::
  "ranged_get \<Rightarrow> (exn \<Rightarrow> bool) \<Rightarrow> decoder \<Rightarrow> string \<Rightarrow> nat \<Rightarrow> string \<Rightarrow> string res" where
  "s3_header_loop get invalid_range decode src start buf =
     (case get start (start + header_probe_bytes - 1) of
        Inl e \<Rightarrow> if start = 0 \<and> invalid_range e then Inr [] else Inl e
      | Inr body \<Rightarrow> let buf' = buf @ body in
          if newline \<in> set buf' then extract_header_line decode buf' src
          else if length body < header_probe_bytes then decode (rstrip_char carriage_return buf')
          else if length buf' > max_header_bytes then header_too_long src
          else s3_header_loop get invalid_range decode src (start + header_probe_bytes) buf')"
  by pat_completeness auto
termination
  by (relation "measure (\<lambda>(get, invalid_range, decode, src, start, buf). Suc max_header_bytes - length buf)")
    (auto simp: header_probe_bytes_def max_header_bytes_def)

declare s3_header_loop.simps [simp del]

definition s3_fetch_header_line :: "ranged_get \<Rightarrow> (exn \<Rightarrow> bool) \<Rightarrow> decoder \<Rightarrow> csv_uri \<Rightarrow> string res" where
  "s3_fetch_header_line get invalid_range decode uri = s3_header_loop get invalid_range decode (uri_raw uri) 0 []"

section \<open>HTTPS\<close>

text \<open>A redirect is followed only to an https target.\<close>

definition redirect_request :: "string \<Rightarrow> unit res" where
  "redirect_request newurl = require (starts_with ''https://'' (py_lower newurl))
     (Exn OSError (''refusing to follow redirect to non-https URL: '' @ newurl))"

definition read_chunk_bytes :: nat where "read_chunk_bytes = 65536"

text \<open>\<open>rest\<close> is what the response still holds; a read takes the next chunk of it.\<close>

function read_bounded :: "nat \<Rightarrow> string \<Rightarrow> string \<Rightarrow> string" where
  "read_bounded limit rest buf = (let chunk = take read_chunk_bytes rest in
     if chunk = [] then buf
     else let buf' = buf @ chunk in
       if newline \<in> set buf' \<or> length buf' > limit then buf'
       else read_bounded limit (drop read_chunk_bytes rest) buf')"
  by pat_completeness auto
termination
  by (relation "measure (\<lambda>(limit, rest, buf). length rest)") (auto simp: read_chunk_bytes_def)

declare read_bounded.simps [simp del]

text \<open>A response: whether the range was honoured (status 206), and the body it holds.\<close>

type_synonym web_get = "nat \<Rightarrow> nat \<Rightarrow> (bool \<times> string) res"

function https_header_loop :: "web_get \<Rightarrow> decoder \<Rightarrow> string \<Rightarrow> nat \<Rightarrow> string \<Rightarrow> string res" where
  "https_header_loop get decode src start buf =
     (case get start (start + header_probe_bytes - 1) of
        Inl e \<Rightarrow> Inl e
      | Inr (range_honoured, content) \<Rightarrow>
          if \<not> range_honoured then extract_header_line decode (read_bounded max_header_bytes content []) src
          else let body = content; buf' = buf @ body in
            if newline \<in> set buf' then extract_header_line decode buf' src
            else if length body < header_probe_bytes then decode (rstrip_char carriage_return buf')
            else if length buf' > max_header_bytes then header_too_long src
            else https_header_loop get decode src (start + header_probe_bytes) buf')"
  by pat_completeness auto
termination
  by (relation "measure (\<lambda>(get, decode, src, start, buf). Suc max_header_bytes - length buf)")
    (auto simp: header_probe_bytes_def max_header_bytes_def)

declare https_header_loop.simps [simp del]

definition https_fetch_header_line :: "web_get \<Rightarrow> decoder \<Rightarrow> csv_uri \<Rightarrow> string res" where
  "https_fetch_header_line get decode uri = https_header_loop get decode (uri_raw uri) 0 []"

text \<open>The dispatch on the scheme; a reader is its header function.\<close>

definition reader_for :: "(csv_uri \<Rightarrow> string res) \<Rightarrow> (csv_uri \<Rightarrow> string res) \<Rightarrow> csv_uri \<Rightarrow> (csv_uri \<Rightarrow> string res) res" where
  "reader_for s3_reader https_reader uri =
     (if uri_scheme uri = ''s3'' then Inr s3_reader
      else if uri_scheme uri = ''https'' then Inr https_reader
      else raise_value (''unsupported csv scheme: '' @ repr_str (uri_scheme uri)))"

section \<open>The reference\<close>

definition header_spec :: "decoder \<Rightarrow> string \<Rightarrow> string \<Rightarrow> string res" where
  "header_spec decode src object = extract_header_line decode object src"

text \<open>
  What a store does with a range of an object: the bytes it holds of it, or an error when the range
  starts past its end.
\<close>

definition serves_ranges :: "ranged_get \<Rightarrow> string \<Rightarrow> bool" where
  "serves_ranges get object \<longleftrightarrow> (\<forall>start stop. start \<le> stop \<longrightarrow>
     (if start < length object then get start stop = Inr (take (Suc stop - start) (drop start object))
      else (\<exists>e. get start stop = Inl e)))"

text \<open>
  The objects the probe reads as the reference does: those with a line feed, and those without one
  that are within the limit and whose length is not a multiple of the probe.
\<close>

definition probe_ok :: "string \<Rightarrow> bool" where
  "probe_ok object \<longleftrightarrow> newline \<in> set object
     \<or> (length object \<le> max_header_bytes \<and> \<not> header_probe_bytes dvd length object)"

lemma before_char_prefix: "c \<in> set p \<Longrightarrow> before_char c (p @ r) = before_char c p"
  by (simp add: before_char_def)

lemma extract_prefix:
  assumes "newline \<in> set p"
  shows "extract_header_line decode (p @ r) src = extract_header_line decode p src"
  using assms by (simp add: extract_header_line_def before_char_prefix)

lemma extract_long:
  assumes "newline \<notin> set p" and "length p > max_header_bytes"
  shows "extract_header_line decode (p @ r) src = header_too_long src"
proof -
  have "length (if newline \<in> set (p @ r) then before_char newline (p @ r) else p @ r) > max_header_bytes"
    using assms by (auto simp: before_char_def takeWhile_append)
  then show ?thesis by (simp add: extract_header_line_def Let_def)
qed

lemma probe_step:
  assumes "serves_ranges get object" and "k * header_probe_bytes < length object"
  shows "get (k * header_probe_bytes) (k * header_probe_bytes + header_probe_bytes - 1)
    = Inr (take header_probe_bytes (drop (k * header_probe_bytes) object))"
proof -
  have "Suc (k * header_probe_bytes + header_probe_bytes - 1) - k * header_probe_bytes = header_probe_bytes"
    by (simp add: header_probe_bytes_def)
  moreover have "k * header_probe_bytes \<le> k * header_probe_bytes + header_probe_bytes - 1"
    by (simp add: header_probe_bytes_def)
  ultimately show ?thesis using assms by (auto simp: serves_ranges_def)
qed

lemma s3_step:
  assumes "serves_ranges get object" and "k * header_probe_bytes < length object"
    and "buf = take (k * header_probe_bytes) object"
  shows "s3_header_loop get invalid_range decode src (k * header_probe_bytes) buf =
    (let buf' = take (Suc k * header_probe_bytes) object in
     if newline \<in> set buf' then extract_header_line decode buf' src
     else if length (take header_probe_bytes (drop (k * header_probe_bytes) object)) < header_probe_bytes
       then decode (rstrip_char carriage_return buf')
     else if length buf' > max_header_bytes then header_too_long src
     else s3_header_loop get invalid_range decode src (Suc k * header_probe_bytes) buf')"
proof -
  have "buf @ take header_probe_bytes (drop (k * header_probe_bytes) object) = take (Suc k * header_probe_bytes) object"
    by (simp only: assms(3) mult_Suc add.commute [of header_probe_bytes] take_add)
  then show ?thesis
    by (subst s3_header_loop.simps)
      (simp only: probe_step [OF assms(1,2)] sum.case Let_def mult_Suc add.commute [of header_probe_bytes])
qed

text \<open>The loop from its \<open>k\<close>-th request on, with the bytes before it in the buffer.\<close>

lemma s3_loop_spec:
  assumes "serves_ranges get object" and "probe_ok object"
    and "k * header_probe_bytes < length object" and "buf = take (k * header_probe_bytes) object"
    and "newline \<notin> set buf" and "length buf \<le> max_header_bytes"
  shows "s3_header_loop get invalid_range decode src (k * header_probe_bytes) buf = header_spec decode src object"
  using assms(3-6)
proof (induction "Suc max_header_bytes - length buf" arbitrary: k buf rule: less_induct)
  case less
  let ?p = header_probe_bytes
  let ?body = "take ?p (drop (k * ?p) object)"
  let ?buf = "take (Suc k * ?p) object"
  have p0: "?p > 0" by (simp add: header_probe_bytes_def)
  have obj: "object = ?buf @ drop (Suc k * ?p) object" by simp
  have short: "?buf = object \<and> \<not> length object > max_header_bytes"
    if "newline \<notin> set ?buf" "length ?body < ?p"
  proof -
    have "length object < Suc k * ?p" using that(2) by (simp add: min_def split: if_splits)
    then have "?buf = object" by simp
    moreover have "newline \<notin> set object" using that(1) calculation by simp
    ultimately show ?thesis using assms(2) by (simp add: probe_ok_def)
  qed
  show ?case
  proof (cases "newline \<in> set ?buf")
    case True
    then have "extract_header_line decode ?buf src = header_spec decode src object"
      unfolding header_spec_def by (metis extract_prefix obj)
    then show ?thesis
       using True by (simp only: s3_step [OF assms(1) less.prems(1,2)] Let_def if_True if_False simp_thms)
  next
    case nl: False
    show ?thesis
    proof (cases "length ?body < ?p")
      case True
      from short [OF nl True] have whole: "?buf = object" "length object \<le> max_header_bytes" by auto
      have "decode (rstrip_char carriage_return object) = header_spec decode src object"
        using nl whole by (simp add: header_spec_def extract_header_line_def Let_def del: mult_Suc)
      then show ?thesis
        using nl True whole
          by (simp only: s3_step [OF assms(1) less.prems(1,2)] Let_def if_True if_False simp_thms)
    next
      case full: False
      show ?thesis
      proof (cases "length ?buf > max_header_bytes")
        case True
        then have "header_spec decode src object = header_too_long src"
          unfolding header_spec_def by (metis extract_long nl obj)
        then show ?thesis
          using nl full True
          by (simp only: s3_step [OF assms(1) less.prems(1,2)] Let_def if_True if_False simp_thms)
      next
        case fits: False
        have len: "length object \<ge> Suc k * ?p" using full less.prems(1) by (simp add: min_def split: if_splits)
        have more: "Suc k * ?p < length object"
        proof (rule ccontr)
          assume "\<not> Suc k * ?p < length object"
          with len have eq: "length object = Suc k * ?p" by simp
          then have "?buf = object" by simp
          then show False using assms(2) nl fits eq by (auto simp: probe_ok_def)
        qed
        have "Suc max_header_bytes - length ?buf < Suc max_header_bytes - length buf"
        proof (rule diff_less_mono2)
          show "length buf < length ?buf" using len less.prems(1,2) p0 by simp
          then show "length buf < Suc max_header_bytes" using fits by linarith
        qed
        moreover have "length ?buf \<le> max_header_bytes" using fits by linarith
        ultimately have "s3_header_loop get invalid_range decode src (Suc k * ?p) ?buf = header_spec decode src object"
          using less.hyps [OF _ more refl nl] by blast
        then show ?thesis
          using nl full fits
          by (simp only: s3_step [OF assms(1) less.prems(1,2)] Let_def if_True if_False simp_thms)
      qed
    qed
  qed
qed

lemma header_spec_empty: "header_spec decode src [] = decode []"
  by (simp add: header_spec_def extract_header_line_def rstrip_char_def)

lemma s3_header_exact:
  assumes "serves_ranges get object" and "probe_ok object" and "object \<noteq> []"
  shows "s3_fetch_header_line get invalid_range decode uri = header_spec decode (uri_raw uri) object"
  using s3_loop_spec [OF assms(1,2), of 0 "[]" invalid_range decode "uri_raw uri"] assms(3)
  by (simp add: s3_fetch_header_line_def)

text \<open>Where ranges are honoured, the HTTPS loop is the S3 loop without the empty-object clause.\<close>

lemma https_loop_ranges:
  assumes "\<And>a b. web a b = map_sum id (Pair True) (get a b)"
  shows "https_header_loop web decode src start buf = s3_header_loop get (\<lambda>e. False) decode src start buf"
proof (induction "Suc max_header_bytes - length buf" arbitrary: start buf rule: less_induct)
  case less
  have "https_header_loop web decode src (start + header_probe_bytes) (buf @ body)
      = s3_header_loop get (\<lambda>e. False) decode src (start + header_probe_bytes) (buf @ body)"
    if "\<not> length body < header_probe_bytes" "\<not> length (buf @ body) > max_header_bytes" for body
    by (rule less) (use that in \<open>simp add: header_probe_bytes_def\<close>)
  then show ?case
    by (subst https_header_loop.simps, subst s3_header_loop.simps)
      (auto simp: assms Let_def split: sum.splits)
qed

lemma https_header_exact:
  assumes "serves_ranges get object" and "probe_ok object" and "object \<noteq> []"
    and "\<And>a b. web a b = map_sum id (Pair True) (get a b)"
  shows "https_fetch_header_line web decode uri = header_spec decode (uri_raw uri) object"
proof -
  have "https_fetch_header_line web decode uri = s3_fetch_header_line get (\<lambda>e. False) decode uri"
    unfolding https_fetch_header_line_def s3_fetch_header_line_def by (rule https_loop_ranges) (rule assms(4))
  then show ?thesis using s3_header_exact [OF assms(1-3)] by simp
qed

text \<open>The bounded read gives the reference's line, whatever the object.\<close>

lemma read_bounded_spec:
  assumes "newline \<notin> set buf" and "length buf \<le> limit" and "limit = max_header_bytes"
  shows "extract_header_line decode (read_bounded limit rest buf) src = extract_header_line decode (buf @ rest) src"
  using assms(1,2)
proof (induction rest arbitrary: buf rule: length_induct)
  case (1 rest)
  let ?chunk = "take read_chunk_bytes rest"
  have split: "buf @ rest = (buf @ ?chunk) @ drop read_chunk_bytes rest" by simp
  show ?case
  proof (cases "?chunk = []")
    case True
    then have "rest = []" by (simp add: read_chunk_bytes_def)
    then show ?thesis by (subst read_bounded.simps) simp
  next
    case chunk: False
    show ?thesis
    proof (cases "newline \<in> set (buf @ ?chunk)")
      case True
      then show ?thesis using chunk
        by (subst read_bounded.simps) (simp only: Let_def split if_False if_True extract_prefix simp_thms)
    next
      case nl: False
      show ?thesis
      proof (cases "length (buf @ ?chunk) > limit")
        case True
        have "extract_header_line decode (buf @ ?chunk) src = header_too_long src"
          using extract_long [OF nl, of decode "[]" src] True assms(3) by simp
        moreover have "extract_header_line decode ((buf @ ?chunk) @ drop read_chunk_bytes rest) src = header_too_long src"
          using extract_long [OF nl] True assms(3) by blast
        ultimately show ?thesis using chunk nl True
          by (subst read_bounded.simps) (simp only: Let_def split if_False if_True simp_thms)
      next
        case False
        have "length (drop read_chunk_bytes rest) < length rest"
          using chunk by (cases rest) (simp_all add: read_chunk_bytes_def)
        with 1 nl False have "extract_header_line decode (read_bounded limit (drop read_chunk_bytes rest) (buf @ ?chunk)) src
            = extract_header_line decode ((buf @ ?chunk) @ drop read_chunk_bytes rest) src"
          by (metis leI)
        then show ?thesis using chunk nl False
          by (subst read_bounded.simps) (simp only: Let_def split if_False if_True simp_thms)
      qed
    qed
  qed
qed

lemma https_header_unranged:
  assumes "\<And>a b. web a b = Inr (False, object)"
  shows "https_fetch_header_line web decode uri = header_spec decode (uri_raw uri) object"
  using read_bounded_spec [of "[]" max_header_bytes decode object "uri_raw uri"]
  by (subst https_fetch_header_line_def, subst https_header_loop.simps) (simp add: assms header_spec_def)

section \<open>The port\<close>

text \<open>
  The header check of the validation runner over any reader; \<open>parse_line\<close> is what the csv module makes of
  one line.
\<close>

definition csv_header_check ::
  "(csv_uri \<Rightarrow> string res) \<Rightarrow> (string \<Rightarrow> string list) \<Rightarrow> csv_uri \<Rightarrow> string list \<Rightarrow> string set res" where
  "csv_header_check fetch_header parse_line uri declared =
     bind_res (fetch_header uri) (\<lambda>header_line.
     if header_line = [] then
       raise_value (''csv source has no header line (empty or unreadable): '' @ uri_raw uri)
     else check_header (parse_line header_line) declared)"

locale csv_source_reader =
  fixes fetch_header :: "csv_uri \<Rightarrow> string res" and readable :: "string \<Rightarrow> bool" and object :: string
    and decode :: decoder
  assumes reads_header: "readable object \<Longrightarrow> fetch_header uri = header_spec decode (uri_raw uri) object"
begin

lemma header_check_sound:
  assumes "readable object" and "csv_header_check fetch_header parse_line uri declared = Inr extras"
  shows "\<exists>line. header_spec decode (uri_raw uri) object = Inr line \<and> line \<noteq> []
    \<and> set declared \<subseteq> set (parse_line line) \<and> extras = set (parse_line line) - set declared"
  using assms reads_header
  by (auto simp: csv_header_check_def res_simps check_header_eq_Inr split: if_splits)

lemma header_check_missing:
  assumes "readable object" and "header_spec decode (uri_raw uri) object = Inr line"
    and "c \<in> set declared" and "c \<notin> set (parse_line line)"
  shows "\<exists>m. csv_header_check fetch_header parse_line uri declared = raise_value m"
proof -
  have "filter (\<lambda>c. c \<notin> set (parse_line line)) declared \<noteq> []" using assms(3,4) by (auto simp: filter_empty_conv)
  then show ?thesis using assms(1,2) reads_header by (simp add: csv_header_check_def check_header_def Let_def)
qed

end

text \<open>
  Each reader of the source, over a store that holds \<open>object\<close>: S3, a web server that serves ranges,
  and one that ignores them.
\<close>

definition store_get :: "string \<Rightarrow> exn \<Rightarrow> ranged_get" where
  "store_get object e start stop =
     (if start < length object then Inr (take (Suc stop - start) (drop start object)) else Inl e)"

lemma store_serves: "serves_ranges (store_get object e) object"
  by (simp add: serves_ranges_def store_get_def)

interpretation s3_reader: csv_source_reader "s3_fetch_header_line (store_get object e) invalid_range decode"
    "\<lambda>ob. probe_ok ob \<and> ob \<noteq> []" object decode
  for object e invalid_range decode
  by unfold_locales (use s3_header_exact [OF store_serves] in blast)

interpretation https_reader: csv_source_reader
    "https_fetch_header_line (\<lambda>a b. map_sum id (Pair True) (store_get object e a b)) decode"
    "\<lambda>ob. probe_ok ob \<and> ob \<noteq> []" object decode
  for object e decode
  by unfold_locales (rule https_header_exact [OF store_serves], auto)

interpretation unranged_reader: csv_source_reader "https_fetch_header_line (\<lambda>a b. Inr (False, object)) decode"
    "\<lambda>ob. True" object decode
  for object decode
  by unfold_locales (rule https_header_unranged, rule refl)

section \<open>Where the probe departs from the reference\<close>

text \<open>
  An object without a line feed whose length is a multiple of the probe, within the limit, is asked for a
  range past its end: the store's error is raised, where the reference decodes the line.
\<close>

lemma s3_loop_past_end:
  assumes "newline \<notin> set object" and "length object = n * header_probe_bytes" and "length object \<le> max_header_bytes"
    and "k \<le> n" and "n > 0"
  shows "s3_header_loop (store_get object e) invalid_range decode src (k * header_probe_bytes) (take (k * header_probe_bytes) object)
    = (if k = 0 \<and> n = 0 \<and> invalid_range e then Inr [] else Inl e)"
  using assms(4)
proof (induction "n - k" arbitrary: k)
  case 0
  then have "k = n" by simp
  then show ?case using assms(2,5) by (subst s3_header_loop.simps) (simp add: store_get_def header_probe_bytes_def)
next
  case (Suc m)
  let ?p = header_probe_bytes
  have k: "k < n" using Suc.hyps(2) by simp
  have lt: "k * ?p < length object" using k assms(2) by (simp add: header_probe_bytes_def)
  have le: "Suc k * ?p \<le> length object" unfolding assms(2) by (rule mult_le_mono1) (use k in simp)
  let ?body = "take ?p (drop (k * ?p) object)"
  have nl: "newline \<notin> set (take (Suc k * ?p) object)" using assms(1) by (meson in_set_takeD)
  have "s3_header_loop (store_get object e) invalid_range decode src (Suc k * ?p) (take (Suc k * ?p) object) = Inl e"
    using Suc.hyps(1) [of "Suc k"] Suc.hyps(2) k by simp
  then show ?case
    using nl le assms(3,5) by (simp add: s3_step [OF store_serves lt refl] Let_def)
qed

text \<open>
  An object without a line feed that is longer than the limit by less than a probe is decoded whole: its
  last, short body ends the loop before the length is looked at, where the reference refuses it.
\<close>

lemma s3_loop_oversized:
  assumes "newline \<notin> set object" and "max_header_bytes < length object"
    and "length object < max_header_bytes + header_probe_bytes" and "k \<le> 16"
  shows "s3_header_loop (store_get object e) invalid_range decode src (k * header_probe_bytes) (take (k * header_probe_bytes) object)
    = decode (rstrip_char carriage_return object)"
  using assms(4)
proof (induction "16 - k" arbitrary: k)
  case 0
  then have k: "k = 16" by simp
  have "take (Suc k * header_probe_bytes) object = object" "k * header_probe_bytes < length object"
    "length object - k * header_probe_bytes < header_probe_bytes"
    using assms(2,3) by (simp_all add: k max_header_bytes_def header_probe_bytes_def)
  then show ?case using assms(1) by (simp add: s3_step [OF store_serves _ refl] Let_def del: mult_Suc)
next
  case (Suc m)
  then have k: "k < 16" by simp
  have lt: "Suc k * header_probe_bytes \<le> max_header_bytes" "k * header_probe_bytes < length object"
    "length (take header_probe_bytes (drop (k * header_probe_bytes) object)) = header_probe_bytes"
    using k assms(2) by (auto simp: max_header_bytes_def header_probe_bytes_def)
  have nl: "newline \<notin> set (take (Suc k * header_probe_bytes) object)" using assms(1) by (meson in_set_takeD)
  have "\<not> max_header_bytes < length (take (Suc k * header_probe_bytes) object)" using lt(1) by simp
  with Suc.hyps(1) [of "Suc k"] Suc.hyps(2) k nl lt show ?case
    by (simp only: s3_step [OF store_serves lt(2) refl] Let_def if_False if_True) simp
qed

end
