(* ===== verification/Runner.thy ===== *)
theory Runner
  imports CsvLine CsvProbe AdapterBase ResultBlock
begin

text \<open>
  The validation runner (\<^verbatim>\<open>continuo_python_runtime/validation/runner.py\<close>, with
  \<^verbatim>\<open>validation/s3.py\<close>): one operation on the candidate schema, from the environment to the
  exit code, over the validation half of the adapter port. The object store, the JSON
  parser and the adapters are parameters. The state holds the warehouse, the calls made to the adapter
  and the blocks printed.
\<close>

section \<open>The port\<close>

type_synonym env = "string \<Rightarrow> string option"

definition get_env :: "env \<Rightarrow> string \<Rightarrow> string" where
  "get_env env name = (case env name of Some v \<Rightarrow> v | None \<Rightarrow> [])"

record 'w validation_adapter =
  va_ensure_schema :: "string \<Rightarrow> ('w, unit) op"
  va_drop_schema :: "string \<Rightarrow> ('w, unit) op"
  va_build_from_sql :: "string \<Rightarrow> string \<Rightarrow> string \<Rightarrow> ('w, unit) op"
  va_clone_from_prod :: "string \<Rightarrow> string \<Rightarrow> string \<Rightarrow> ('w, unit) op"
  va_build_from_columns :: "string \<Rightarrow> string \<Rightarrow> pyval \<Rightarrow> pydict \<Rightarrow> ('w, unit) op"
  va_check_binds :: "pyval \<Rightarrow> ('w, unit) op"
  va_close :: "('w, unit) op"

datatype vcall =
    VConnect
  | VEnsureSchema string
  | VDropSchema string
  | VBuildFromSql string string string
  | VClone string string string
  | VCheckBinds pyval
  | VBuildFromColumns string string
  | VClose

record 'w vstate =
  vs_world :: 'w
  vs_calls :: "vcall list"
  vs_out :: "string list"

definition vcall :: "vcall \<Rightarrow> ('w, 'a) op \<Rightarrow> ('w vstate, 'a) op" where
  "vcall c m s = (case m (vs_world s) of (r, u) \<Rightarrow> (r, s\<lparr>vs_world := u, vs_calls := vs_calls s @ [c]\<rparr>))"

text \<open>What the runner calls beside the warehouse.\<close>

record 'w runner =
  rn_object :: "string \<Rightarrow> string \<Rightarrow> string res"
  rn_decode :: decoder
  rn_json :: "string \<Rightarrow> pyval res"
  rn_s3_header :: "csv_uri \<Rightarrow> string res"
  rn_https_header :: "csv_uri \<Rightarrow> string res"
  rn_entry_points :: "(string \<times> (string + (string list \<times> ('w, 'w validation_adapter) op) option)) list"

section \<open>Inputs\<close>

definition parse_s3_uri :: "string \<Rightarrow> (string \<times> string) res" where
  "parse_s3_uri uri =
     (if \<not> starts_with ''s3://'' uri then raise_value (''invalid S3 URI (must start with s3://): '' @ repr_str uri)
      else let rest = drop (length ''s3://'') uri;
               bucket = before_char (CHR ''/'') rest; key = after_char (CHR ''/'') rest in
        if bucket = [] \<or> key = [] then raise_value (''invalid S3 URI (missing bucket or key): '' @ repr_str uri)
        else Inr (bucket, key))"

definition fetch_text :: "'w runner \<Rightarrow> string \<Rightarrow> string res" where
  "fetch_text rn uri = bind_res (parse_s3_uri uri) (\<lambda>(bucket, key).
     bind_res (rn_object rn bucket key) (rn_decode rn))"

definition load_candidate_sql :: "'w runner \<Rightarrow> env \<Rightarrow> string res" where
  "load_candidate_sql rn env = (let uri = get_env env ''CANDIDATE_SQL_URI'' in
     if uri = [] then Inr [] else fetch_text rn uri)"

definition load_candidate_spec :: "'w runner \<Rightarrow> env \<Rightarrow> pydict res" where
  "load_candidate_spec rn env = (let uri = get_env env ''CANDIDATE_SPEC_URI'' in
     if uri = [] then raise_value ''CANDIDATE_SPEC_URI is unset or empty''
     else bind_res (fetch_text rn uri) (\<lambda>text. bind_res (rn_json rn text) (\<lambda>spec. case spec of
         PDict d \<Rightarrow> Inr d
       | v \<Rightarrow> raise_value (''candidate spec must be a JSON object, got '' @ type_name v))))"

text \<open>An early end: the exit code, the message and the id of the block.\<close>

type_synonym early_exit = "nat \<times> string \<times> string"

datatype vop =
    EnsureSchema
  | DropSchema
  | BuildFromSql string
  | CheckBinds string
  | BuildFromColumns pydict pydict string
  | CloneFromProd string

record vjob =
  vj_schema :: string
  vj_table :: string
  vj_unique_id :: string
  vj_op :: vop

definition node_id_of :: "env \<Rightarrow> string" where
  "node_id_of env = get_env env ''NODE_ID''"

definition require_var :: "env \<Rightarrow> string \<Rightarrow> early_exit + string" where
  "require_var env name = (let v = get_env env name in
     if v = [] then Inl (2, ''missing required env var '' @ name, node_id_of env) else Inr v)"

definition id_or :: "env \<Rightarrow> string \<Rightarrow> string" where
  "id_or env fallback = (if node_id_of env = [] then fallback else node_id_of env)"

definition gather_sql :: "'w runner \<Rightarrow> env \<Rightarrow> string \<Rightarrow> early_exit + string" where
  "gather_sql rn env unique_id = (case load_candidate_sql rn env of
     Inl e \<Rightarrow> Inl (1, exn_text e, unique_id)
   | Inr [] \<Rightarrow> Inl (2, ''CANDIDATE_SQL_URI is unset or empty'', unique_id)
   | Inr sql \<Rightarrow> Inr sql)"

definition spec_config :: "pydict \<Rightarrow> string \<Rightarrow> early_exit + pydict" where
  "spec_config spec unique_id = (case get_or_none spec ''config'' of
     PNone \<Rightarrow> Inr []
   | PDict d \<Rightarrow> Inr d
   | v \<Rightarrow> Inl (2, ''candidate spec 'config' must be a JSON object, got '' @ type_name v, unique_id))"

definition spec_csv_source :: "pydict \<Rightarrow> string \<Rightarrow> early_exit + string" where
  "spec_csv_source spec unique_id = (case get_default spec ''csv_source'' (PStr []) of
     PStr s \<Rightarrow> Inr s
   | v \<Rightarrow> Inl (2, ''candidate spec 'csv_source' must be a string, got '' @ type_name v, unique_id))"

definition gather_spec :: "'w runner \<Rightarrow> env \<Rightarrow> string \<Rightarrow> early_exit + vop" where
  "gather_spec rn env unique_id = (case load_candidate_spec rn env of
     Inl e \<Rightarrow> Inl (if is_value_error e then 2 else 1, exn_text e, unique_id)
   | Inr spec \<Rightarrow>
       if \<not> truthy (get_or_none spec ''output_columns'') then
         Inl (2, ''candidate spec has no output_columns'', unique_id)
       else bind_res (spec_config spec unique_id) (\<lambda>config.
         bind_res (spec_csv_source spec unique_id) (\<lambda>csv. Inr (BuildFromColumns spec config csv))))"

definition gather :: "'w runner \<Rightarrow> env \<Rightarrow> early_exit + vjob" where
  "gather rn env =
     bind_res (require_var env ''DBT_TARGET_SCHEMA'') (\<lambda>schema.
     let op = (case env ''VALIDATION_OP'' of Some v \<Rightarrow> v | None \<Rightarrow> ''build_from_sql'');
         schema_id = id_or env (''schema.'' @ schema) in
     if op \<in> {''build_from_sql'', ''clone_from_prod'', ''build_from_columns'', ''check_binds''} then
       bind_res (require_var env ''TABLE_NAME'') (\<lambda>tbl.
       let unique_id = id_or env (''model.'' @ tbl) in
       bind_res
         (if op = ''build_from_sql'' then bind_res (gather_sql rn env unique_id) (\<lambda>sql. Inr (BuildFromSql sql))
          else if op = ''check_binds'' then bind_res (gather_sql rn env unique_id) (\<lambda>sql. Inr (CheckBinds sql))
          else if op = ''build_from_columns'' then gather_spec rn env unique_id
          else bind_res (require_var env ''PROD_SCHEMA'') (\<lambda>prod_schema. Inr (CloneFromProd prod_schema))) (\<lambda>v.
       Inr \<lparr>vj_schema = schema, vj_table = tbl, vj_unique_id = unique_id, vj_op = v\<rparr>))
     else if op = ''ensure_schema'' then Inr \<lparr>vj_schema = schema, vj_table = [], vj_unique_id = schema_id, vj_op = EnsureSchema\<rparr>
     else if op = ''drop_schema'' then Inr \<lparr>vj_schema = schema, vj_table = [], vj_unique_id = schema_id, vj_op = DropSchema\<rparr>
     else Inl (2, ''unknown VALIDATION_OP '' @ repr_str op, schema_id))"

text \<open>The engine: the single installed adapter, with the variables it needs.\<close>

definition find_engine :: "'w runner \<Rightarrow> env \<Rightarrow> string \<Rightarrow> early_exit + ('w, 'w validation_adapter) op" where
  "find_engine rn env unique_id = (case discover_adapter (rn_entry_points rn) of
     Inl e \<Rightarrow> Inl (2, exn_text e, unique_id)
   | Inr (engine, required, from_env) \<Rightarrow>
       let missing = filter (\<lambda>v. get_env env v = []) required in
       if missing \<noteq> [] then Inl (2, ''missing required env for engine '' @ repr_str engine @ '': '' @ join '', '' missing, unique_id)
       else Inr from_env)"

section \<open>The operation\<close>

text \<open>\<^verbatim>\<open>for x in v\<close> over a value of the spec.\<close>

definition iterate :: "pyval \<Rightarrow> pyval list res" where
  "iterate v = (case v of
     PList xs \<Rightarrow> Inr xs
   | PDict d \<Rightarrow> Inr (dict_keys d)
   | PStr s \<Rightarrow> Inr (map (\<lambda>c. PStr [c]) s)
   | _ \<Rightarrow> Inl (Exn TypeError (repr_str (type_name v) @ '' object is not iterable'')))"

text \<open>\<^verbatim>\<open>c["name"]\<close>.\<close>

definition declared_name :: "pyval \<Rightarrow> pyval res" where
  "declared_name c = subscript c ''name''"

text \<open>
  \<^verbatim>\<open>check_header\<close> over declared names that need not be strings: a list or an object has no hash, any
  other value that is no string is missing from every header, and \<^verbatim>\<open>sorted\<close> of several missing names
  fails when they are not all strings. The texts of the two \<^verbatim>\<open>TypeError\<close>s are abbreviated.
\<close>

fun name_text :: "pyval \<Rightarrow> string" where
  "name_text (PStr s) = s"
| "name_text _ = []"

definition check_declared :: "string list \<Rightarrow> pyval list \<Rightarrow> unit res" where
  "check_declared header_cols names =
     (if list_all is_str names then bind_res (check_header header_cols (map name_text names)) (\<lambda>extras. Inr ())
      else if \<not> list_all hashable names then Inl (Exn TypeError ''unhashable type'')
      else (case filter (\<lambda>v. \<not> (is_str v \<and> name_text v \<in> set header_cols)) names of
          [x] \<Rightarrow> raise_value (''csv header missing declared column(s): '' @ repr (PList [x]))
        | _ \<Rightarrow> Inl (Exn TypeError ''names of several types have no order'')))"

definition check_csv_source :: "'w runner \<Rightarrow> pydict \<Rightarrow> string \<Rightarrow> unit res" where
  "check_csv_source rn spec csv =
     (if csv = [] then Inr ()
      else bind_res (parse_csv_uri (PStr csv)) (\<lambda>uri.
        bind_res (reader_for (rn_s3_header rn) (rn_https_header rn) uri) (\<lambda>fetch_header.
        bind_res (fetch_header uri) (\<lambda>header_line.
        if header_line = [] then raise_value (''csv source has no header line (empty or unreadable): '' @ csv)
        else bind_res (bind_res (iterate (get_or_none spec ''output_columns'')) (traverse declared_name)) (\<lambda>declared.
          bind_res (csv_record header_line) (\<lambda>header_cols. check_declared header_cols declared))))))"

definition build_from_columns ::
  "'w runner \<Rightarrow> 'w validation_adapter \<Rightarrow> string \<Rightarrow> string \<Rightarrow> pydict \<Rightarrow> pydict \<Rightarrow> string \<Rightarrow> ('w vstate, unit) op" where
  "build_from_columns rn ad schema tbl spec config csv =
     op_then (op_of_res (check_csv_source rn spec csv))
     (op_bind (op_of_res (iterate (get_default spec ''reads'' (PList [])))) (\<lambda>reads.
      op_then (op_each (\<lambda>read_sql. vcall (VCheckBinds read_sql) (va_check_binds ad read_sql)) reads)
      (vcall (VBuildFromColumns schema tbl)
        (va_build_from_columns ad schema tbl (get_or_none spec ''output_columns'') config))))"

definition run_op :: "'w runner \<Rightarrow> 'w validation_adapter \<Rightarrow> vjob \<Rightarrow> ('w vstate, unit) op" where
  "run_op rn ad j = (let schema = vj_schema j; tbl = vj_table j;
       ensure = vcall (VEnsureSchema schema) (va_ensure_schema ad schema) in
     case vj_op j of
       EnsureSchema \<Rightarrow> ensure
     | DropSchema \<Rightarrow> vcall (VDropSchema schema) (va_drop_schema ad schema)
     | BuildFromSql sql \<Rightarrow> op_then ensure (vcall (VBuildFromSql schema tbl sql) (va_build_from_sql ad schema tbl sql))
     | CheckBinds sql \<Rightarrow> op_then ensure (vcall (VCheckBinds (PStr sql)) (va_check_binds ad (PStr sql)))
     | BuildFromColumns spec config csv \<Rightarrow> op_then ensure (build_from_columns rn ad schema tbl spec config csv)
     | CloneFromProd prod_schema \<Rightarrow>
         op_then ensure (vcall (VClone schema prod_schema tbl) (va_clone_from_prod ad schema prod_schema tbl)))"

section \<open>The entrypoint\<close>

definition vprint :: "string \<Rightarrow> 'w vstate \<Rightarrow> 'w vstate" where
  "vprint b s = s\<lparr>vs_out := vs_out s @ [b]\<rparr>"

definition error_block :: "string \<Rightarrow> string \<Rightarrow> string" where
  "error_block message unique_id = result_block ''error'' message 0 unique_id"

definition success_block :: "string \<Rightarrow> string" where
  "success_block unique_id = result_block ''success'' [] 0 unique_id"

text \<open>\<^verbatim>\<open>finally\<close>: the adapter is closed; a failure of that is only logged.\<close>

definition close_adapter :: "'w validation_adapter \<Rightarrow> 'w vstate \<Rightarrow> 'w vstate" where
  "close_adapter ad s = snd (vcall VClose (va_close ad) s)"

definition runner_main :: "'w runner \<Rightarrow> env \<Rightarrow> 'w vstate \<Rightarrow> nat \<times> 'w vstate" where
  "runner_main rn env s =
     (case bind_res (gather rn env) (\<lambda>j. bind_res (find_engine rn env (vj_unique_id j)) (\<lambda>from_env. Inr (j, from_env))) of
        Inl (code, message, unique_id) \<Rightarrow> (code, vprint (error_block message unique_id) s)
      | Inr (j, from_env) \<Rightarrow> (case vcall VConnect from_env s of
            (Inl e, s1) \<Rightarrow> (1, vprint (error_block (exn_text e) (vj_unique_id j)) s1)
          | (Inr ad, s1) \<Rightarrow> (case run_op rn ad j s1 of
                (Inl e, s2) \<Rightarrow> (1, close_adapter ad (vprint (error_block (exn_text e) (vj_unique_id j)) s2))
              | (Inr _, s2) \<Rightarrow> (0, vprint (success_block (vj_unique_id j)) (close_adapter ad s2)))))"

section \<open>What a run does\<close>

text \<open>The declared reads, and the calls of a job in their order.\<close>

definition spec_reads :: "pydict \<Rightarrow> pyval list" where
  "spec_reads spec = (case iterate (get_default spec ''reads'' (PList [])) of Inl e \<Rightarrow> [] | Inr vs \<Rightarrow> vs)"

definition planned_calls :: "vjob \<Rightarrow> vcall list" where
  "planned_calls j = (let schema = vj_schema j; tbl = vj_table j in case vj_op j of
     EnsureSchema \<Rightarrow> [VEnsureSchema schema]
   | DropSchema \<Rightarrow> [VDropSchema schema]
   | BuildFromSql sql \<Rightarrow> [VEnsureSchema schema, VBuildFromSql schema tbl sql]
   | CheckBinds sql \<Rightarrow> [VEnsureSchema schema, VCheckBinds (PStr sql)]
   | BuildFromColumns spec config csv \<Rightarrow>
       VEnsureSchema schema # map VCheckBinds (spec_reads spec) @ [VBuildFromColumns schema tbl]
   | CloneFromProd prod_schema \<Rightarrow> [VEnsureSchema schema, VClone schema prod_schema tbl])"

text \<open>\<open>follows m plan\<close>: \<open>m\<close> makes the calls of \<open>plan\<close> in order, all of them if it succeeds, and prints nothing.\<close>

definition follows :: "('w vstate, 'a) op \<Rightarrow> vcall list \<Rightarrow> bool" where
  "follows m plan \<longleftrightarrow> (\<forall>s r s'. m s = (r, s') \<longrightarrow> (\<exists>made rest. plan = made @ rest \<and> vs_calls s' = vs_calls s @ made
     \<and> vs_out s' = vs_out s \<and> (\<forall>a. r = Inr a \<longrightarrow> rest = [])))"

lemma follows_vcall: "follows (vcall c m) [c]"
  by (auto simp: follows_def vcall_def split: prod.splits)

lemma follows_Nil: "follows (op_return a) []" "follows (op_of_res r) []"
  by (auto simp: follows_def op_return_def op_of_res_def)

lemma follows_raise: "follows (op_raise e) plan"
  by (auto simp: follows_def op_raise_def intro!: exI [of _ "[]"])

lemma follows_bind:
  assumes "follows m p" and "\<And>a. follows (f a) q"
  shows "follows (op_bind m f) (p @ q)"
  unfolding follows_def
proof (intro allI impI)
  fix s r s'
  assume run: "op_bind m f s = (r, s')"
  obtain x t where m: "m s = (x, t)" by fastforce
  with assms(1) obtain made rest where p: "p = made @ rest" "vs_calls t = vs_calls s @ made" "vs_out t = vs_out s"
    and all: "\<forall>a. x = Inr a \<longrightarrow> rest = []" unfolding follows_def by blast
  show "\<exists>made rest. p @ q = made @ rest \<and> vs_calls s' = vs_calls s @ made \<and> vs_out s' = vs_out s
      \<and> (\<forall>a. r = Inr a \<longrightarrow> rest = [])"
  proof (cases x)
    case (Inl e)
    then have "r = Inl e" "s' = t" using run m by (simp_all add: op_bind_def)
    then show ?thesis using p by auto
  next
    case (Inr a)
    then have "f a t = (r, s')" using run m by (simp add: op_bind_def)
    with assms(2) [of a] obtain made' rest' where "q = made' @ rest'" "vs_calls s' = vs_calls t @ made'"
      "vs_out s' = vs_out t" "\<forall>a. r = Inr a \<longrightarrow> rest' = []" unfolding follows_def by blast
    then show ?thesis using p all Inr by (intro exI [of _ "made @ made'"] exI [of _ rest']) simp
  qed
qed

lemma follows_of_res:
  assumes "\<And>a. x = Inr a \<Longrightarrow> follows (f a) plan"
  shows "follows (op_bind (op_of_res x) f) plan"
proof (cases x)
  case (Inl e)
  then have "op_bind (op_of_res x) f = op_raise e" by (simp add: fun_eq_iff op_bind_def op_of_res_def op_raise_def)
  then show ?thesis by (simp add: follows_raise)
next
  case (Inr a)
  then have "op_bind (op_of_res x) f = f a" by (simp add: fun_eq_iff op_bind_def op_of_res_def)
  then show ?thesis using assms [OF Inr] by simp
qed

lemma follows_each:
  assumes "\<And>x. follows (f x) (g x)"
  shows "follows (op_each f xs) (concat (map g xs))"
  by (induction xs) (simp_all add: follows_Nil follows_bind assms)

lemma build_from_columns_follows:
  "follows (build_from_columns rn ad schema tbl spec config csv)
     (map VCheckBinds (spec_reads spec) @ [VBuildFromColumns schema tbl])"
  unfolding build_from_columns_def
proof (intro follows_of_res)
  fix vs
  assume "iterate (get_default spec ''reads'' (PList [])) = Inr vs"
  then have reads: "map VCheckBinds (spec_reads spec) = concat (map (\<lambda>v. [VCheckBinds v]) vs)"
    by (simp add: spec_reads_def)
  show "follows (op_then (op_each (\<lambda>read_sql. vcall (VCheckBinds read_sql) (va_check_binds ad read_sql)) vs)
       (vcall (VBuildFromColumns schema tbl) (va_build_from_columns ad schema tbl (get_or_none spec ''output_columns'') config)))
     (map VCheckBinds (spec_reads spec) @ [VBuildFromColumns schema tbl])"
    unfolding reads by (intro follows_bind follows_each follows_vcall)
qed

lemma run_op_follows: "follows (run_op rn ad j) (planned_calls j)"
proof -
  have seq: "follows (op_then m k) (c # q)" if "follows m [c]" "follows k q" for m k and c q
    using follows_bind [OF that(1), of "\<lambda>_. k" q] that(2) by simp
  show ?thesis
    by (cases "vj_op j")
      (simp_all add: run_op_def planned_calls_def Let_def follows_vcall seq build_from_columns_follows)
qed

text \<open>An early end has code 1 or 2.\<close>

definition early_codes :: "early_exit + 'a \<Rightarrow> bool" where
  "early_codes r \<longleftrightarrow> (\<forall>x. r = Inl x \<longrightarrow> fst x = 1 \<or> fst x = 2)"

lemma early_codes_simps [simp]:
  "early_codes (Inr a)" "early_codes (Inl (c, m, i)) \<longleftrightarrow> c = 1 \<or> c = 2"
  by (simp_all add: early_codes_def)

lemma early_codes_bind: "early_codes m \<Longrightarrow> (\<And>a. early_codes (f a)) \<Longrightarrow> early_codes (bind_res m f)"
  by (cases m) (simp_all add: early_codes_def)

lemma early_codes_if: "early_codes m \<Longrightarrow> early_codes k \<Longrightarrow> early_codes (if b then m else k)"
  by simp

lemma early_codes_inputs:
  "early_codes (require_var env n)" "early_codes (gather_sql rn env i)" "early_codes (gather_spec rn env i)"
  "early_codes (find_engine rn env i)"
  by (auto simp: require_var_def gather_sql_def gather_spec_def spec_config_def spec_csv_source_def find_engine_def
      Let_def intro!: early_codes_bind split: sum.splits list.splits if_splits pyval.splits prod.splits)

lemma early_codes_gather: "early_codes (gather rn env)"
  unfolding gather_def Let_def
  by (intro early_codes_bind early_codes_if early_codes_inputs) simp_all

text \<open>The four ways a run goes.\<close>

lemma runner_main_cases:
  assumes "runner_main rn env s = (code, s')"
  obtains (refused) message unique_id where "code \<in> {1, 2}" "s' = vprint (error_block message unique_id) s"
  | (unconnected) j e from_env where "gather rn env = Inr j" "find_engine rn env (vj_unique_id j) = Inr from_env" "code = 1"
      "vs_calls s' = vs_calls s @ [VConnect]" "vs_out s' = vs_out s @ [error_block (exn_text e) (vj_unique_id j)]"
  | (failed) j made rest e where "gather rn env = Inr j" "code = 1" "planned_calls j = made @ rest"
      "vs_calls s' = vs_calls s @ VConnect # made @ [VClose]"
      "vs_out s' = vs_out s @ [error_block (exn_text e) (vj_unique_id j)]"
  | (finished) j from_env ad s1 s2 where "gather rn env = Inr j" "find_engine rn env (vj_unique_id j) = Inr from_env" "code = 0"
      "from_env (vs_world s) = (Inr ad, vs_world s1)" "run_op rn ad j s1 = (Inr (), s2)"
      "vs_calls s' = vs_calls s @ VConnect # planned_calls j @ [VClose]"
      "vs_out s' = vs_out s @ [success_block (vj_unique_id j)]"
proof -
  show thesis
  proof (cases "gather rn env")
    case (Inl x)
    then show thesis using assms early_codes_gather [of rn env] refused by (cases x) (auto simp: runner_main_def)
  next
    case j: (Inr j)
    show thesis
    proof (cases "find_engine rn env (vj_unique_id j)")
      case (Inl x)
      then show thesis using assms j early_codes_inputs(4) [of rn env "vj_unique_id j"] refused by (cases x) (auto simp: runner_main_def)
    next
      case from_env: (Inr from_env)
      obtain x u where x: "from_env (vs_world s) = (x, u)" by fastforce
      define s1 where "s1 = s\<lparr>vs_world := u, vs_calls := vs_calls s @ [VConnect]\<rparr>"
      have connect: "vcall VConnect from_env s = (x, s1)" by (simp add: vcall_def x s1_def)
      show thesis
      proof (cases x)
        case (Inl e)
        have main: "runner_main rn env s = (1, vprint (error_block (exn_text e) (vj_unique_id j)) s1)"
          by (simp add: runner_main_def j from_env connect Inl)
        show thesis
        proof (rule unconnected [of j from_env e])
          show "code = 1" using assms main by simp
          have s': "s' = vprint (error_block (exn_text e) (vj_unique_id j)) s1" using assms main by simp
          show "vs_calls s' = vs_calls s @ [VConnect]" unfolding s' by (simp add: vprint_def s1_def)
          show "vs_out s' = vs_out s @ [error_block (exn_text e) (vj_unique_id j)]" unfolding s' by (simp add: vprint_def s1_def)
        qed (fact j from_env)+
      next
        case (Inr ad)
        obtain y s2 where y: "run_op rn ad j s1 = (y, s2)" by fastforce
        obtain made rest where plan: "planned_calls j = made @ rest" "vs_calls s2 = vs_calls s1 @ made"
          "vs_out s2 = vs_out s1" "\<forall>a. y = Inr a \<longrightarrow> rest = []"
          using run_op_follows [of rn ad j, unfolded follows_def, rule_format, OF y] by metis
        have closed: "vs_calls (close_adapter ad t) = vs_calls t @ [VClose]" "vs_out (close_adapter ad t) = vs_out t" for t
          by (simp_all add: close_adapter_def vcall_def split: prod.splits)
        show thesis
        proof (cases y)
          case (Inl e)
          have main: "runner_main rn env s = (1, close_adapter ad (vprint (error_block (exn_text e) (vj_unique_id j)) s2))"
            by (simp add: runner_main_def j from_env connect Inr y Inl)
          show thesis
          proof (rule failed [of j made rest e])
            show "code = 1" using assms main by simp
            have s': "s' = close_adapter ad (vprint (error_block (exn_text e) (vj_unique_id j)) s2)" using assms main by simp
            show "vs_calls s' = vs_calls s @ VConnect # made @ [VClose]"
              unfolding s' closed by (simp add: vprint_def plan(2) s1_def)
            show "vs_out s' = vs_out s @ [error_block (exn_text e) (vj_unique_id j)]"
              unfolding s' closed by (simp add: vprint_def plan(3) s1_def)
          qed (fact j plan(1))+
        next
          case y': (Inr a)
          have main: "runner_main rn env s = (0, vprint (success_block (vj_unique_id j)) (close_adapter ad s2))"
            by (simp add: runner_main_def j from_env connect Inr y y')
          have made: "made = planned_calls j" using plan(1,4) y' by simp
          show thesis
          proof (rule finished [of j from_env ad s1 s2])
            show "code = 0" using assms main by simp
            have s': "s' = vprint (success_block (vj_unique_id j)) (close_adapter ad s2)" using assms main by simp
            show "vs_calls s' = vs_calls s @ VConnect # planned_calls j @ [VClose]"
              unfolding s' by (simp add: vprint_def closed plan(2) made s1_def)
            show "vs_out s' = vs_out s @ [success_block (vj_unique_id j)]"
              unfolding s' by (simp add: vprint_def closed plan(3) s1_def)
            show "from_env (vs_world s) = (Inr ad, vs_world s1)" using x Inr by (simp add: s1_def)
            show "run_op rn ad j s1 = (Inr (), s2)" using y y' by simp
          qed (fact j from_env)+
        qed
      qed
    qed
  qed
qed

section \<open>The csv gate of a column build\<close>

text \<open>A passed check: the source has a header line whose fields hold every declared name.\<close>

definition header_covers :: "'w runner \<Rightarrow> pydict \<Rightarrow> string \<Rightarrow> bool" where
  "header_covers rn spec csv \<longleftrightarrow> (\<exists>uri fetch_header line names columns header_cols.
     parse_csv_uri (PStr csv) = Inr uri \<and> reader_for (rn_s3_header rn) (rn_https_header rn) uri = Inr fetch_header
     \<and> fetch_header uri = Inr line \<and> line \<noteq> [] \<and> csv_record line = Inr header_cols
     \<and> iterate (get_or_none spec ''output_columns'') = Inr columns
     \<and> traverse declared_name columns = Inr (map PStr names) \<and> set names \<subseteq> set header_cols)"

lemma is_str_names: "list_all is_str vs \<Longrightarrow> vs = map PStr (map name_text vs)"
proof (induction vs)
  case (Cons v vs)
  then show ?case by (cases v) simp_all
qed simp

lemma check_declared_Inr:
  assumes "check_declared header_cols vs = Inr u"
  obtains names where "vs = map PStr names" "set names \<subseteq> set header_cols"
proof -
  have "list_all is_str vs" using assms by (auto simp: check_declared_def split: if_splits list.splits)
  moreover from this assms have "set (map name_text vs) \<subseteq> set header_cols"
    by (auto simp: check_declared_def res_simps check_header_eq_Inr)
  ultimately show thesis using that is_str_names by blast
qed

lemma check_csv_source_covers:
  assumes "check_csv_source rn spec csv = Inr u" and "csv \<noteq> []"
  shows "header_covers rn spec csv"
proof -
  from assms obtain uri fetch_header line columns vs header_cols where
    a: "parse_csv_uri (PStr csv) = Inr uri" "reader_for (rn_s3_header rn) (rn_https_header rn) uri = Inr fetch_header"
      "fetch_header uri = Inr line" "line \<noteq> []" "iterate (get_or_none spec ''output_columns'') = Inr columns"
      "traverse declared_name columns = Inr vs" "csv_record line = Inr header_cols"
    and d: "check_declared header_cols vs = Inr u"
    by (auto simp: check_csv_source_def res_simps split: if_splits)
  from d obtain names where "vs = map PStr names" "set names \<subseteq> set header_cols" by (rule check_declared_Inr)
  with a show ?thesis unfolding header_covers_def by blast
qed

lemma run_op_csv_gate:
  assumes "run_op rn ad j s = (Inr u, s')" and "vj_op j = BuildFromColumns spec config csv" and "csv \<noteq> []"
  shows "header_covers rn spec csv"
proof -
  have "check_csv_source rn spec csv = Inr ()"
    using assms(1,2)
    by (cases "check_csv_source rn spec csv")
      (auto simp: run_op_def build_from_columns_def op_bind_def op_of_res_def Let_def split: prod.splits sum.splits)
  then show ?thesis using assms(3) by (rule check_csv_source_covers)
qed

section \<open>Every run reports once\<close>

lemma runner_reports_once:
  assumes "runner_main rn env s = (code, s')"
  shows "code \<le> 2 \<and> (\<exists>message unique_id. vs_out s' = vs_out s @
       [if code = 0 then success_block unique_id else error_block message unique_id])
     \<and> (vs_calls s' = vs_calls s \<or> vs_calls s' = vs_calls s @ [VConnect]
        \<or> (\<exists>j made rest. gather rn env = Inr j \<and> planned_calls j = made @ rest
             \<and> vs_calls s' = vs_calls s @ VConnect # made @ [VClose]))"
  using assms
proof (cases rule: runner_main_cases)
  case (refused message unique_id)
  then have "vs_calls s' = vs_calls s" "vs_out s' = vs_out s @ [error_block message unique_id]" "code \<le> 2" "code \<noteq> 0"
    by (auto simp: vprint_def)
  then show ?thesis by (intro conjI disjI1) auto
next
  case (unconnected j e from_env)
  then show ?thesis by auto
next
  case (failed j made rest e)
  then show ?thesis by (intro conjI disjI2) auto
next
  case (finished j from_env ad s1 s2)
  then show ?thesis by (intro conjI disjI2) (auto intro: exI [of _ j])
qed

lemma runner_succeeds:
  assumes "runner_main rn env s = (0, s')"
  shows "\<exists>j. gather rn env = Inr j \<and> vs_calls s' = vs_calls s @ VConnect # planned_calls j @ [VClose]
     \<and> vs_out s' = vs_out s @ [success_block (vj_unique_id j)]
     \<and> (case vj_op j of BuildFromColumns spec config csv \<Rightarrow> csv = [] \<or> header_covers rn spec csv | _ \<Rightarrow> True)"
  using assms
proof (cases rule: runner_main_cases)
  case (finished j from_env ad s1 s2)
  then show ?thesis using run_op_csv_gate [OF finished(5)] by (intro exI [of _ j]) (auto split: vop.splits)
qed simp_all

end
