(* ===== verification/Cli.thy ===== *)
theory Cli
  imports Runner Harness
begin

text \<open>
  The command line (\<^verbatim>\<open>continuo_python_runtime/cli.py\<close>): what \<^verbatim>\<open>argparse\<close> leaves of the arguments is a
  \<open>command\<close>; each command runs the component it names and becomes an exit status, or the exception
  that \<^verbatim>\<open>main\<close> does not catch. The state holds the lines printed, the lines logged, the files written, and
  the states of the two container commands.
\<close>

section \<open>Commands\<close>

datatype command =
    Validate string "string option"
  | MergeContracts string string string string "string option"
  | HashNodes string string "string option"
  | LintScripts "string list"
  | RunNode
  | ValidationOp

text \<open>The world the commands read: file system, parsers, and the two container commands' own.\<close>

record ('h, 'v) tools =
  tl_sql :: sql_parser
  tl_unknown_dialect :: "string \<Rightarrow> string option"
  tl_listing :: "string \<Rightarrow> string \<times> string list"
  tl_contract_text :: "string \<Rightarrow> string res"
  tl_yaml :: "string \<Rightarrow> pyval res"
  tl_fs :: fs
  tl_python :: "string \<Rightarrow> parsed"
  tl_decode :: "string \<Rightarrow> string + string"
  tl_kind :: "string \<Rightarrow> path_kind"
  tl_script_text :: "string \<Rightarrow> string + string"
  tl_dump :: "pydict \<Rightarrow> string"
  tl_write :: "string \<Rightarrow> string \<Rightarrow> unit res"
  tl_harness :: "'h harness"
  tl_runner :: "'v runner"
  tl_environ :: env

record ('h, 'v) cli_state =
  cs_out :: "string list"
  cs_log :: "string list"
  cs_files :: "(string \<times> string) list"
  cs_run :: "'h hstate"
  cs_validation :: "'v vstate"

definition load_contracts :: "('h, 'v) tools \<Rightarrow> string \<Rightarrow> string option \<Rightarrow> node list res" where
  "load_contracts t contract_dir dialect = (case tl_listing t contract_dir of (path, names) \<Rightarrow>
     load_contract_dir (tl_sql t) (tl_unknown_dialect t) (tl_contract_text t) (tl_yaml t) path names dialect True)"

definition wire_contract_of :: "('h, 'v) tools \<Rightarrow> string \<Rightarrow> string \<Rightarrow> string \<Rightarrow> string option \<Rightarrow> pydict run" where
  "wire_contract_of t contract_dir repo_root service dialect =
     build_wire_contract (tl_fs t) (tl_python t) (tl_decode t) (load_contracts t contract_dir dialect)
       (path_of repo_root) service"

section \<open>The handlers\<close>

text \<open>A handler's status is an exit code, or an exception; \<open>None\<close> is a run that does not return.\<close>

type_synonym ('h, 'v) handled = "(int res \<times> ('h, 'v) cli_state) option"

definition cmd_validate :: "('h, 'v) tools \<Rightarrow> string \<Rightarrow> string option \<Rightarrow> ('h, 'v) cli_state \<Rightarrow> ('h, 'v) handled" where
  "cmd_validate t contract_dir dialect s =
     Some (bind_res (load_contracts t contract_dir dialect) (\<lambda>nodes. Inr 0), s)"

definition write_wire_contract :: "('h, 'v) tools \<Rightarrow> pydict \<Rightarrow> string \<Rightarrow> ('h, 'v) cli_state \<Rightarrow> int res \<times> ('h, 'v) cli_state" where
  "write_wire_contract t doc out s = (let text = tl_dump t doc in case tl_write t out text of
     Inl e \<Rightarrow> (Inl e, s)
   | Inr _ \<Rightarrow> (Inr 0, s\<lparr>cs_files := cs_files s @ [(out, text)]\<rparr>))"

definition cmd_merge ::
  "('h, 'v) tools \<Rightarrow> string \<Rightarrow> string \<Rightarrow> string \<Rightarrow> string \<Rightarrow> string option \<Rightarrow> ('h, 'v) cli_state \<Rightarrow> ('h, 'v) handled" where
  "cmd_merge t contract_dir service repo_root out dialect s =
     (case wire_contract_of t contract_dir repo_root service dialect of
        None \<Rightarrow> None
      | Some (Inl e) \<Rightarrow> Some (Inl e, s)
      | Some (Inr doc) \<Rightarrow> Some (write_wire_contract t doc out s))"

definition document_nodes :: "pydict \<Rightarrow> pydict list" where
  "document_nodes doc = (case get_or_none doc ''nodes'' of
     PList es \<Rightarrow> map (\<lambda>e. case e of PDict d \<Rightarrow> d | _ \<Rightarrow> []) es
   | _ \<Rightarrow> [])"

definition hash_line :: "pydict \<Rightarrow> string" where
  "hash_line e = entry_relation e @ [CHR 0x09] @ text_of (get_or_none e ''content_hash'')"

definition cmd_hash ::
  "('h, 'v) tools \<Rightarrow> string \<Rightarrow> string \<Rightarrow> string option \<Rightarrow> ('h, 'v) cli_state \<Rightarrow> ('h, 'v) handled" where
  "cmd_hash t contract_dir repo_root dialect s =
     (case wire_contract_of t contract_dir repo_root ''_hash'' dialect of
        None \<Rightarrow> None
      | Some (Inl e) \<Rightarrow> Some (Inl e, s)
      | Some (Inr doc) \<Rightarrow> Some (Inr 0, s\<lparr>cs_out := cs_out s @ map hash_line (document_nodes doc)\<rparr>))"

definition cmd_lint :: "('h, 'v) tools \<Rightarrow> string list \<Rightarrow> ('h, 'v) cli_state \<Rightarrow> ('h, 'v) handled" where
  "cmd_lint t paths s = (case lint_paths (tl_python t) (tl_kind t) (tl_script_text t) paths of
     Inl e \<Rightarrow> Some (Inl e, s)
   | Inr [] \<Rightarrow> Some (Inr 0, s)
   | Inr violations \<Rightarrow> Some (Inr 1, s\<lparr>cs_log := cs_log s @ violations\<rparr>))"

definition cmd_run :: "('h, 'v) tools \<Rightarrow> ('h, 'v) cli_state \<Rightarrow> ('h, 'v) handled" where
  "cmd_run t s = (case run_node (tl_harness t) (tl_environ t) None (cs_run s) of (code, u) \<Rightarrow>
     Some (Inr code, s\<lparr>cs_run := u\<rparr>))"

text \<open>The validation runner leaves with \<^verbatim>\<open>sys.exit\<close>, which no \<^verbatim>\<open>except\<close> clause here stops, or returns.\<close>

definition cmd_validation_op :: "('h, 'v) tools \<Rightarrow> ('h, 'v) cli_state \<Rightarrow> ('h, 'v) handled" where
  "cmd_validation_op t s = (case runner_main (tl_runner t) (tl_environ t) (cs_validation s) of (code, u) \<Rightarrow>
     Some (Inr (int code), s\<lparr>cs_validation := u\<rparr>))"

section \<open>The entrypoint\<close>

definition dispatch :: "('h, 'v) tools \<Rightarrow> command \<Rightarrow> ('h, 'v) cli_state \<Rightarrow> ('h, 'v) handled" where
  "dispatch t c s = (case c of
     Validate contract_dir dialect \<Rightarrow> cmd_validate t contract_dir dialect s
   | MergeContracts contract_dir service repo_root out dialect \<Rightarrow> cmd_merge t contract_dir service repo_root out dialect s
   | HashNodes contract_dir repo_root dialect \<Rightarrow> cmd_hash t contract_dir repo_root dialect s
   | LintScripts paths \<Rightarrow> cmd_lint t paths s
   | RunNode \<Rightarrow> cmd_run t s
   | ValidationOp \<Rightarrow> cmd_validation_op t s)"

definition cli_main :: "('h, 'v) tools \<Rightarrow> command \<Rightarrow> ('h, 'v) cli_state \<Rightarrow> ('h, 'v) handled" where
  "cli_main t c s = (case dispatch t c s of
     Some (Inl e, s') \<Rightarrow>
       if is_harness_error e \<or> exn_kind e = OSError then Some (Inr 1, s'\<lparr>cs_log := cs_log s' @ [exn_text e]\<rparr>)
       else Some (Inl e, s')
   | handled \<Rightarrow> handled)"

section \<open>Status and effects\<close>

lemma cli_main_eq_Inr_0: "cli_main t c s = Some (Inr 0, s') \<longleftrightarrow> dispatch t c s = Some (Inr 0, s')"
  by (auto simp: cli_main_def split: option.splits prod.splits sum.splits)

lemma cli_main_failed:
  assumes "cli_main t c s = Some (r, s')" and "r \<noteq> Inr 0"
  obtains q u where "dispatch t c s = Some (q, u)" "q \<noteq> Inr 0" "cs_out s' = cs_out u" "cs_files s' = cs_files u"
  using assms by (auto simp: cli_main_def split: option.splits prod.splits sum.splits if_splits)

fun container_command :: "command \<Rightarrow> bool" where
  "container_command RunNode = True"
| "container_command ValidationOp = True"
| "container_command c = False"

lemma dispatch_failed:
  assumes "dispatch t c s = Some (q, u)" and "q \<noteq> Inr 0" and "\<not> container_command c"
  shows "cs_out u = cs_out s \<and> cs_files u = cs_files s"
  using assms
  by (cases c) (auto simp: dispatch_def cmd_validate_def cmd_merge_def cmd_hash_def cmd_lint_def write_wire_contract_def
      Let_def split: option.splits sum.splits list.splits)

lemma cli_failure_leaves_nothing:
  assumes "cli_main t c s = Some (r, s')" and "r \<noteq> Inr 0" and "\<not> container_command c"
  shows "cs_out s' = cs_out s \<and> cs_files s' = cs_files s"
  using cli_main_failed [OF assms(1,2)] dispatch_failed [OF _ _ assms(3)] by metis

text \<open>Merge and hash read the contracts as validate does.\<close>

lemma wire_contract_loaded:
  "wire_contract_of t d repo_root service dialect = Some (Inr doc) \<Longrightarrow> \<exists>nodes. load_contracts t d dialect = Inr nodes"
  by (auto simp: wire_contract_of_def build_wire_contract_def res_simps)

lemma cli_validate_0: "cli_main t (Validate d dialect) s = Some (Inr 0, s) \<longleftrightarrow> (\<exists>nodes. load_contracts t d dialect = Inr nodes)"
  by (cases "load_contracts t d dialect") (auto simp: cli_main_eq_Inr_0 dispatch_def cmd_validate_def)

text \<open>The document holds one entry per loaded node, and hash prints one line for each, by relation.\<close>

lemma wire_contract_entries:
  assumes "wire_contract_of t d repo_root service dialect = Some (Inr doc)"
  obtains nodes entries where "load_contracts t d dialect = Inr nodes"
    "list_all2 (\<lambda>n e. wire_node (tl_fs t) (tl_python t) (tl_decode t) (path_of repo_root) n = Some (Inr e)) nodes entries"
    "document_nodes doc = sort_key entry_relation entries"
proof -
  from assms obtain nodes entries where n: "load_contracts t d dialect = Inr nodes"
    and e: "list_all2 (\<lambda>n e. wire_node (tl_fs t) (tl_python t) (tl_decode t) (path_of repo_root) n = Some (Inr e)) nodes entries"
    and d: "doc = [(PStr ''contract_version'', PInt contract_version), (PStr ''service'', PStr service),
       (PStr ''nodes'', PList (map PDict (sort_key entry_relation entries)))]"
    by (auto simp: wire_contract_of_def build_wire_contract_def res_simps traverse_run_eq_Inr)
  have "document_nodes doc = sort_key entry_relation entries"
    by (simp add: d document_nodes_def get_or_none_def dict_get_def comp_def)
  with n e show thesis by (rule that)
qed

lemma wire_node_relation: "wire_node f parse decode repo_root n = Some (Inr e) \<Longrightarrow> entry_relation e = relation n"
  by (auto simp: wire_node_def res_simps)

lemma wire_nodes_relations:
  "list_all2 (\<lambda>n e. wire_node f parse decode repo_root n = Some (Inr e)) nodes entries \<Longrightarrow>
     map entry_relation entries = map relation nodes"
  by (induction nodes entries rule: list_all2_induct) (auto dest: wire_node_relation)

lemma cli_hash_0:
  assumes "cli_main t (HashNodes d repo_root dialect) s = Some (Inr 0, s')"
  obtains nodes entries where "load_contracts t d dialect = Inr nodes"
    "list_all2 (\<lambda>n e. wire_node (tl_fs t) (tl_python t) (tl_decode t) (path_of repo_root) n = Some (Inr e)) nodes entries"
    "cs_out s' = cs_out s @ map hash_line (sort_key entry_relation entries)"
proof -
  from assms obtain doc where "wire_contract_of t d repo_root ''_hash'' dialect = Some (Inr doc)"
    and out: "cs_out s' = cs_out s @ map hash_line (document_nodes doc)"
    unfolding cli_main_eq_Inr_0 by (auto simp: dispatch_def cmd_hash_def split: option.splits sum.splits)
  from this(1) show thesis by (rule wire_contract_entries) (use out that in metis)
qed

lemma cli_merge_0:
  assumes "cli_main t (MergeContracts d service repo_root out dialect) s = Some (Inr 0, s')"
  obtains doc where "wire_contract_of t d repo_root service dialect = Some (Inr doc)"
    "cs_files s' = cs_files s @ [(out, tl_dump t doc)]"
  using assms unfolding cli_main_eq_Inr_0
  by (auto simp: dispatch_def cmd_merge_def write_wire_contract_def Let_def split: option.splits sum.splits)

lemma cli_failure_status:
  assumes "cli_main t c s = Some (r, s')" and "r \<noteq> Inr 0" and "\<not> container_command c"
  shows "r = Inr 1 \<or> (\<exists>e. r = Inl e \<and> \<not> is_harness_error e \<and> exn_kind e \<noteq> OSError)"
proof -
  have status: "q = Inr 0 \<or> q = Inr 1 \<or> (\<exists>e. q = Inl e)" if "dispatch t c s = Some (q, u)" for q u
    using that assms(3)
    by (cases c) (auto simp: dispatch_def cmd_validate_def cmd_merge_def cmd_hash_def cmd_lint_def write_wire_contract_def
        Let_def bind_res_def split: option.splits sum.splits list.splits)
  from assms(1) obtain q u where d: "dispatch t c s = Some (q, u)"
    by (cases "dispatch t c s") (auto simp: cli_main_def)
  show ?thesis using status [OF d] assms(1,2) d by (auto simp: cli_main_def split: if_splits sum.splits)
qed

lemma cli_hash_prints:
  assumes "cli_main t (HashNodes d repo_root dialect) s = Some (Inr 0, s')"
  shows "\<exists>nodes entries. cli_main t (Validate d dialect) u = Some (Inr 0, u)
    \<and> load_contracts t d dialect = Inr nodes \<and> map entry_relation entries = sort (map relation nodes)
    \<and> cs_out s' = cs_out s @ map hash_line entries
    \<and> list_all (\<lambda>e. \<exists>n. n \<in> set nodes
        \<and> wire_node (tl_fs t) (tl_python t) (tl_decode t) (path_of repo_root) n = Some (Inr e)) entries"
proof -
  from assms obtain nodes entries where load: "load_contracts t d dialect = Inr nodes"
    and w: "list_all2 (\<lambda>n e. wire_node (tl_fs t) (tl_python t) (tl_decode t) (path_of repo_root) n = Some (Inr e)) nodes entries"
    and out: "cs_out s' = cs_out s @ map hash_line (sort_key entry_relation entries)" by (rule cli_hash_0)
  have "map entry_relation (sort_key entry_relation entries) = sort (map relation nodes)"
    unfolding wire_nodes_relations [OF w, symmetric]
    by (rule properties_for_sort [symmetric]) (simp_all add: sorted_sort_key)
  moreover have "list_all (\<lambda>e. \<exists>n. n \<in> set nodes
      \<and> wire_node (tl_fs t) (tl_python t) (tl_decode t) (path_of repo_root) n = Some (Inr e)) (sort_key entry_relation entries)"
    using w by (force simp: list_all_iff list_all2_conv_all_nth in_set_conv_nth)
  ultimately show ?thesis using load out by (auto simp: cli_validate_0)
qed

end
