(* ===== verification/SampleRunner.thy ===== *)
theory SampleRunner
  imports Cli Sample
begin

text \<open>
  Concrete tools for the witnesses of the validation runner and of the command line: a bucket with one
  object, whose header line is \<^verbatim>\<open>id,note\<close>, an adapter that accepts every operation, and the contract
  directory of the sample node.
\<close>

definition sample_object :: string where "sample_object = ''id,note'' @ [newline] @ ''1,x''"

definition sample_validation_adapter :: "unit validation_adapter" where
  "sample_validation_adapter = \<lparr>va_ensure_schema = \<lambda>s. op_return (), va_drop_schema = \<lambda>s. op_return (),
     va_build_from_sql = \<lambda>s t q. op_return (), va_clone_from_prod = \<lambda>s p t. op_return (),
     va_build_from_columns = \<lambda>s t c k. op_return (), va_check_binds = \<lambda>q. op_return (), va_close = op_return ()\<rparr>"

definition sample_spec :: pydict where
  "sample_spec = [(PStr ''output_columns'', PList [PDict [(PStr ''name'', PStr ''id''), (PStr ''type'', PStr ''BIGINT'')]]),
     (PStr ''reads'', PList [PStr ''select 1'']), (PStr ''csv_source'', PStr ''s3://b/k'')]"

definition sample_runner :: "unit runner" where
  "sample_runner = \<lparr>rn_object = \<lambda>b k. Inr sample_object, rn_decode = Inr, rn_json = \<lambda>t. Inr (PDict sample_spec),
     rn_s3_header = s3_fetch_header_line (store_get sample_object (Exn (OtherError ''ClientError'') ''InvalidRange'')) (\<lambda>e. True) Inr,
     rn_https_header = \<lambda>u. Inr [],
     rn_entry_points = [(''sample'', Inr (Some ([''HOST''], op_return sample_validation_adapter)))]\<rparr>"

definition sample_validation_env :: env where
  "sample_validation_env = map_of [(''DBT_TARGET_SCHEMA'', ''cand''), (''VALIDATION_OP'', ''build_from_columns''),
     (''TABLE_NAME'', ''t''), (''CANDIDATE_SPEC_URI'', ''s3://b/spec.json''), (''HOST'', ''db'')]"

definition sample_vstate :: "unit vstate" where
  "sample_vstate = \<lparr>vs_world = (), vs_calls = [], vs_out = []\<rparr>"

definition sample_job :: vjob where
  "sample_job = \<lparr>vj_schema = ''cand'', vj_table = ''t'', vj_unique_id = ''model.t'',
     vj_op = BuildFromColumns sample_spec [] ''s3://b/k''\<rparr>"

lemma sample_gather: "gather sample_runner sample_validation_env = Inr sample_job"
  by code_simp

lemma sample_find_engine:
  "find_engine sample_runner sample_validation_env (vj_unique_id sample_job) = Inr (op_return sample_validation_adapter)"
  by (simp add: find_engine_def sample_runner_def discover_adapter_def sample_validation_env_def get_env_def)

lemma sample_header: "header_spec Inr src sample_object = Inr ''id,note''"
  by (simp add: header_spec_def extract_header_line_def sample_object_def max_header_bytes_def
      before_char_def rstrip_char_def)

lemma sample_csv_gate: "check_csv_source sample_runner sample_spec ''s3://b/k'' = Inr ()"
proof -
  have p: "probe_ok sample_object" by (simp add: probe_ok_def sample_object_def)
  have n: "sample_object \<noteq> []" by (simp add: sample_object_def)
  have line: "rn_s3_header sample_runner u = Inr ''id,note''" for u
    by (simp add: sample_runner_def s3_reader.reads_header p n sample_header)
  have uri: "parse_csv_uri (PStr ''s3://b/k'') = Inr \<lparr>uri_scheme = ''s3'', uri_raw = ''s3://b/k'',
      uri_bucket = ''b'', uri_key = ''k''\<rparr>" by code_simp
  have columns: "iterate (get_or_none sample_spec ''output_columns'')
      = Inr [PDict [(PStr ''name'', PStr ''id''), (PStr ''type'', PStr ''BIGINT'')]]" by code_simp
  have names: "declared_name (PDict [(PStr ''name'', PStr ''id''), (PStr ''type'', PStr ''BIGINT'')]) = Inr (PStr ''id'')"
    by code_simp
  have fields_read: "csv_record ''id,note'' = Inr [''id'', ''note'']" by code_simp
  have declared: "check_declared [''id'', ''note''] [PStr ''id''] = Inr ()" by code_simp
  show ?thesis
    by (simp add: check_csv_source_def uri reader_for_def line columns names fields_read declared)
qed

lemma sample_validation_run:
  "\<exists>s'. runner_main sample_runner sample_validation_env sample_vstate = (0, s')"
proof -
  have "\<exists>s2. run_op sample_runner sample_validation_adapter sample_job s1 = (Inr (), s2)" for s1
  proof -
    have "iterate (get_default sample_spec ''reads'' (PList [])) = Inr [PStr ''select 1'']" by code_simp
    then show ?thesis
      by (simp add: run_op_def sample_job_def build_from_columns_def sample_csv_gate sample_validation_adapter_def
          vcall_def op_bind_def op_of_res_def op_return_def Let_def)
  qed
  then obtain s2 where run: "run_op sample_runner sample_validation_adapter sample_job
      (sample_vstate\<lparr>vs_calls := [VConnect]\<rparr>) = (Inr (), s2)" by blast
  have connect: "vcall VConnect (op_return sample_validation_adapter) sample_vstate
      = (Inr sample_validation_adapter, sample_vstate\<lparr>vs_calls := [VConnect]\<rparr>)"
    by (simp add: vcall_def op_return_def sample_vstate_def)
  show ?thesis
    by (simp add: runner_main_def sample_gather sample_find_engine connect run)
qed

section \<open>The command line\<close>

definition sample_tools :: "(tables, unit) tools" where
  "sample_tools = \<lparr>tl_sql = sample_parser, tl_unknown_dialect = \<lambda>d. None, tl_listing = \<lambda>d. (d, [''n.yml'', ''README'']),
     tl_contract_text = Inr, tl_yaml = sample_yaml, tl_fs = sample_fs, tl_python = sample_tree, tl_decode = sample_decode,
     tl_kind = \<lambda>p. Missing, tl_script_text = \<lambda>p. Inl ''unreadable'', tl_dump = \<lambda>d. ''doc'', tl_write = \<lambda>p x. Inr (),
     tl_harness = sample_harness, tl_runner = sample_runner, tl_environ = sample_env\<rparr>"

definition sample_cli :: "(tables, unit) cli_state" where
  "sample_cli = \<lparr>cs_out = [], cs_log = [], cs_files = [], cs_run = sample_start, cs_validation = sample_vstate\<rparr>"

lemma sample_load_contracts: "load_contracts sample_tools ''c'' None = Inr [sample_node]"
  using sample_load by (simp add: load_contracts_def sample_tools_def)

lemma sample_lint_missing:
  "cli_main sample_tools (LintScripts [''gone.py'']) sample_cli
     = Some (Inr 1, sample_cli\<lparr>cs_log := [''gone.py: path does not exist'']\<rparr>)"
  by (simp add: cli_main_def dispatch_def cmd_lint_def lint_paths_def sample_tools_def sample_cli_def)

lemma sample_hash_run: "\<exists>s'. cli_main sample_tools (HashNodes ''c'' ''/repo'' None) sample_cli = Some (Inr 0, s')"
proof -
  obtain e where e: "wire_node sample_fs sample_tree sample_decode [''repo''] sample_node = Some (Inr e)"
    using sample_wire by blast
  have "path_of ''/repo'' = [''repo'']" by code_simp
  then show ?thesis
    by (simp add: cli_main_eq_Inr_0 dispatch_def cmd_hash_def wire_contract_of_def sample_load_contracts)
      (simp add: sample_tools_def build_wire_contract_def bind_run_def lift_def e)
qed

end
