(* ===== verification/DuckLayout.thy ===== *)
theory DuckLayout
  imports AdapterBase
begin

text \<open>
  The domain of the DuckDB adapter (\<^verbatim>\<open>adapters/duckdb/continuo_duckdb_adapter/domain\<close>): identifiers,
  typed columns, the layout of a DuckLake table. Everything is validated when it is built, so that what is
  rendered into SQL later has been checked: \<open>from_config_sound\<close> is the invariant of a layout,
  \<open>from_config_error_kind\<close> its errors, \<open>early_layout_weaker\<close> how the early check relates to the full one.
\<close>

section \<open>Identifiers\<close>

datatype lake_ident = Identifier (ident_name: string)

definition make_identifier :: "pyval \<Rightarrow> lake_ident res" where
  "make_identifier v = (case v of
     PStr s \<Rightarrow>
       if s = [] then raise_value (''identifier must be a non-empty string, got '' @ repr v)
       else if CHR 0x00 \<in> set s then raise_value ''identifier must not contain a NUL character''
       else Inr (Identifier s)
   | _ \<Rightarrow> raise_value (''identifier must be a non-empty string, got '' @ repr v))"

record qualified_table =
  qt_schema :: lake_ident
  qt_table :: lake_ident

definition qualified_table_of :: "string \<Rightarrow> string \<Rightarrow> qualified_table res" where
  "qualified_table_of schema tbl =
     bind_res (make_identifier (PStr schema)) (\<lambda>s. bind_res (make_identifier (PStr tbl)) (\<lambda>t.
     Inr \<lparr>qt_schema = s, qt_table = t\<rparr>))"

lemma make_identifier_Inr: "make_identifier v = Inr i \<longleftrightarrow> (\<exists>s. v = PStr s \<and> s \<noteq> [] \<and> CHR 0x00 \<notin> set s \<and> i = Identifier s)"
  by (cases v) (auto simp: make_identifier_def)

lemma make_identifier_Inl: "make_identifier v = Inl e \<Longrightarrow> exn_kind e = ValueError"
  by (cases v) (auto simp: make_identifier_def split: if_splits)

section \<open>Columns\<close>

definition is_temporal_type :: "string \<Rightarrow> bool" where
  "is_temporal_type type_str \<longleftrightarrow> ascii_upper type_str \<in> {''TIMESTAMP'', ''DATE''}"

record column_definition =
  cd_name :: lake_ident
  cd_type :: string
  cd_nullable :: bool

definition column_from_mapping :: "pyval \<Rightarrow> column_definition res" where
  "column_from_mapping raw = (case raw of
     PDict d \<Rightarrow>
       if has_key d ''name'' \<and> has_key d ''type'' then
         bind_res (make_identifier (get_or_none d ''name'')) (\<lambda>n.
         bind_res (string_item raw ''type'') (\<lambda>t.
         bind_res (validate_column_type t) (\<lambda>_.
         Inr \<lparr>cd_name = n, cd_type = t, cd_nullable = is_nullable raw\<rparr>)))
       else raise_value (''column must be a mapping with 'name' and 'type', got '' @ repr raw)
   | _ \<Rightarrow> raise_value (''column must be a mapping with 'name' and 'type', got '' @ repr raw))"

definition duck_columns :: "pyval list \<Rightarrow> column_definition list res" where
  "duck_columns raw = traverse column_from_mapping raw"

text \<open>A dictionary keeps the last value of a repeated key: the pairs stand here with the last one first.\<close>

type_synonym declared_types = "(string \<times> string option) list"

definition column_types :: "column_definition list \<Rightarrow> declared_types" where
  "column_types columns = rev (map (\<lambda>c. (ident_name (cd_name c), Some (cd_type c))) columns)"

lemma column_from_mapping_type:
  "column_from_mapping raw = Inr c \<Longrightarrow> validate_column_type (cd_type c) = Inr ()"
  by (auto simp: column_from_mapping_def res_simps split: pyval.splits if_splits)

section \<open>Partition and sort keys\<close>

definition duck_config_keys :: "string list" where "duck_config_keys = [''partitioned_by'', ''sorted_by'']"
definition partition_entry_keys :: "string list" where "partition_entry_keys = [''column'', ''transform'', ''buckets'']"
definition sort_entry_keys :: "string list" where "sort_entry_keys = [''column'', ''direction'', ''nulls'']"
definition duck_transforms :: "string list" where
  "duck_transforms = [''identity'', ''bucket'', ''year'', ''month'', ''day'', ''hour'']"
definition temporal_transforms :: "string list" where
  "temporal_transforms = [''year'', ''month'', ''day'', ''hour'']"
definition sort_directions :: "string list" where "sort_directions = [''asc'', ''desc'']"
definition null_orders :: "string list" where "null_orders = [''first'', ''last'']"

record partition_key =
  pk_column :: lake_ident
  pk_transform :: string
  pk_buckets :: "int option"

definition make_partition_key :: "lake_ident \<Rightarrow> pyval \<Rightarrow> pyval \<Rightarrow> partition_key res" where
  "make_partition_key column transform buckets =
     (case transform of
        PStr t \<Rightarrow>
          if t \<notin> set duck_transforms then
            raise_value (''unsupported partition 'transform' '' @ repr transform @ ''; supported: '' @ join '', '' duck_transforms)
          else if t = ''bucket'' then (case buckets of
              PInt i \<Rightarrow>
                if i < 1 then
                  raise_value (''partition transform 'bucket' requires 'buckets' as a positive integer, got '' @ repr buckets)
                else Inr \<lparr>pk_column = column, pk_transform = t, pk_buckets = Some i\<rparr>
            | _ \<Rightarrow> raise_value (''partition transform 'bucket' requires 'buckets' as a positive integer, got '' @ repr buckets))
          else if buckets \<noteq> PNone then raise_value (repr_str ''buckets'' @ '' is only valid with partition transform '' @ repr_str ''bucket'')
          else Inr \<lparr>pk_column = column, pk_transform = t, pk_buckets = None\<rparr>
      | _ \<Rightarrow> raise_value (''unsupported partition 'transform' '' @ repr transform @ ''; supported: '' @ join '', '' duck_transforms))"

record sort_col =
  sk_column :: lake_ident
  sk_descending :: bool
  sk_nulls_first :: "bool option"

record table_layout =
  tl_partition :: "partition_key list"
  tl_sort :: "sort_col list"

definition empty_layout :: table_layout where
  "empty_layout = \<lparr>tl_partition = [], tl_sort = []\<rparr>"

definition layout_is_empty :: "table_layout \<Rightarrow> bool" where
  "layout_is_empty l \<longleftrightarrow> tl_partition l = [] \<and> tl_sort l = []"

section \<open>The config block\<close>

definition entry_mapping :: "pyval \<Rightarrow> pyval" where
  "entry_mapping entry = (case entry of PStr s \<Rightarrow> PDict [(PStr ''column'', PStr s)] | _ \<Rightarrow> entry)"

definition entry_dict :: "pyval \<Rightarrow> pydict" where
  "entry_dict v = (case v of PDict d \<Rightarrow> d | _ \<Rightarrow> [])"

definition declared_column :: "pyval \<Rightarrow> declared_types \<Rightarrow> string \<Rightarrow> string res" where
  "declared_column v types place = (case v of
     PStr s \<Rightarrow>
       if s = [] then raise_value (place @ '' 'column' must be a non-empty column name, got '' @ repr v)
       else if map_of types s = None then
         raise_value (place @ '' names undeclared column '' @ repr v @ ''; declared columns: ''
           @ repr_strs (sorted_set (map fst types)))
       else Inr s
   | _ \<Rightarrow> raise_value (place @ '' 'column' must be a non-empty column name, got '' @ repr v))"

text \<open>A time transform needs a column of dates or timestamps, where the type is known.\<close>

definition temporal_ok :: "declared_types \<Rightarrow> partition_key \<Rightarrow> bool" where
  "temporal_ok types k \<longleftrightarrow> (case map_of types (ident_name (pk_column k)) of
     Some (Some t) \<Rightarrow> pk_transform k \<in> set temporal_transforms \<longrightarrow> is_temporal_type t | _ \<Rightarrow> True)"

definition partition_key_of :: "declared_types \<Rightarrow> pyval \<Rightarrow> partition_key res" where
  "partition_key_of types raw = (let entry = entry_mapping raw; place = ''config 'partitioned_by' entry'' in
     bind_res (ensure_known_keys entry partition_entry_keys ''duckdb'' place) (\<lambda>_.
     let d = entry_dict entry in
     bind_res (declared_column (get_or_none d ''column'') types place) (\<lambda>column.
     let transform = get_default d ''transform'' (PStr ''identity'') in
     bind_res (make_identifier (PStr column)) (\<lambda>i.
     bind_res (make_partition_key i transform (get_or_none d ''buckets'')) (\<lambda>key.
     bind_res (require (temporal_ok types key) (Exn ValueError
       (''partition transform '' @ repr transform @ '' needs a DATE or TIMESTAMP column, but '' @ repr_str column
        @ '' is '' @ (case map_of types column of Some (Some t) \<Rightarrow> t | _ \<Rightarrow> [])))) (\<lambda>_.
     Inr key))))))"

fun partition_keys_from :: "declared_types \<Rightarrow> partition_key list \<Rightarrow> pyval list \<Rightarrow> partition_key list res" where
  "partition_keys_from types keys [] = Inr keys"
| "partition_keys_from types keys (entry # es) =
     bind_res (partition_key_of types entry) (\<lambda>key.
     if key \<in> set keys then raise_value (''duplicate partition key: '' @ repr entry)
     else partition_keys_from types (keys @ [key]) es)"

definition layout_list :: "string \<Rightarrow> pyval \<Rightarrow> pyval list res" where
  "layout_list key raw = (case raw of
     PList es \<Rightarrow> if es = [] then raise_value (''config '' @ repr_str key @ '' must be a non-empty list, got '' @ repr raw) else Inr es
   | _ \<Rightarrow> raise_value (''config '' @ repr_str key @ '' must be a non-empty list, got '' @ repr raw))"

definition layout_choice :: "pyval \<Rightarrow> string list \<Rightarrow> string \<Rightarrow> string res" where
  "layout_choice v allowed key =
     (let bad = raise_value (''sort '' @ repr_str key @ '' must be one of '' @ join '', '' allowed @ '', got '' @ repr v) in
      case v of PStr s \<Rightarrow> if py_lower s \<in> set allowed then Inr (py_lower s) else bad | _ \<Rightarrow> bad)"

definition null_order :: "pyval \<Rightarrow> bool option res" where
  "null_order v = (if v = PNone then Inr None
     else bind_res (layout_choice v null_orders ''nulls'') (\<lambda>c. Inr (Some (c = ''first''))))"

definition sort_entry :: "declared_types \<Rightarrow> string list \<Rightarrow> pyval \<Rightarrow> sort_col res" where
  "sort_entry types seen raw = (let entry = entry_mapping raw; place = ''config 'sorted_by' entry'' in
     bind_res (ensure_known_keys entry sort_entry_keys ''duckdb'' place) (\<lambda>_.
     let d = entry_dict entry in
     bind_res (declared_column (get_or_none d ''column'') types place) (\<lambda>column.
     bind_res (require (column \<notin> set seen) (Exn ValueError (''duplicate sort column: '' @ repr_str column))) (\<lambda>_.
     bind_res (layout_choice (get_default d ''direction'' (PStr ''asc'')) sort_directions ''direction'') (\<lambda>direction.
     bind_res (null_order (get_or_none d ''nulls'')) (\<lambda>nulls_first.
     bind_res (make_identifier (PStr column)) (\<lambda>i.
     Inr \<lparr>sk_column = i, sk_descending = (direction = ''desc''), sk_nulls_first = nulls_first\<rparr>)))))))"

fun sort_keys_from :: "declared_types \<Rightarrow> string list \<Rightarrow> pyval list \<Rightarrow> sort_col list res" where
  "sort_keys_from types seen [] = Inr []"
| "sort_keys_from types seen (raw # es) =
     bind_res (sort_entry types seen raw) (\<lambda>k.
     bind_res (sort_keys_from types (ident_name (sk_column k) # seen) es) (\<lambda>ks. Inr (k # ks)))"

definition layout_part :: "pydict \<Rightarrow> string \<Rightarrow> (pyval list \<Rightarrow> 'a list res) \<Rightarrow> 'a list res" where
  "layout_part d key keys =
     (if has_key d key then bind_res (layout_list key (get_or_none d key)) keys else Inr [])"

definition layout_from_config :: "pyval \<Rightarrow> declared_types \<Rightarrow> table_layout res" where
  "layout_from_config config types =
     (if config = PNone then Inr empty_layout
      else bind_res (ensure_known_keys config duck_config_keys ''duckdb'' ''config'') (\<lambda>_.
      bind_res (layout_part (entry_dict config) ''partitioned_by'' (partition_keys_from types [])) (\<lambda>ps.
      bind_res (layout_part (entry_dict config) ''sorted_by'' (sort_keys_from types [])) (\<lambda>ss.
      Inr \<lparr>tl_partition = ps, tl_sort = ss\<rparr>))))"

section \<open>The invariant of a layout\<close>

definition partition_ok :: "declared_types \<Rightarrow> partition_key \<Rightarrow> bool" where
  "partition_ok types k \<longleftrightarrow> map_of types (ident_name (pk_column k)) \<noteq> None \<and> pk_transform k \<in> set duck_transforms
     \<and> (case pk_buckets k of None \<Rightarrow> pk_transform k \<noteq> ''bucket'' | Some b \<Rightarrow> pk_transform k = ''bucket'' \<and> 1 \<le> b)
     \<and> temporal_ok types k"

definition layout_ok :: "declared_types \<Rightarrow> table_layout \<Rightarrow> bool" where
  "layout_ok types l \<longleftrightarrow> list_all (partition_ok types) (tl_partition l) \<and> distinct (tl_partition l)
     \<and> list_all (\<lambda>k. map_of types (ident_name (sk_column k)) \<noteq> None) (tl_sort l)
     \<and> distinct (map (\<lambda>k. ident_name (sk_column k)) (tl_sort l))"

lemma declared_column_Inr: "declared_column v types place = Inr c \<longleftrightarrow> v = PStr c \<and> c \<noteq> [] \<and> map_of types c \<noteq> None"
  by (cases v) (auto simp: declared_column_def split: if_splits)

lemma make_partition_key_Inr:
  assumes "make_partition_key i t b = Inr k"
  shows "pk_column k = i \<and> t = PStr (pk_transform k) \<and> pk_transform k \<in> set duck_transforms
    \<and> (case pk_buckets k of None \<Rightarrow> pk_transform k \<noteq> ''bucket'' | Some n \<Rightarrow> pk_transform k = ''bucket'' \<and> 1 \<le> n)"
  using assms by (auto simp: make_partition_key_def split: pyval.splits if_splits)

lemma partition_key_of_ok: "partition_key_of types raw = Inr k \<Longrightarrow> partition_ok types k"
  by (auto simp: partition_key_of_def Let_def res_simps declared_column_Inr make_identifier_Inr partition_ok_def
      dest!: make_partition_key_Inr)

lemma partition_keys_from_ok:
  "partition_keys_from types keys es = Inr ks \<Longrightarrow> list_all (partition_ok types) keys \<Longrightarrow> distinct keys \<Longrightarrow>
     list_all (partition_ok types) ks \<and> distinct ks"
  by (induction es arbitrary: keys) (auto simp: res_simps split: if_splits dest: partition_key_of_ok)

lemma sort_entry_ok:
  "sort_entry types seen raw = Inr k \<Longrightarrow>
     map_of types (ident_name (sk_column k)) \<noteq> None \<and> ident_name (sk_column k) \<notin> set seen"
  by (auto simp: sort_entry_def Let_def res_simps declared_column_Inr make_identifier_Inr)

lemma sort_keys_from_ok:
  "sort_keys_from types seen es = Inr ks \<Longrightarrow>
     list_all (\<lambda>k. map_of types (ident_name (sk_column k)) \<noteq> None) ks
     \<and> distinct (map (\<lambda>k. ident_name (sk_column k)) ks) \<and> set (map (\<lambda>k. ident_name (sk_column k)) ks) \<inter> set seen = {}"
proof (induction es arbitrary: seen ks)
  case (Cons e es)
  from Cons.prems obtain k ks' where k: "sort_entry types seen e = Inr k"
    and ks: "sort_keys_from types (ident_name (sk_column k) # seen) es = Inr ks'" "ks = k # ks'"
    by (auto simp: res_simps)
  from Cons.IH [OF ks(1)] sort_entry_ok [OF k] show ?case using ks(2) by auto
qed simp

lemma layout_part_Inr:
  "layout_part d key keys = Inr ks \<longleftrightarrow>
     (if has_key d key then \<exists>es. get_or_none d key = PList es \<and> es \<noteq> [] \<and> keys es = Inr ks else ks = [])"
  by (cases "get_or_none d key") (auto simp: layout_part_def layout_list_def split: if_splits)

lemma layout_from_config_Inr:
  "layout_from_config config types = Inr l \<longleftrightarrow>
     (if config = PNone then l = empty_layout
      else ensure_known_keys config duck_config_keys ''duckdb'' ''config'' = Inr ()
        \<and> layout_part (entry_dict config) ''partitioned_by'' (partition_keys_from types []) = Inr (tl_partition l)
        \<and> layout_part (entry_dict config) ''sorted_by'' (sort_keys_from types []) = Inr (tl_sort l))"
  by (cases l) (auto simp: layout_from_config_def bind_res_eq_Inr)

lemma from_config_sound: "layout_from_config config types = Inr l \<Longrightarrow> layout_ok types l"
proof (cases "config = PNone")
  case True
  then show "layout_from_config config types = Inr l \<Longrightarrow> layout_ok types l"
    by (simp add: layout_from_config_Inr empty_layout_def layout_ok_def)
next
  case False
  assume "layout_from_config config types = Inr l"
  with False have p: "layout_part (entry_dict config) ''partitioned_by'' (partition_keys_from types []) = Inr (tl_partition l)"
    and s: "layout_part (entry_dict config) ''sorted_by'' (sort_keys_from types []) = Inr (tl_sort l)"
    by (simp_all add: layout_from_config_Inr)
  have "list_all (partition_ok types) (tl_partition l) \<and> distinct (tl_partition l)"
    using p partition_keys_from_ok [of types "[]"] by (auto simp: layout_part_Inr split: if_splits)
  moreover have "list_all (\<lambda>k. map_of types (ident_name (sk_column k)) \<noteq> None) (tl_sort l)
      \<and> distinct (map (\<lambda>k. ident_name (sk_column k)) (tl_sort l))"
    using s sort_keys_from_ok [of types "[]"] by (auto simp: layout_part_Inr split: if_splits)
  ultimately show "layout_ok types l" by (simp add: layout_ok_def)
qed

section \<open>Errors of a layout\<close>

lemma declared_column_Inl: "declared_column v types place = Inl e \<Longrightarrow> exn_kind e = ValueError"
  by (cases v) (auto simp: declared_column_def split: if_splits)

lemma make_partition_key_Inl: "make_partition_key i t b = Inl e \<Longrightarrow> exn_kind e = ValueError"
  by (auto simp: make_partition_key_def split: pyval.splits if_splits)

lemma layout_choice_Inl: "layout_choice v allowed key = Inl e \<Longrightarrow> exn_kind e = ValueError"
  by (auto simp: layout_choice_def Let_def split: pyval.splits if_splits)

lemma null_order_Inl: "null_order v = Inl e \<Longrightarrow> exn_kind e = ValueError"
  by (auto simp: null_order_def res_simps dest: layout_choice_Inl split: if_splits)

lemmas layout_errors = ensure_known_keys_eq_Inl declared_column_Inl make_partition_key_Inl make_identifier_Inl
  layout_choice_Inl null_order_Inl

lemma sort_entry_Inl: "sort_entry types seen raw = Inl e \<Longrightarrow> exn_kind e = ValueError"
  by (auto simp: sort_entry_def Let_def res_simps dest: layout_errors)

lemma partition_key_of_Inl: "partition_key_of types raw = Inl e \<Longrightarrow> exn_kind e = ValueError"
  by (auto simp: partition_key_of_def Let_def res_simps dest: layout_errors)

lemma partition_keys_from_Inl: "partition_keys_from types keys es = Inl e \<Longrightarrow> exn_kind e = ValueError"
  by (induction es arbitrary: keys) (auto simp: res_simps dest: partition_key_of_Inl split: if_splits)

lemma sort_keys_from_Inl: "sort_keys_from types seen es = Inl e \<Longrightarrow> exn_kind e = ValueError"
  by (induction es arbitrary: seen) (auto simp: res_simps dest: sort_entry_Inl)

lemma layout_part_Inl:
  "layout_part d key keys = Inl e \<Longrightarrow> (\<And>es e. keys es = Inl e \<Longrightarrow> exn_kind e = ValueError) \<Longrightarrow> exn_kind e = ValueError"
  by (cases "get_or_none d key") (auto simp: layout_part_def layout_list_def split: if_splits)

lemma from_config_error_kind: "layout_from_config config types = Inl e \<Longrightarrow> exn_kind e = ValueError"
  by (auto simp: layout_from_config_def res_simps dest: ensure_known_keys_eq_Inl split: if_splits
      dest!: layout_part_Inl intro: partition_keys_from_Inl sort_keys_from_Inl)

section \<open>The early check\<close>

text \<open>What the harness knows before it connects: the names alone.\<close>

definition names_only :: "declared_types \<Rightarrow> declared_types" where
  "names_only types = map (\<lambda>(n, t). (n, None)) types"

lemma map_of_names_only: "map_of (names_only types) n = (case map_of types n of None \<Rightarrow> None | Some t \<Rightarrow> Some None)"
  by (induction types) (auto simp: names_only_def)

lemma declared_column_names_only: "declared_column v (names_only types) place = declared_column v types place"
proof -
  have "map fst (names_only types) = map fst types" by (induction types) (auto simp: names_only_def)
  then show ?thesis by (auto simp: declared_column_def map_of_names_only split: pyval.splits option.splits)
qed

lemma temporal_names_only [simp]: "temporal_ok (names_only types) k"
  by (simp add: temporal_ok_def map_of_names_only split: option.splits)

lemma partition_key_of_typed:
  "partition_key_of types raw = Inr k \<longleftrightarrow> partition_key_of (names_only types) raw = Inr k \<and> temporal_ok types k"
  by (auto simp: partition_key_of_def Let_def res_simps declared_column_names_only)

lemma partition_keys_from_keep: "partition_keys_from types keys es = Inr ks \<Longrightarrow> set keys \<subseteq> set ks"
  by (induction es arbitrary: keys) (force simp: res_simps split: if_splits)+

lemma partition_keys_from_typed:
  "list_all (temporal_ok types) keys \<Longrightarrow> partition_keys_from types keys es = Inr ks \<longleftrightarrow>
     partition_keys_from (names_only types) keys es = Inr ks \<and> list_all (temporal_ok types) ks"
proof (induction es arbitrary: keys)
  case (Cons e es)
  have last: "temporal_ok types k" if "partition_keys_from (names_only types) (keys @ [k]) es = Inr ks" "list_all (temporal_ok types) ks" for k
    using partition_keys_from_keep [OF that(1)] that(2) by (auto simp: list_all_iff)
  show ?case using Cons last
    by (auto simp: bind_res_eq_Inr partition_key_of_typed [of types] split: if_splits)
qed auto

lemma sort_keys_from_names_only: "sort_keys_from (names_only types) seen es = sort_keys_from types seen es"
  by (induction es arbitrary: seen) (simp_all add: sort_entry_def declared_column_names_only)

lemma early_layout_weaker:
  "layout_from_config config types = Inr l \<longleftrightarrow>
     layout_from_config config (names_only types) = Inr l \<and> list_all (temporal_ok types) (tl_partition l)"
proof -
  have part: "layout_part d k (partition_keys_from types []) = Inr ps \<longleftrightarrow>
      layout_part d k (partition_keys_from (names_only types) []) = Inr ps \<and> list_all (temporal_ok types) ps" for d k ps
    by (auto simp: layout_part_Inr partition_keys_from_typed [of types "[]"])
  have sort: "sort_keys_from (names_only types) [] = sort_keys_from types []"
    by (simp add: fun_eq_iff sort_keys_from_names_only)
  show ?thesis
    by (auto simp: layout_from_config_def empty_layout_def bind_res_eq_Inr part sort)
qed

end
