(* ===== verification/Redaction.thy ===== *)
theory Redaction
  imports Effects
begin

text \<open>
  \<^verbatim>\<open>str.replace\<close> with a pattern of several characters, and the masking of secrets it is used for: after
  the replacements, no secret without an asterisk occurs in the text, whatever the text is and however the
  other secrets overlap with it.
\<close>

section \<open>Replacing a pattern\<close>

text \<open>The occurrences from left to right, without overlap; \<open>skip\<close> counts the rest of the one just replaced.\<close>

fun replace_from :: "string \<Rightarrow> string \<Rightarrow> nat \<Rightarrow> string \<Rightarrow> string" where
  "replace_from p r skip [] = []"
| "replace_from p r (Suc skip) (c # s) = replace_from p r skip s"
| "replace_from p r 0 (c # s) =
     (if starts_with p (c # s) then r @ replace_from p r (length p - 1) s else c # replace_from p r 0 s)"

definition replace_text :: "string \<Rightarrow> string \<Rightarrow> string \<Rightarrow> string" where
  "replace_text p r s = replace_from p r 0 s"

definition mask :: string where "mask = ''***''"

definition redact :: "string list \<Rightarrow> string \<Rightarrow> string" where
  "redact secrets message = fold (\<lambda>s m. if s = [] then m else replace_text s mask m) secrets message"

section \<open>What is left after masking\<close>

definition star_free :: "string \<Rightarrow> bool" where
  "star_free s \<longleftrightarrow> CHR ''*'' \<notin> set s"

lemma starts_with_Nil [simp]: "starts_with [] s"
  by (simp add: starts_with_def)

lemma starts_with_Cons [simp]: "starts_with (p # ps) (c # s) \<longleftrightarrow> p = c \<and> starts_with ps s" "\<not> starts_with (p # ps) []"
  by (auto simp: starts_with_def)

lemma contains_Nil [simp]: "contains [] s"
  by (cases s) simp_all

text \<open>An occurrence without an asterisk cannot overlap a mask.\<close>

lemma contains_past_mask: "star_free s \<Longrightarrow> s \<noteq> [] \<Longrightarrow> contains s (mask @ m) \<longleftrightarrow> contains s m"
  by (cases s) (auto simp: star_free_def mask_def)

lemma starts_with_replaced:
  "star_free s \<Longrightarrow> starts_with s (replace_from p mask 0 m) \<Longrightarrow> starts_with s m"
proof (induction m arbitrary: s)
  case (Cons c m)
  show ?case
  proof (cases s)
    case (Cons d t)
    show ?thesis
    proof (cases "starts_with p (c # m)")
      case True
      then have "d = CHR ''*''" using Cons.prems(2) \<open>s = d # t\<close> by (simp add: mask_def)
      then show ?thesis using Cons.prems(1) \<open>s = d # t\<close> by (simp add: star_free_def)
    next
      case False
      then have "d = c" "starts_with t (replace_from p mask 0 m)" using Cons.prems(2) \<open>s = d # t\<close> by simp_all
      moreover have "star_free t" using Cons.prems(1) \<open>s = d # t\<close> by (simp add: star_free_def)
      ultimately show ?thesis using Cons.IH \<open>s = d # t\<close> by simp
    qed
  qed simp
qed simp

lemma contains_drop: "contains s (drop n m) \<Longrightarrow> contains s m"
  using contains_append [of s "drop n m" "take n m" "[]"] by simp

text \<open>Masking brings no secret into a text that had none.\<close>

lemma contains_replaced:
  "star_free s \<Longrightarrow> s \<noteq> [] \<Longrightarrow> contains s (replace_from p mask k m) \<Longrightarrow> contains s m"
proof (induction p mask k m rule: replace_from.induct)
  case (2 p k c m)
  then show ?case by simp
next
  case (3 p c m)
  show ?case
  proof (cases "starts_with p (c # m)")
    case True
    then show ?thesis using 3 by (simp add: contains_past_mask)
  next
    case False
    have "starts_with s (c # replace_from p mask 0 m) \<Longrightarrow> starts_with s (c # m)"
      using starts_with_replaced [OF "3.prems"(1), of p "c # m"] False by simp
    then show ?thesis using 3 False by auto
  qed
qed simp

text \<open>The pattern itself is gone.\<close>

lemma replaced_free: "star_free p \<Longrightarrow> p \<noteq> [] \<Longrightarrow> \<not> contains p (replace_from p mask k m)"
proof (induction p mask k m rule: replace_from.induct)
  case (3 p c m)
  show ?case
  proof (cases "starts_with p (c # m)")
    case True
    then show ?thesis using 3 by (simp add: contains_past_mask)
  next
    case False
    moreover have "\<not> starts_with p (c # replace_from p mask 0 m)"
      using starts_with_replaced [OF "3.prems"(1), of p "c # m"] False by auto
    ultimately show ?thesis using 3 by simp
  qed
qed simp_all

lemma redact_keeps_free: "star_free s \<Longrightarrow> s \<noteq> [] \<Longrightarrow> \<not> contains s m \<Longrightarrow> \<not> contains s (redact secrets m)"
  by (induction secrets arbitrary: m) (auto simp: redact_def replace_text_def dest: contains_replaced)

lemma redact_free:
  "s \<in> set secrets \<Longrightarrow> star_free s \<Longrightarrow> s \<noteq> [] \<Longrightarrow> \<not> contains s (redact secrets m)"
proof (induction secrets arbitrary: m)
  case (Cons x xs)
  show ?case
  proof (cases "x = s")
    case True
    then have "\<not> contains s (redact xs (replace_text s mask m))"
      using Cons.prems by (intro redact_keeps_free) (simp_all add: replace_text_def replaced_free)
    then show ?thesis using True Cons.prems by (simp add: redact_def)
  next
    case False
    then show ?thesis using Cons by (auto simp: redact_def)
  qed
qed simp

end
