(* ===== verification/DuckDdl.thy ===== *)
theory DuckDdl
  imports DuckLayout Redaction SqlScan
begin

text \<open>
  The settings of one DuckLake (\<^verbatim>\<open>infrastructure/settings.py\<close>), the text of every statement
  (\<^verbatim>\<open>infrastructure/ddl.py\<close>), which extensions a session loads (\<^verbatim>\<open>infrastructure/extensions.py\<close>) and
  the line of a passfile (\<^verbatim>\<open>infrastructure/passfile.py\<close>). What carries a credential is read back by a
  reference reader of its syntax: no setting can end its value early or add a keyword.
\<close>

section \<open>Settings\<close>

record lake_settings =
  ls_host :: string
  ls_port :: string
  ls_db :: string
  ls_user :: string
  ls_password :: string
  ls_data_path :: string
  ls_endpoint :: "string option"
  ls_access_key_id :: "string option"
  ls_secret_access_key :: "string option"
  ls_region :: string
  ls_url_style :: string
  ls_use_ssl :: bool
  ls_extension_directory :: "string option"
  ls_temp_directory :: "string option"
  ls_inlining_limit :: "int option"

definition duck_required_env :: "string list" where
  "duck_required_env = [''DUCKDB_CATALOG_HOST'', ''DUCKDB_CATALOG_DB'', ''DUCKDB_CATALOG_USER'', ''DUCKDB_DATA_PATH'']"

definition url_styles :: "string list" where "url_styles = [''path'', ''vhost'']"
definition true_words :: "string list" where "true_words = [''true'', ''1'', ''yes'']"
definition false_words :: "string list" where "false_words = [''false'', ''0'', ''no'']"

definition is_ascii_digits :: "string \<Rightarrow> bool" where
  "is_ascii_digits v \<longleftrightarrow> v \<noteq> [] \<and> list_all is_digit v"

text \<open>\<^verbatim>\<open>env.get(name) or None\<close>, \<^verbatim>\<open>env.get(name) or default\<close>, and a variable that must be set.\<close>

definition env_optional :: "(string \<Rightarrow> string option) \<Rightarrow> string \<Rightarrow> string option" where
  "env_optional env name = (case env name of Some v \<Rightarrow> if v = [] then None else Some v | None \<Rightarrow> None)"

definition env_nonempty :: "(string \<Rightarrow> string option) \<Rightarrow> string \<Rightarrow> string \<Rightarrow> string" where
  "env_nonempty env name default_value = (case env_optional env name of Some v \<Rightarrow> v | None \<Rightarrow> default_value)"

definition env_need :: "(string \<Rightarrow> string option) \<Rightarrow> string \<Rightarrow> string res" where
  "env_need env name = (case env_optional env name of
     Some v \<Rightarrow> Inr v | None \<Rightarrow> raise_value (''missing required env var '' @ name))"

text \<open>\<^verbatim>\<open>if value\<close> for an optional text.\<close>

definition is_set :: "string option \<Rightarrow> bool" where
  "is_set v = (case v of Some t \<Rightarrow> t \<noteq> [] | None \<Rightarrow> False)"

definition uses_s3 :: "lake_settings \<Rightarrow> bool" where
  "uses_s3 s = starts_with ''s3://'' (ls_data_path s)"

text \<open>\<^verbatim>\<open>int(text)\<close> of ASCII digits; the interpreter refuses more than 4300 of them.\<close>

definition limit_of_digits :: "string \<Rightarrow> int res" where
  "limit_of_digits digits = (if 4300 < length digits
     then raise_value (''Exceeds the limit (4300 digits) for integer string conversion: value has ''
       @ nat_str (length digits) @ '' digits; use sys.set_int_max_str_digits() to increase the limit'')
     else Inr (int (digits_val digits)))"

definition lake_settings_from_env :: "(string \<Rightarrow> string option) \<Rightarrow> lake_settings res" where
  "lake_settings_from_env env =
     (let port = env_nonempty env ''DUCKDB_CATALOG_PORT'' ''5432'';
          limit_raw = env_optional env ''DUCKDB_DATA_INLINING_ROW_LIMIT'';
          endpoint = env_optional env ''DUCKDB_S3_ENDPOINT'';
          url_style = env_nonempty env ''DUCKDB_S3_URL_STYLE'' (if endpoint \<noteq> None then ''path'' else ''vhost'');
          ssl_word = py_lower (env_nonempty env ''DUCKDB_S3_USE_SSL'' ''true'');
          access_key_id = env_optional env ''DUCKDB_S3_ACCESS_KEY_ID'';
          secret_access_key = env_optional env ''DUCKDB_S3_SECRET_ACCESS_KEY'' in
      bind_res (require (is_ascii_digits port)
        (Exn ValueError (''DUCKDB_CATALOG_PORT must be a port number, got '' @ repr_str port))) (\<lambda>_.
      bind_res (require (case limit_raw of Some l \<Rightarrow> is_ascii_digits l | None \<Rightarrow> True)
        (Exn ValueError (''DUCKDB_DATA_INLINING_ROW_LIMIT must be a non-negative integer, got ''
          @ (case limit_raw of Some l \<Rightarrow> repr_str l | None \<Rightarrow> '''')))) (\<lambda>_.
      bind_res (require (url_style \<in> set url_styles)
        (Exn ValueError (''DUCKDB_S3_URL_STYLE must be one of ('' @ join '', '' (map repr_str url_styles) @ ''), got '' @ repr_str url_style))) (\<lambda>_.
      bind_res (require (ssl_word \<in> set (true_words @ false_words))
        (Exn ValueError (''DUCKDB_S3_USE_SSL must be one of '' @ join '', '' (true_words @ false_words) @ '', got ''
          @ (case env ''DUCKDB_S3_USE_SSL'' of Some v \<Rightarrow> repr_str v | None \<Rightarrow> ''None'')))) (\<lambda>_.
      bind_res (require ((access_key_id = None) = (secret_access_key = None))
        (Exn ValueError ''DUCKDB_S3_ACCESS_KEY_ID and DUCKDB_S3_SECRET_ACCESS_KEY: set both or neither'')) (\<lambda>_.
      bind_res (env_need env ''DUCKDB_CATALOG_HOST'') (\<lambda>host.
      bind_res (env_need env ''DUCKDB_CATALOG_DB'') (\<lambda>db.
      bind_res (env_need env ''DUCKDB_CATALOG_USER'') (\<lambda>user.
      bind_res (env_need env ''DUCKDB_DATA_PATH'') (\<lambda>data_path.
      bind_res (case limit_raw of None \<Rightarrow> Inr None | Some l \<Rightarrow> bind_res (limit_of_digits l) (\<lambda>n. Inr (Some n))) (\<lambda>limit.
      Inr \<lparr>ls_host = host, ls_port = port, ls_db = db, ls_user = user,
        ls_password = env_or env ''DUCKDB_CATALOG_PASSWORD'' [], ls_data_path = data_path, ls_endpoint = endpoint,
        ls_access_key_id = access_key_id, ls_secret_access_key = secret_access_key,
        ls_region = env_nonempty env ''DUCKDB_S3_REGION'' ''us-east-1'', ls_url_style = url_style,
        ls_use_ssl = (ssl_word \<in> set true_words), ls_extension_directory = env_optional env ''DUCKDB_EXTENSION_DIRECTORY'',
        ls_temp_directory = env_optional env ''DUCKDB_TEMP_DIRECTORY'', ls_inlining_limit = limit\<rparr>)))))))))))"

text \<open>\<^verbatim>\<open>aws\<close> only where the credentials come from the provider chain.\<close>

definition duck_extensions :: "string list" where
  "duck_extensions = [''ducklake'', ''postgres'', ''httpfs'', ''aws'']"

definition extensions_to_load :: "lake_settings \<Rightarrow> string list" where
  "extensions_to_load s =
     (let chain = uses_s3 s \<and> \<not> (is_set (ls_access_key_id s) \<and> is_set (ls_secret_access_key s)) in
      filter (\<lambda>name. name \<noteq> ''aws'' \<or> chain) duck_extensions)"

section \<open>Statements\<close>

definition sql_begin :: string where "sql_begin = ''BEGIN''"
definition sql_begin_read_only :: string where "sql_begin_read_only = ''BEGIN TRANSACTION READ ONLY''"
definition sql_commit :: string where "sql_commit = ''COMMIT''"
definition sql_rollback :: string where "sql_rollback = ''ROLLBACK''"

definition quote_identifier :: "string \<Rightarrow> string" where
  "quote_identifier name = quoted quote2 name"

definition sql_literal :: "string \<Rightarrow> string" where
  "sql_literal v = quoted quote1 v"

definition same_identifier :: "string \<Rightarrow> string \<Rightarrow> bool" where
  "same_identifier left right \<longleftrightarrow> ascii_lower left = ascii_lower right"

definition load_extension :: "string \<Rightarrow> string" where
  "load_extension name = ''LOAD '' @ quote_identifier name"

definition install_extension :: "string \<Rightarrow> string" where
  "install_extension name = ''INSTALL '' @ quote_identifier name"

definition set_extension_directory :: "string \<Rightarrow> string" where
  "set_extension_directory directory = ''SET extension_directory = '' @ sql_literal directory"

definition set_temp_directory :: "string \<Rightarrow> string" where
  "set_temp_directory directory = ''SET temp_directory = '' @ sql_literal directory"

definition disable_extension_autoinstall :: string where
  "disable_extension_autoinstall = ''SET autoinstall_known_extensions = false''"

definition use_catalog :: "string \<Rightarrow> string" where
  "use_catalog catalog = ''USE '' @ quote_identifier catalog"

definition libpq_bare_char :: "char \<Rightarrow> bool" where
  "libpq_bare_char c \<longleftrightarrow> is_upper c \<or> is_lower c \<or> is_digit c \<or> c \<in> set ''_.:/-''"

definition libpq_value :: "string \<Rightarrow> string" where
  "libpq_value v = (if v \<noteq> [] \<and> list_all libpq_bare_char v then v
     else quote1 # replace_char quote1 [backslash, quote1] (replace_char backslash [backslash, backslash] v) @ [quote1])"

text \<open>The spellings of one credential, and of all of them, longest first; ties keep the order they are met in.\<close>

definition spellings :: "string \<Rightarrow> string list" where
  "spellings secret = (let conn_text = libpq_value secret in
     [secret, conn_text, replace_char quote1 [quote1, quote1] conn_text, replace_char quote1 [quote1, quote1] secret])"

definition secret_texts :: "lake_settings \<Rightarrow> string list" where
  "secret_texts s = rev (sort_key length (remdups (concat (map spellings
     (filter (\<lambda>t. t \<noteq> []) [ls_password s, case ls_secret_access_key s of Some k \<Rightarrow> k | None \<Rightarrow> []])))))"

definition conn_keywords :: "lake_settings \<Rightarrow> string option \<Rightarrow> (string \<times> string) list" where
  "conn_keywords s passfile = [(''host'', ls_host s), (''port'', ls_port s), (''dbname'', ls_db s), (''user'', ls_user s),
     (if is_set passfile then (''passfile'', the passfile) else (''password'', ls_password s))]"

definition conninfo :: "lake_settings \<Rightarrow> string option \<Rightarrow> string" where
  "conninfo s passfile = join '' '' (map (\<lambda>(k, v). k @ ''='' @ libpq_value v) (conn_keywords s passfile))"

definition attach_statement :: "lake_settings \<Rightarrow> string \<Rightarrow> string option \<Rightarrow> string" where
  "attach_statement s catalog passfile =
     (let options = (''DATA_PATH '' @ sql_literal (ls_data_path s))
            # (case ls_inlining_limit s of Some n \<Rightarrow> [''DATA_INLINING_ROW_LIMIT '' @ int_str n] | None \<Rightarrow> []) in
      ''ATTACH '' @ sql_literal (''ducklake:postgres:'' @ conninfo s passfile) @ '' AS '' @ quote_identifier catalog
      @ '' ('' @ join '', '' options @ '')'')"

definition s3_secret_statement :: "lake_settings \<Rightarrow> string" where
  "s3_secret_statement s = ''CREATE OR REPLACE SECRET continuo_s3 ('' @ join '', ''
     ([''TYPE S3'']
      @ (if is_set (ls_access_key_id s) \<and> is_set (ls_secret_access_key s) then
           [''KEY_ID '' @ sql_literal (the (ls_access_key_id s)), ''SECRET '' @ sql_literal (the (ls_secret_access_key s))]
         else [''PROVIDER credential_chain''])
      @ (if is_set (ls_endpoint s) then [''ENDPOINT '' @ sql_literal (the (ls_endpoint s))] else [])
      @ [''REGION '' @ sql_literal (ls_region s), ''URL_STYLE '' @ sql_literal (ls_url_style s),
         ''USE_SSL '' @ (if ls_use_ssl s then ''true'' else ''false'')]) @ '')''"

section \<open>The renderer\<close>

definition table_exists_query :: string where
  "table_exists_query = ''SELECT schema_name, table_name FROM duckdb_tables() ''
     @ ''WHERE lower(database_name) = lower(?) AND lower(schema_name) = lower(?) ''
     @ ''AND lower(table_name) = lower(?)''"

definition columns_query :: string where
  "columns_query = ''SELECT schema_name, table_name, column_name, is_nullable FROM duckdb_columns() ''
     @ ''WHERE lower(database_name) = lower(?) AND lower(schema_name) = lower(?) ''
     @ ''AND lower(table_name) = lower(?) ORDER BY column_index''"

definition lake_schema_ref :: "string \<Rightarrow> lake_ident \<Rightarrow> string" where
  "lake_schema_ref catalog schema = quote_identifier catalog @ ''.'' @ quote_identifier (ident_name schema)"

definition lake_table_ref :: "string \<Rightarrow> qualified_table \<Rightarrow> string" where
  "lake_table_ref catalog t = lake_schema_ref catalog (qt_schema t) @ ''.'' @ quote_identifier (ident_name (qt_table t))"

definition create_schema_sql :: "string \<Rightarrow> lake_ident \<Rightarrow> string" where
  "create_schema_sql catalog schema = ''CREATE SCHEMA IF NOT EXISTS '' @ lake_schema_ref catalog schema"

definition drop_schema_sql :: "string \<Rightarrow> lake_ident \<Rightarrow> string" where
  "drop_schema_sql catalog schema = ''DROP SCHEMA IF EXISTS '' @ lake_schema_ref catalog schema @ '' CASCADE''"

definition lake_drop_table :: "string \<Rightarrow> qualified_table \<Rightarrow> string" where
  "lake_drop_table catalog t = ''DROP TABLE IF EXISTS '' @ lake_table_ref catalog t"

definition lake_create_table :: "string \<Rightarrow> qualified_table \<Rightarrow> column_definition list \<Rightarrow> bool \<Rightarrow> string" where
  "lake_create_table catalog t columns if_not_exists =
     ''CREATE TABLE'' @ (if if_not_exists then '' IF NOT EXISTS'' else '''') @ '' '' @ lake_table_ref catalog t @ '' (''
     @ join '', '' (map (\<lambda>c. quote_identifier (ident_name (cd_name c)) @ '' '' @ cd_type c
         @ (if cd_nullable c then '''' else '' NOT NULL'')) columns) @ '')''"

definition create_as_sql :: "string \<Rightarrow> qualified_table \<Rightarrow> string \<Rightarrow> string" where
  "create_as_sql catalog t select_sql =
     ''CREATE TABLE '' @ lake_table_ref catalog t @ '' AS ('' @ [newline] @ select_sql @ [newline] @ '') WITH NO DATA''"

definition create_clone_sql :: "string \<Rightarrow> qualified_table \<Rightarrow> qualified_table \<Rightarrow> string" where
  "create_clone_sql catalog target source =
     ''CREATE TABLE '' @ lake_table_ref catalog target @ '' AS SELECT * FROM '' @ lake_table_ref catalog source @ '' WHERE false''"

definition render_partition :: "partition_key \<Rightarrow> string" where
  "render_partition key = (let column = quote_identifier (ident_name (pk_column key)) in
     if pk_transform key = ''identity'' then column
     else if pk_transform key = ''bucket'' then
       ''bucket('' @ (case pk_buckets key of Some b \<Rightarrow> int_str b | None \<Rightarrow> ''None'') @ '', '' @ column @ '')''
     else pk_transform key @ ''('' @ column @ '')'')"

definition render_sort :: "sort_col \<Rightarrow> string" where
  "render_sort key = quote_identifier (ident_name (sk_column key)) @ '' '' @ (if sk_descending key then ''DESC'' else ''ASC'')
     @ (case sk_nulls_first key of Some b \<Rightarrow> if b then '' NULLS FIRST'' else '' NULLS LAST'' | None \<Rightarrow> '''')"

definition set_partitioned_sql :: "string \<Rightarrow> qualified_table \<Rightarrow> partition_key list \<Rightarrow> string" where
  "set_partitioned_sql catalog t keys =
     ''ALTER TABLE '' @ lake_table_ref catalog t @ '' SET PARTITIONED BY ('' @ join '', '' (map render_partition keys) @ '')''"

definition set_sorted_sql :: "string \<Rightarrow> qualified_table \<Rightarrow> sort_col list \<Rightarrow> string" where
  "set_sorted_sql catalog t keys =
     ''ALTER TABLE '' @ lake_table_ref catalog t @ '' SET SORTED BY ('' @ join '', '' (map render_sort keys) @ '')''"

definition explain_read_sql :: "string \<Rightarrow> string" where
  "explain_read_sql sql = ''EXPLAIN SELECT * FROM ('' @ [newline] @ sql @ [newline] @ '') AS __check_binds__''"

definition delete_all_sql :: "string \<Rightarrow> qualified_table \<Rightarrow> string" where
  "delete_all_sql catalog t = ''DELETE FROM '' @ lake_table_ref catalog t"

definition insert_select_sql :: "string \<Rightarrow> qualified_table \<Rightarrow> string list \<Rightarrow> string \<Rightarrow> string" where
  "insert_select_sql catalog t names source = (let cols = join '', '' (map quote_identifier names) in
     ''INSERT INTO '' @ lake_table_ref catalog t @ '' ('' @ cols @ '') SELECT '' @ cols @ '' FROM '' @ quote_identifier source)"

definition merge_from_sql :: "string \<Rightarrow> qualified_table \<Rightarrow> string list \<Rightarrow> string list \<Rightarrow> string \<Rightarrow> string res" where
  "merge_from_sql catalog t names key source =
     (if key = [] then raise_value ''merge_from needs a non-empty key''
      else let on = join '' AND '' (map (\<lambda>n. ''t.'' @ quote_identifier n @ '' = s.'' @ quote_identifier n) key);
               updates = filter (\<lambda>n. n \<notin> set key) names;
               matched = (if updates = [] then '''' else '' WHEN MATCHED THEN UPDATE SET ''
                 @ join '', '' (map (\<lambda>n. quote_identifier n @ '' = s.'' @ quote_identifier n) updates));
               cols = join '', '' (map quote_identifier names);
               vals = join '', '' (map (\<lambda>n. ''s.'' @ quote_identifier n) names) in
        Inr (''MERGE INTO '' @ lake_table_ref catalog t @ '' AS t USING '' @ quote_identifier source @ '' AS s ''
          @ ''ON ('' @ on @ '')'' @ matched @ '' WHEN NOT MATCHED THEN INSERT ('' @ cols @ '') VALUES ('' @ vals @ '')''))"

section \<open>The passfile\<close>

definition passfile_escape :: "string \<Rightarrow> string" where
  "passfile_escape field = replace_char (CHR '':'') [backslash, CHR '':''] (replace_char backslash [backslash, backslash] field)"

definition can_store :: "string \<Rightarrow> bool" where
  "can_store password \<longleftrightarrow> password \<noteq> [] \<and> newline \<notin> set password \<and> carriage_return \<notin> set password"

definition passfile_line :: "string \<Rightarrow> string" where
  "passfile_line password = ''*:*:*:*:'' @ passfile_escape password @ [newline]"

end
