(* ===== verification/DuckSession.thy ===== *)
theory DuckSession
  imports DuckDdl Postgres Redaction
begin

text \<open>
  \<^verbatim>\<open>DuckLakeSession\<close> (\<^verbatim>\<open>adapters/duckdb/continuo_duckdb_adapter/infrastructure/session.py\<close>), with the
  passfile and the offline check. The \<^verbatim>\<open>duckdb\<close> module and a connection of it are parameters: what a
  statement does and returns, the registration of a view, which exceptions are the module's. So are the
  temporary files of the operating system.
\<close>

section \<open>The module and its connections\<close>

record 'w duck_con =
  dk_exec :: "string \<Rightarrow> pyval list option \<Rightarrow> ('w, pyval list list) op"
  dk_arrow :: "string \<Rightarrow> ('w, arrow_table) op"
  dk_register :: "string \<Rightarrow> arrow_table \<Rightarrow> ('w, unit) op"
  dk_unregister :: "string \<Rightarrow> ('w, unit) op"
  dk_close :: "('w, unit) op"

text \<open>
  \<open>dm_error\<close> is \<^verbatim>\<open>isinstance(exc, duckdb.Error)\<close>, \<open>dm_conflict\<close> the same for
  \<^verbatim>\<open>duckdb.TransactionException\<close>, a subclass; \<open>dm_rebuilds\<close> is whether the class of an exception can be
  called with a single message.
\<close>

record 'w duck_module =
  dm_connect :: "('w, 'w duck_con) op"
  dm_error :: "exn \<Rightarrow> bool"
  dm_conflict :: "exn \<Rightarrow> bool"
  dm_rebuilds :: "exn_class \<Rightarrow> bool"
  dm_token :: "('w, string) op"

section \<open>Errors\<close>

definition conflict_class :: exn_class where "conflict_class = OtherError ''LakeConflictError''"

definition is_first_attach_race :: "string \<Rightarrow> bool" where
  "is_first_attach_race message \<longleftrightarrow> contains ''Failed to initialize DuckLake'' message
     \<and> (contains ''duplicate'' (py_lower message) \<or> contains ''already exists'' (py_lower message))"

text \<open>The same text of libpq as the Postgres adapter reads, and the same reasons.\<close>

definition is_catalog_unreachable :: "string \<Rightarrow> bool" where
  "is_catalog_unreachable message = (let reasons = map strip (address_failures 0 message) in
     reasons \<noteq> [] \<and> list_all (\<lambda>r. r \<in> set unreachable_reasons) reasons
     \<and> \<not> contains ''FATAL:'' message \<and> \<not> contains ''timeout expired'' message)"

definition translate :: "'w duck_module \<Rightarrow> string list \<Rightarrow> bool \<Rightarrow> exn \<Rightarrow> exn" where
  "translate m secrets conflicts e = (let message = redact secrets (exn_text e) in
     if conflicts \<and> dm_conflict m e then Exn conflict_class message
     else if dm_rebuilds m (exn_kind e) then Exn (exn_kind e) message
     else Exn (OtherError ''Error'') message)"

definition guarded :: "'w duck_module \<Rightarrow> string list \<Rightarrow> bool \<Rightarrow> ('w, 'a) op \<Rightarrow> ('w, 'a) op" where
  "guarded m secrets conflicts body =
     op_except body (\<lambda>e. op_raise (if dm_error m e then translate m secrets conflicts e else e))"

section \<open>Passfiles\<close>

text \<open>
  The temporary directory: a new private file, its text, its removal. \<open>td_os_error\<close> and \<open>td_missing\<close> are
  \<^verbatim>\<open>OSError\<close> and \<^verbatim>\<open>FileNotFoundError\<close>. A file that is open when the interpreter exits is removed by a
  hook, which has no part in what follows.
\<close>

record 'w temp_dir =
  td_create :: "('w, string) op"
  td_write :: "string \<Rightarrow> string \<Rightarrow> ('w, unit) op"
  td_unlink :: "string \<Rightarrow> ('w, unit) op"
  td_os_error :: "exn \<Rightarrow> bool"
  td_missing :: "exn \<Rightarrow> bool"

definition close_passfile :: "'w temp_dir \<Rightarrow> string \<Rightarrow> ('w, unit) op" where
  "close_passfile td path = op_except (td_unlink td path) (\<lambda>e. if td_missing td e then op_return () else op_raise e)"

definition close_if_open :: "'w temp_dir \<Rightarrow> string option \<Rightarrow> ('w, unit) op" where
  "close_if_open td passfile = (case passfile of Some path \<Rightarrow> close_passfile td path | None \<Rightarrow> op_return ())"

definition make_passfile :: "'w temp_dir \<Rightarrow> string \<Rightarrow> ('w, string) op" where
  "make_passfile td password =
     op_bind (td_create td) (\<lambda>path.
     op_then (op_except (td_write td path (passfile_line password))
         (\<lambda>e. op_then (close_passfile td path) (op_raise e)))
       (op_return path))"

definition open_passfile :: "'w temp_dir \<Rightarrow> (string \<Rightarrow> string option) \<Rightarrow> string \<Rightarrow> ('w, string option) op" where
  "open_passfile td env password =
     (if \<not> can_store password then op_return None
      else if env ''PGPASSWORD'' \<noteq> None then op_return None
      else op_except (op_bind (make_passfile td password) (\<lambda>path. op_return (Some path)))
        (\<lambda>e. if td_os_error td e then op_return None else op_raise e))"

section \<open>Opening a session\<close>

definition catalog_alias :: string where "catalog_alias = ''lake''"
definition attach_attempts :: nat where "attach_attempts = 5"
definition attach_backoff_seconds :: rat where "attach_backoff_seconds = 1 / 5"
definition unreachable_retry_seconds :: rat where "unreachable_retry_seconds = 2"

definition con_run :: "'w duck_con \<Rightarrow> string \<Rightarrow> ('w, unit) op" where
  "con_run con sql = op_then (dk_exec con sql None) (op_return ())"

definition load_or_install :: "'w duck_module \<Rightarrow> 'w duck_con \<Rightarrow> string \<Rightarrow> ('w, unit) op" where
  "load_or_install m con name =
     op_except (con_run con (load_extension name))
       (\<lambda>e. if dm_error m e then op_then (con_run con (install_extension name)) (con_run con (load_extension name))
            else op_raise e)"

text \<open>\<^verbatim>\<open>_open\<close>: the statements on a fresh connection, which is closed when one of them raises.\<close>

definition attach_con :: "'w duck_module \<Rightarrow> lake_settings \<Rightarrow> string option \<Rightarrow> 'w duck_con \<Rightarrow> ('w, unit) op" where
  "attach_con m s passfile con =
     op_then (if is_set (ls_extension_directory s) then con_run con (set_extension_directory (the (ls_extension_directory s)))
              else op_return ())
     (op_then (if is_set (ls_temp_directory s) then con_run con (set_temp_directory (the (ls_temp_directory s)))
               else op_return ())
     (op_then (op_each (load_or_install m con) (extensions_to_load s))
     (op_then (if uses_s3 s then con_run con (s3_secret_statement s) else op_return ())
     (op_then (con_run con (attach_statement s catalog_alias passfile))
     (con_run con (use_catalog catalog_alias))))))"

definition open_con :: "'w duck_module \<Rightarrow> lake_settings \<Rightarrow> string option \<Rightarrow> ('w, 'w duck_con) op" where
  "open_con m s passfile =
     op_bind (dm_connect m) (\<lambda>con.
     op_then (op_except (attach_con m s passfile con) (\<lambda>e. op_then (dk_close con) (op_raise e))) (op_return con))"

definition attach_delay :: "'w duck_module \<Rightarrow> nat \<Rightarrow> exn \<Rightarrow> rat option" where
  "attach_delay m attempt e =
     (if \<not> dm_error m e then None
      else if is_first_attach_race (exn_text e) then Some (attach_backoff_seconds * of_nat attempt)
      else if is_catalog_unreachable (exn_text e) then Some unreachable_retry_seconds
      else None)"

definition attach_retryable :: "'w duck_module \<Rightarrow> exn \<Rightarrow> bool" where
  "attach_retryable m e \<longleftrightarrow> dm_error m e \<and> (is_first_attach_race (exn_text e) \<or> is_catalog_unreachable (exn_text e))"

interpretation duck_attach: retry_policy "attach_delay m" "attach_retryable m" for m
  by unfold_locales (simp add: attach_delay_def attach_retryable_def)

record 'w duck_session =
  ss_module :: "'w duck_module"
  ss_con :: "'w duck_con"
  ss_catalog :: string
  ss_secrets :: "string list"
  ss_passfile :: "string option"

definition attach_loop ::
  "'w duck_module \<Rightarrow> (rat \<Rightarrow> 'w \<Rightarrow> 'w) \<Rightarrow> lake_settings \<Rightarrow> string option \<Rightarrow> ('w, 'w duck_session) op" where
  "attach_loop m sleep s passfile =
     op_bind (op_except (retry (attach_delay m) sleep (open_con m s passfile) 1 (attach_attempts - 1))
         (\<lambda>e. op_raise (if dm_error m e then translate m (secret_texts s) False e else e))) (\<lambda>con.
     op_return \<lparr>ss_module = m, ss_con = con, ss_catalog = catalog_alias, ss_secrets = secret_texts s, ss_passfile = passfile\<rparr>)"

definition duck_connect ::
  "'w duck_module \<Rightarrow> 'w temp_dir \<Rightarrow> (string \<Rightarrow> string option) \<Rightarrow> (rat \<Rightarrow> 'w \<Rightarrow> 'w) \<Rightarrow> lake_settings \<Rightarrow> ('w, 'w duck_session) op" where
  "duck_connect m td env sleep s =
     op_bind (open_passfile td env (ls_password s)) (\<lambda>passfile.
     op_except (attach_loop m sleep s passfile)
       (\<lambda>e. op_then (close_if_open td passfile) (op_raise e)))"

text \<open>\<^verbatim>\<open>check_offline\<close>: every extension from a directory, none installed.\<close>

definition check_offline :: "'w duck_module \<Rightarrow> string \<Rightarrow> ('w, unit) op" where
  "check_offline m directory =
     op_bind (dm_connect m) (\<lambda>con.
     op_finally
       (op_then (con_run con (set_extension_directory directory))
       (op_then (con_run con disable_extension_autoinstall)
       (op_each (\<lambda>name. con_run con (load_extension name)) duck_extensions)))
       (dk_close con))"

section \<open>Statements of a session\<close>

definition session_guard :: "'w duck_session \<Rightarrow> ('w, 'a) op \<Rightarrow> ('w, 'a) op" where
  "session_guard ss body = guarded (ss_module ss) (ss_secrets ss) True body"

definition session_rows :: "'w duck_session \<Rightarrow> string \<Rightarrow> pyval list option \<Rightarrow> ('w, pyval list list) op" where
  "session_rows ss sql params = session_guard ss (dk_exec (ss_con ss) sql params)"

definition session_run :: "'w duck_session \<Rightarrow> string \<Rightarrow> ('w, unit) op" where
  "session_run ss sql = op_then (session_rows ss sql None) (op_return ())"

definition session_rollback :: "'w duck_session \<Rightarrow> ('w, unit) op" where
  "session_rollback ss =
     op_except (con_run (ss_con ss) sql_rollback) (\<lambda>e. if dm_error (ss_module ss) e then op_return () else op_raise e)"

definition session_transaction :: "'w duck_session \<Rightarrow> ('w, unit) op \<Rightarrow> ('w, unit) op" where
  "session_transaction ss body =
     op_then (session_run ss sql_begin)
     (op_then (op_except body (\<lambda>e. op_then (session_rollback ss) (op_raise e)))
     (session_run ss sql_commit))"

section \<open>The operations of a session\<close>

definition table_params :: "'w duck_session \<Rightarrow> qualified_table \<Rightarrow> pyval list" where
  "table_params ss t = [PStr (ss_catalog ss), PStr (ident_name (qt_schema t)), PStr (ident_name (qt_table t))]"

definition names_table :: "qualified_table \<Rightarrow> pyval \<Rightarrow> pyval \<Rightarrow> bool" where
  "names_table t schema name = (case (schema, name) of
     (PStr s, PStr n) \<Rightarrow> same_identifier s (ident_name (qt_schema t)) \<and> same_identifier n (ident_name (qt_table t))
   | _ \<Rightarrow> False)"

definition lake_table_exists :: "'w duck_session \<Rightarrow> qualified_table \<Rightarrow> ('w, bool) op" where
  "lake_table_exists ss t =
     op_bind (session_guard ss (session_rows ss table_exists_query (Some (table_params ss t)))) (\<lambda>rows.
     op_return (list_ex (\<lambda>row. case row of [schema, name] \<Rightarrow> names_table t schema name | _ \<Rightarrow> False) rows))"

definition lake_columns :: "'w duck_session \<Rightarrow> qualified_table \<Rightarrow> ('w, live_column list) op" where
  "lake_columns ss t =
     op_bind (session_guard ss (session_rows ss columns_query (Some (table_params ss t)))) (\<lambda>rows.
     op_return (concat (map (\<lambda>row. case row of
         [schema, tbl, PStr name, nullable] \<Rightarrow>
           if names_table t schema tbl then [\<lparr>live_name = name, live_nullable = truthy nullable\<rparr>] else []
       | _ \<Rightarrow> []) rows)))"

definition lake_apply_layout :: "'w duck_session \<Rightarrow> qualified_table \<Rightarrow> table_layout \<Rightarrow> ('w, unit) op" where
  "lake_apply_layout ss t l =
     op_then (if tl_partition l \<noteq> [] then session_run ss (set_partitioned_sql (ss_catalog ss) t (tl_partition l)) else op_return ())
     (if tl_sort l \<noteq> [] then session_run ss (set_sorted_sql (ss_catalog ss) t (tl_sort l)) else op_return ())"

definition lake_explain_read :: "'w duck_session \<Rightarrow> string \<Rightarrow> ('w, unit) op" where
  "lake_explain_read ss sql =
     op_then (session_run ss sql_begin_read_only)
     (op_finally (session_run ss (explain_read_sql sql)) (session_rollback ss))"

definition lake_fetch_arrow :: "'w duck_session \<Rightarrow> string \<Rightarrow> ('w, arrow_table) op" where
  "lake_fetch_arrow ss sql = guarded (ss_module ss) (ss_secrets ss) False (dk_arrow (ss_con ss) sql)"

text \<open>A view of the data stands for the statement that reads it, then it is unregistered, quietly.\<close>

definition with_view :: "'w duck_session \<Rightarrow> string \<Rightarrow> arrow_table \<Rightarrow> (string \<Rightarrow> ('w, unit) op) \<Rightarrow> ('w, unit) op" where
  "with_view ss prefix data body =
     op_bind (dm_token (ss_module ss)) (\<lambda>token. let view = prefix @ token in
     op_then (session_guard ss (dk_register (ss_con ss) view data))
     (op_finally (body view)
       (op_except (dk_unregister (ss_con ss) view)
         (\<lambda>e. if dm_error (ss_module ss) e then op_return () else op_raise e))))"

definition load_view_prefix :: string where "load_view_prefix = ''__continuo_load_''"
definition merge_view_prefix :: string where "merge_view_prefix = ''__continuo_merge_''"

definition lake_insert_arrow :: "'w duck_session \<Rightarrow> qualified_table \<Rightarrow> arrow_table \<Rightarrow> ('w, unit) op" where
  "lake_insert_arrow ss t data = with_view ss load_view_prefix data
     (\<lambda>view. session_run ss (insert_select_sql (ss_catalog ss) t (column_names data) view))"

definition lake_merge_arrow :: "'w duck_session \<Rightarrow> qualified_table \<Rightarrow> arrow_table \<Rightarrow> string list \<Rightarrow> ('w, unit) op" where
  "lake_merge_arrow ss t data key = with_view ss merge_view_prefix data
     (\<lambda>view. op_bind (op_of_res (merge_from_sql (ss_catalog ss) t (column_names data) key view)) (session_run ss))"

definition session_close :: "'w temp_dir \<Rightarrow> 'w duck_session \<Rightarrow> ('w, unit) op" where
  "session_close td ss =
     op_finally (dk_close (ss_con ss)) (close_if_open td (ss_passfile ss))"

end
