(* ===== verification/DuckWarehouse.thy ===== *)
theory DuckWarehouse
  imports DuckSession Harness
begin

text \<open>
  The use cases of the DuckDB adapter (\<^verbatim>\<open>application/warehouse.py\<close>) over the port they are written
  against (\<^verbatim>\<open>application/ports.py\<close>), and the composition of the two (\<^verbatim>\<open>adapter.py\<close>): a session is
  a gateway, and the use cases over it are a warehouse adapter of the harness.
\<close>

section \<open>The port\<close>

record 'w lake_gateway =
  gw_transaction :: "('w, unit) op \<Rightarrow> ('w, unit) op"
  gw_create_schema :: "lake_ident \<Rightarrow> ('w, unit) op"
  gw_drop_schema :: "lake_ident \<Rightarrow> ('w, unit) op"
  gw_table_exists :: "qualified_table \<Rightarrow> ('w, bool) op"
  gw_columns :: "qualified_table \<Rightarrow> ('w, live_column list) op"
  gw_drop_table :: "qualified_table \<Rightarrow> ('w, unit) op"
  gw_create_table :: "qualified_table \<Rightarrow> column_definition list \<Rightarrow> bool \<Rightarrow> ('w, unit) op"
  gw_create_as :: "qualified_table \<Rightarrow> string \<Rightarrow> ('w, unit) op"
  gw_create_clone :: "qualified_table \<Rightarrow> qualified_table \<Rightarrow> ('w, unit) op"
  gw_apply_layout :: "qualified_table \<Rightarrow> table_layout \<Rightarrow> ('w, unit) op"
  gw_explain_read :: "string \<Rightarrow> ('w, unit) op"
  gw_fetch_arrow :: "string \<Rightarrow> ('w, arrow_table) op"
  gw_delete_all :: "qualified_table \<Rightarrow> ('w, unit) op"
  gw_insert_arrow :: "qualified_table \<Rightarrow> arrow_table \<Rightarrow> ('w, unit) op"
  gw_merge_arrow :: "qualified_table \<Rightarrow> arrow_table \<Rightarrow> string list \<Rightarrow> ('w, unit) op"
  gw_close :: "('w, unit) op"

text \<open>The session as that port.\<close>

definition session_gateway :: "'w temp_dir \<Rightarrow> 'w duck_session \<Rightarrow> 'w lake_gateway" where
  "session_gateway td ss = (let c = ss_catalog ss in \<lparr>
     gw_transaction = session_transaction ss,
     gw_create_schema = (\<lambda>schema. session_run ss (create_schema_sql c schema)),
     gw_drop_schema = (\<lambda>schema. session_run ss (drop_schema_sql c schema)),
     gw_table_exists = lake_table_exists ss,
     gw_columns = lake_columns ss,
     gw_drop_table = (\<lambda>t. session_run ss (lake_drop_table c t)),
     gw_create_table = (\<lambda>t columns if_not_exists. session_run ss (lake_create_table c t columns if_not_exists)),
     gw_create_as = (\<lambda>t select_sql. session_run ss (create_as_sql c t select_sql)),
     gw_create_clone = (\<lambda>target source. session_run ss (create_clone_sql c target source)),
     gw_apply_layout = lake_apply_layout ss,
     gw_explain_read = lake_explain_read ss,
     gw_fetch_arrow = lake_fetch_arrow ss,
     gw_delete_all = (\<lambda>t. session_run ss (delete_all_sql c t)),
     gw_insert_arrow = lake_insert_arrow ss,
     gw_merge_arrow = lake_merge_arrow ss,
     gw_close = session_close td ss\<rparr>)"

section \<open>Retries\<close>

record 'w lake_warehouse =
  lw_gateway :: "'w lake_gateway"
  lw_sleep :: "rat \<Rightarrow> 'w \<Rightarrow> 'w"
  lw_parse :: sql_parser

definition conflict_attempts :: nat where "conflict_attempts = 5"
definition conflict_backoff_seconds :: rat where "conflict_backoff_seconds = 1 / 20"

definition is_conflict :: "exn \<Rightarrow> bool" where
  "is_conflict e \<longleftrightarrow> exn_kind e = conflict_class"

definition conflict_delay :: "nat \<Rightarrow> exn \<Rightarrow> rat option" where
  "conflict_delay attempt e = (if is_conflict e then Some (conflict_backoff_seconds * of_nat attempt) else None)"

interpretation lake_conflict: retry_policy conflict_delay is_conflict
  by unfold_locales (simp add: conflict_delay_def)

definition retrying :: "'w lake_warehouse \<Rightarrow> ('w, unit) op \<Rightarrow> ('w, unit) op" where
  "retrying lw operation = retry conflict_delay (lw_sleep lw) operation 1 (conflict_attempts - 1)"

section \<open>Schemas and validation builds\<close>

definition lw_ensure_schema :: "'w lake_warehouse \<Rightarrow> string \<Rightarrow> ('w, unit) op" where
  "lw_ensure_schema lw schema =
     op_bind (op_of_res (make_identifier (PStr schema))) (\<lambda>target.
     retrying lw (gw_create_schema (lw_gateway lw) target))"

definition lw_drop_schema :: "'w lake_warehouse \<Rightarrow> string \<Rightarrow> ('w, unit) op" where
  "lw_drop_schema lw schema =
     op_bind (op_of_res (make_identifier (PStr schema))) (gw_drop_schema (lw_gateway lw))"

definition lw_build_empty_from_sql :: "'w lake_warehouse \<Rightarrow> string \<Rightarrow> string \<Rightarrow> string \<Rightarrow> ('w, unit) op" where
  "lw_build_empty_from_sql lw schema tbl compiled_sql =
     op_then (op_of_res (ensure_single_read (lw_parse lw) compiled_sql (Some ''duckdb'')))
     (op_bind (op_of_res (qualified_table_of schema tbl)) (\<lambda>target.
      gw_transaction (lw_gateway lw)
        (op_then (gw_drop_table (lw_gateway lw) target)
          (gw_create_as (lw_gateway lw) target (bare_read compiled_sql)))))"

definition lw_clone_empty_from_prod :: "'w lake_warehouse \<Rightarrow> string \<Rightarrow> string \<Rightarrow> string \<Rightarrow> ('w, unit) op" where
  "lw_clone_empty_from_prod lw candidate_schema prod_schema tbl =
     op_bind (op_of_res (qualified_table_of candidate_schema tbl)) (\<lambda>target.
     op_bind (op_of_res (qualified_table_of prod_schema tbl)) (\<lambda>source.
     gw_transaction (lw_gateway lw)
       (op_then (gw_drop_table (lw_gateway lw) target) (gw_create_clone (lw_gateway lw) target source))))"

definition create_with_layout ::
  "'w lake_gateway \<Rightarrow> qualified_table \<Rightarrow> column_definition list \<Rightarrow> table_layout \<Rightarrow> ('w, unit) op" where
  "create_with_layout gw target defs l =
     op_then (gw_create_table gw target defs False)
       (if \<not> layout_is_empty l then gw_apply_layout gw target l else op_return ())"

definition lw_build_empty_from_columns ::
  "'w lake_warehouse \<Rightarrow> string \<Rightarrow> string \<Rightarrow> pyval list \<Rightarrow> pyval \<Rightarrow> ('w, unit) op" where
  "lw_build_empty_from_columns lw schema tbl columns config =
     op_bind (op_of_res (duck_columns columns)) (\<lambda>defs.
     op_bind (op_of_res (layout_from_config config (column_types defs))) (\<lambda>l.
     op_bind (op_of_res (qualified_table_of schema tbl)) (\<lambda>target.
     gw_transaction (lw_gateway lw)
       (op_then (gw_drop_table (lw_gateway lw) target) (create_with_layout (lw_gateway lw) target defs l)))))"

definition lw_check_binds :: "'w lake_warehouse \<Rightarrow> string \<Rightarrow> ('w, unit) op" where
  "lw_check_binds lw sql =
     op_then (op_of_res (ensure_single_read (lw_parse lw) sql (Some ''duckdb'')))
     (gw_explain_read (lw_gateway lw) (bare_read sql))"

section \<open>The data plane\<close>

definition lw_fetch :: "'w lake_warehouse \<Rightarrow> string \<Rightarrow> ('w, arrow_table) op" where
  "lw_fetch lw sql =
     op_bind (gw_fetch_arrow (lw_gateway lw) sql) (\<lambda>data.
     let duplicates = repeated_names [] (column_names data) in
     if duplicates \<noteq> [] then op_raise (Exn ValueError
       (''duplicate column name(s) in SELECT result: '' @ repr_strs (sorted_set duplicates)))
     else op_return data)"

definition lw_validate_config :: "pyval \<Rightarrow> string list \<Rightarrow> unit res" where
  "lw_validate_config config names =
     bind_res (layout_from_config config (map (\<lambda>n. (n, None)) names)) (\<lambda>_. Inr ())"

definition lw_table_columns :: "'w lake_warehouse \<Rightarrow> string \<Rightarrow> string \<Rightarrow> ('w, live_column list) op" where
  "lw_table_columns lw schema tbl =
     op_bind (op_of_res (qualified_table_of schema tbl)) (\<lambda>t.
     op_bind (gw_columns (lw_gateway lw) t) (\<lambda>columns.
     if columns = [] then op_raise (Exn LookupError (''table '' @ schema @ ''.'' @ tbl @ '' does not exist''))
     else op_return columns))"

definition create_if_absent ::
  "'w lake_gateway \<Rightarrow> qualified_table \<Rightarrow> column_definition list \<Rightarrow> table_layout \<Rightarrow> ('w, unit) op" where
  "create_if_absent gw target defs l =
     gw_transaction gw
       (op_bind (gw_table_exists gw target) (\<lambda>found. if found then op_return () else create_with_layout gw target defs l))"

definition lw_ensure_table ::
  "'w lake_warehouse \<Rightarrow> string \<Rightarrow> string \<Rightarrow> pyval list \<Rightarrow> pyval \<Rightarrow> string list \<Rightarrow> ('w, unit) op" where
  "lw_ensure_table lw schema tbl columns config primary_key =
     op_bind (op_of_res (duck_columns columns)) (\<lambda>defs.
     op_bind (op_of_res (layout_from_config config (column_types defs))) (\<lambda>l.
     op_then (lw_ensure_schema lw schema)
     (op_bind (op_of_res (qualified_table_of schema tbl)) (\<lambda>target.
      retrying lw (create_if_absent (lw_gateway lw) target defs l)))))"

definition lw_load :: "'w lake_warehouse \<Rightarrow> string \<Rightarrow> string \<Rightarrow> arrow_table \<Rightarrow> ('w, unit) op" where
  "lw_load lw schema tbl data =
     op_bind (op_of_res (qualified_table_of schema tbl)) (\<lambda>target.
     gw_transaction (lw_gateway lw)
       (op_then (gw_delete_all (lw_gateway lw) target)
         (if num_rows data \<noteq> 0 then gw_insert_arrow (lw_gateway lw) target data else op_return ())))"

definition lw_append :: "'w lake_warehouse \<Rightarrow> string \<Rightarrow> string \<Rightarrow> arrow_table \<Rightarrow> ('w, unit) op" where
  "lw_append lw schema tbl data =
     (if num_rows data = 0 then op_return ()
      else op_bind (op_of_res (qualified_table_of schema tbl)) (\<lambda>target.
        gw_transaction (lw_gateway lw) (gw_insert_arrow (lw_gateway lw) target data)))"

definition lw_upsert_rows :: "'w lake_warehouse \<Rightarrow> string \<Rightarrow> string \<Rightarrow> arrow_table \<Rightarrow> string list \<Rightarrow> ('w, unit) op" where
  "lw_upsert_rows lw schema tbl data primary_key =
     (if num_rows data = 0 then op_return ()
      else op_bind (op_of_res (qualified_table_of schema tbl)) (\<lambda>target.
        gw_transaction (lw_gateway lw) (gw_merge_arrow (lw_gateway lw) target data primary_key)))"

section \<open>The adapter\<close>

definition lake_adapter :: "'w lake_warehouse \<Rightarrow> 'w adapter" where
  "lake_adapter lw = \<lparr>
     ad_name = ''DuckDBAdapter'',
     ad_fetch = lw_fetch lw,
     ad_validate_config = Some (\<lambda>config names. op_of_res (lw_validate_config (PDict config) names)),
     ad_ensure_table = (\<lambda>schema tbl columns config key.
       lw_ensure_table lw schema tbl (map column_dict columns) (PDict config) key),
     ad_table_columns = lw_table_columns lw,
     ad_load = lw_load lw,
     ad_append = Some (lw_append lw),
     ad_upsert_rows = Some (lw_upsert_rows lw),
     ad_close = gw_close (lw_gateway lw)\<rparr>"

definition session_warehouse ::
  "'w temp_dir \<Rightarrow> (rat \<Rightarrow> 'w \<Rightarrow> 'w) \<Rightarrow> sql_parser \<Rightarrow> 'w duck_session \<Rightarrow> 'w lake_warehouse" where
  "session_warehouse td sleep parse ss = \<lparr>lw_gateway = session_gateway td ss, lw_sleep = sleep, lw_parse = parse\<rparr>"

definition duckdb_from_env ::
  "'w duck_module \<Rightarrow> 'w temp_dir \<Rightarrow> (rat \<Rightarrow> 'w \<Rightarrow> 'w) \<Rightarrow> sql_parser \<Rightarrow> (string \<Rightarrow> string option) \<Rightarrow> ('w, 'w adapter) op" where
  "duckdb_from_env m td sleep parse env =
     op_bind (op_of_res (lake_settings_from_env env)) (\<lambda>s.
     op_bind (duck_connect m td env sleep s) (\<lambda>ss.
     op_return (lake_adapter (session_warehouse td sleep parse ss))))"

end
