(* ===== verification/DuckServer.thy ===== *)
theory DuckServer
  imports DuckWarehouse Atomicity
begin

text \<open>
  What the DuckDB use cases promise, and on what. \<open>lake_port\<close> states the laws of the gateway over the tables
  that are committed and the tables an open transaction sees; inside it the outcome of every use case is
  proved. \<open>duck_catalog\<close> states the laws of one connection, statement by statement; a session over such a
  connection satisfies the laws of the port, and the use cases over it are an atomic adapter of the harness.
\<close>

section \<open>Tables\<close>

text \<open>DuckDB matches schema and table names without regard to ASCII case. A row is the values that are not null.\<close>

type_synonym lake_key = "string \<times> string"
type_synonym lake_row = "string \<Rightarrow> pyval option"
type_synonym lake_store = "lake_key \<Rightarrow> lake_row multiset option"

definition fold_key :: "string \<Rightarrow> string \<Rightarrow> lake_key" where
  "fold_key schema tbl = (ascii_lower schema, ascii_lower tbl)"

definition lake_key :: "qualified_table \<Rightarrow> lake_key" where
  "lake_key t = fold_key (ident_name (qt_schema t)) (ident_name (qt_table t))"

definition lake_row :: "string list \<Rightarrow> pyval list \<Rightarrow> lake_row" where
  "lake_row names vals n = (case map_of (zip names vals) n of Some v \<Rightarrow> if v = PNone then None else Some v | None \<Rightarrow> None)"

definition lake_rows :: "arrow_table \<Rightarrow> lake_row multiset" where
  "lake_rows data = mset (map (lake_row (column_names data)) (row_values data))"

definition rows_of :: "lake_store \<Rightarrow> lake_key \<Rightarrow> lake_row multiset" where
  "rows_of S k = (case S k of Some rows \<Rightarrow> rows | None \<Rightarrow> {#})"

text \<open>A transaction is open, \<open>S\<close> is committed, \<open>T\<close> is what the transaction sees.\<close>

definition tx_state :: "('w \<Rightarrow> lake_store) \<Rightarrow> ('w \<Rightarrow> lake_store) \<Rightarrow> ('w \<Rightarrow> bool) \<Rightarrow> lake_store \<Rightarrow> lake_store \<Rightarrow> 'w \<Rightarrow> bool" where
  "tx_state tables working in_tx S T w \<longleftrightarrow> in_tx w \<and> tables w = S \<and> working w = T"

lemma tx_tables: "tx_state tables working in_tx S T w \<Longrightarrow> tables w = S"
  by (simp add: tx_state_def)

lemma lake_rows_none: "num_rows data = 0 \<Longrightarrow> lake_rows data = {#}"
  by (simp add: lake_rows_def row_values_def)

lemma qualified_table_of_key: "qualified_table_of s t = Inr q \<Longrightarrow> lake_key q = fold_key s t"
  by (auto simp: qualified_table_of_def lake_key_def res_simps make_identifier_Inr)

section \<open>The laws of the port\<close>

locale lake_port =
  fixes lw :: "'w lake_warehouse" and tables :: "'w \<Rightarrow> lake_store" and working :: "'w \<Rightarrow> lake_store"
    and in_tx :: "'w \<Rightarrow> bool"
    and merged :: "string list \<Rightarrow> string list \<Rightarrow> lake_row multiset \<Rightarrow> lake_row multiset \<Rightarrow> lake_row multiset"
    and read_only :: "string \<Rightarrow> bool"
  assumes transaction: "tables w = S \<Longrightarrow>
      (\<And>u. tx_state tables working in_tx S S u \<Longrightarrow>
        wp body (\<lambda>_ v. \<exists>T. tx_state tables working in_tx S T v \<and> Q T) (\<lambda>_ v. tables v = S) u) \<Longrightarrow>
      wp (gw_transaction (lw_gateway lw) body) (\<lambda>_ u. Q (tables u)) (\<lambda>_ u. tables u = S) w"
    and delete_all: "tx_state tables working in_tx S T w \<Longrightarrow>
      wp (gw_delete_all (lw_gateway lw) t)
        (\<lambda>_ u. T (lake_key t) \<noteq> None \<and> tx_state tables working in_tx S (T(lake_key t \<mapsto> {#})) u) (\<lambda>_ u. tables u = S) w"
    and insert_arrow: "tx_state tables working in_tx S T w \<Longrightarrow>
      wp (gw_insert_arrow (lw_gateway lw) t data)
        (\<lambda>_ u. \<exists>old. T (lake_key t) = Some old \<and> tx_state tables working in_tx S (T(lake_key t \<mapsto> old + lake_rows data)) u)
        (\<lambda>_ u. tables u = S) w"
    and merge_arrow: "tx_state tables working in_tx S T w \<Longrightarrow>
      wp (gw_merge_arrow (lw_gateway lw) t data key)
        (\<lambda>_ u. \<exists>old. T (lake_key t) = Some old
           \<and> tx_state tables working in_tx S (T(lake_key t \<mapsto> merged (column_names data) key (lake_rows data) old)) u)
        (\<lambda>_ u. tables u = S) w"
    and drop_table: "tx_state tables working in_tx S T w \<Longrightarrow>
      wp (gw_drop_table (lw_gateway lw) t)
        (\<lambda>_ u. tx_state tables working in_tx S (T(lake_key t := None)) u) (\<lambda>_ u. tables u = S) w"
    and create_table: "tx_state tables working in_tx S T w \<Longrightarrow>
      wp (gw_create_table (lw_gateway lw) t columns False)
        (\<lambda>_ u. T (lake_key t) = None \<and> tx_state tables working in_tx S (T(lake_key t \<mapsto> {#})) u) (\<lambda>_ u. tables u = S) w"
    and create_as: "tx_state tables working in_tx S T w \<Longrightarrow> read_only sql \<Longrightarrow>
      wp (gw_create_as (lw_gateway lw) t sql)
        (\<lambda>_ u. T (lake_key t) = None \<and> tx_state tables working in_tx S (T(lake_key t \<mapsto> {#})) u) (\<lambda>_ u. tables u = S) w"
    and create_clone: "tx_state tables working in_tx S T w \<Longrightarrow>
      wp (gw_create_clone (lw_gateway lw) t source)
        (\<lambda>_ u. T (lake_key t) = None \<and> tx_state tables working in_tx S (T(lake_key t \<mapsto> {#})) u) (\<lambda>_ u. tables u = S) w"
    and apply_layout: "tx_state tables working in_tx S T w \<Longrightarrow>
      wp (gw_apply_layout (lw_gateway lw) t l) (\<lambda>_. tx_state tables working in_tx S T) (\<lambda>_ u. tables u = S) w"
    and table_exists: "tx_state tables working in_tx S T w \<Longrightarrow>
      wp (gw_table_exists (lw_gateway lw) t)
        (\<lambda>found u. found = (T (lake_key t) \<noteq> None) \<and> tx_state tables working in_tx S T u) (\<lambda>_ u. tables u = S) w"
    and create_schema: "tables w = S \<Longrightarrow> wp (gw_create_schema (lw_gateway lw) s) (\<lambda>_ u. tables u = S) (\<lambda>_ u. tables u = S) w"
    and columns_keep: "tables w = S \<Longrightarrow> wp (gw_columns (lw_gateway lw) t) (\<lambda>_ u. tables u = S) (\<lambda>_ u. tables u = S) w"
    and fetch_keeps: "read_only sql \<Longrightarrow> tables w = S \<Longrightarrow>
      wp (gw_fetch_arrow (lw_gateway lw) sql) (\<lambda>_ u. tables u = S) (\<lambda>_ u. tables u = S) w"
    and close_keeps: "tables w = S \<Longrightarrow> wp (gw_close (lw_gateway lw)) (\<lambda>_ u. tables u = S) (\<lambda>_ u. tables u = S) w"
    and sleep_keeps: "tables w = S \<Longrightarrow> tables (lw_sleep lw d w) = S"
begin

lemma checked_table:
  assumes "\<And>q. qualified_table_of s t = Inr q \<Longrightarrow> lake_key q = fold_key s t \<Longrightarrow> wp (f q) Q E w" and "\<And>e. E e w"
  shows "wp (op_bind (op_of_res (qualified_table_of s t)) f) Q E w"
  using assms qualified_table_of_key by (auto simp: wp_bind wp_of_res split: sum.splits)

text \<open>The three writes: the exact rows on success, the rows as they were on every failure.\<close>

lemma load_wp:
  assumes "tables w = S"
  shows "wp (lw_load lw s t data)
    (\<lambda>_ u. S (fold_key s t) \<noteq> None \<and> tables u = S(fold_key s t \<mapsto> lake_rows data)) (\<lambda>_ u. tables u = S) w"
  unfolding lw_load_def
proof (rule checked_table)
  fix q
  assume k: "lake_key q = fold_key s t"
  show "wp (gw_transaction (lw_gateway lw) (op_then (gw_delete_all (lw_gateway lw) q)
      (if num_rows data \<noteq> 0 then gw_insert_arrow (lw_gateway lw) q data else op_return ())))
    (\<lambda>_ u. S (fold_key s t) \<noteq> None \<and> tables u = S(fold_key s t \<mapsto> lake_rows data)) (\<lambda>_ u. tables u = S) w"
  proof (rule transaction [OF assms])
    fix u
    assume u: "tx_state tables working in_tx S S u"
    show "wp (op_then (gw_delete_all (lw_gateway lw) q)
        (if num_rows data \<noteq> 0 then gw_insert_arrow (lw_gateway lw) q data else op_return ()))
      (\<lambda>_ v. \<exists>T. tx_state tables working in_tx S T v \<and> S (fold_key s t) \<noteq> None \<and> T = S(fold_key s t \<mapsto> lake_rows data))
      (\<lambda>_ v. tables v = S) u"
      unfolding wp_bind
      by (rule wp_mono [OF delete_all [OF u]])
        (auto simp: k wp_if wp_return lake_rows_none intro!: wp_mono [OF insert_arrow])
  qed
qed (rule assms)

lemma append_wp:
  assumes "tables w = S" and "num_rows data \<noteq> 0"
  shows "wp (lw_append lw s t data)
    (\<lambda>_ u. \<exists>old. S (fold_key s t) = Some old \<and> tables u = S(fold_key s t \<mapsto> old + lake_rows data)) (\<lambda>_ u. tables u = S) w"
  unfolding lw_append_def if_not_P [OF assms(2)]
  by (rule checked_table, rule transaction [OF assms(1)])
    (auto simp: assms(1) intro!: wp_mono [OF insert_arrow])

lemma upsert_wp:
  assumes "tables w = S" and "num_rows data \<noteq> 0"
  shows "wp (lw_upsert_rows lw s t data key)
    (\<lambda>_ u. \<exists>old. S (fold_key s t) = Some old
       \<and> tables u = S(fold_key s t \<mapsto> merged (column_names data) key (lake_rows data) old)) (\<lambda>_ u. tables u = S) w"
  unfolding lw_upsert_rows_def if_not_P [OF assms(2)]
  by (rule checked_table, rule transaction [OF assms(1)])
    (auto simp: assms(1) intro!: wp_mono [OF merge_arrow])

text \<open>Creating a table with its layout, in a transaction.\<close>

lemma create_with_layout_wp:
  assumes "tx_state tables working in_tx S T u"
  shows "wp (create_with_layout (lw_gateway lw) q defs l)
    (\<lambda>_ v. T (lake_key q) = None \<and> tx_state tables working in_tx S (T(lake_key q \<mapsto> {#})) v) (\<lambda>_ v. tables v = S) u"
  unfolding create_with_layout_def wp_bind
  by (rule wp_mono [OF create_table [OF assms]]) (auto simp: wp_if wp_return intro!: wp_mono [OF apply_layout])

lemma create_if_absent_wp:
  assumes "tables w = S"
  shows "wp (create_if_absent (lw_gateway lw) q defs l)
    (\<lambda>_ u. tables u = (if S (lake_key q) = None then S(lake_key q \<mapsto> {#}) else S)) (\<lambda>_ u. tables u = S) w"
  unfolding create_if_absent_def
proof (rule transaction [OF assms])
  fix u
  assume u: "tx_state tables working in_tx S S u"
  show "wp (op_bind (gw_table_exists (lw_gateway lw) q)
      (\<lambda>found. if found then op_return () else create_with_layout (lw_gateway lw) q defs l))
    (\<lambda>_ v. \<exists>T. tx_state tables working in_tx S T v \<and> T = (if S (lake_key q) = None then S(lake_key q \<mapsto> {#}) else S))
    (\<lambda>_ v. tables v = S) u"
    unfolding wp_bind
    by (rule wp_mono [OF table_exists [OF u]]) (auto simp: wp_if wp_return intro!: wp_mono [OF create_with_layout_wp])
qed

text \<open>However many attempts it takes: the table is there afterwards, with the rows it had, or with none.\<close>

lemma ensure_schema_wp:
  "tables w = S \<Longrightarrow> wp (lw_ensure_schema lw s) (\<lambda>_ u. tables u = S) (\<lambda>_ u. tables u = S) w"
  unfolding lw_ensure_schema_def retrying_def wp_bind wp_of_res
  using create_schema sleep_keeps
  by (auto split: sum.split intro!: wp_retry [where I = "\<lambda>u. tables u = S"])

lemma ensure_table_wp:
  assumes "tables w = S"
  shows "wp (lw_ensure_table lw s t columns config key)
    (\<lambda>_ u. tables u = (if S (fold_key s t) = None then S(fold_key s t \<mapsto> {#}) else S)) (\<lambda>_ u. tables u = S) w"
proof -
  have create: "wp (retrying lw (create_if_absent (lw_gateway lw) q defs l))
      (\<lambda>_ v. tables v = (if S (lake_key q) = None then S(lake_key q \<mapsto> {#}) else S)) (\<lambda>_ v. tables v = S) u"
    if "tables u = S" for u q defs l
    unfolding retrying_def
    by (rule wp_retry [where I = "\<lambda>u. tables u = S"]) (use that create_if_absent_wp sleep_keeps in auto)
  have target: "wp (op_bind (op_of_res (qualified_table_of s t)) (\<lambda>q. retrying lw (create_if_absent (lw_gateway lw) q defs l)))
      (\<lambda>_ v. tables v = (if S (fold_key s t) = None then S(fold_key s t \<mapsto> {#}) else S)) (\<lambda>_ v. tables v = S) u"
    if "tables u = S" for u defs l
  proof (rule checked_table)
    fix q
    assume k: "lake_key q = fold_key s t"
    show "wp (retrying lw (create_if_absent (lw_gateway lw) q defs l))
        (\<lambda>_ v. tables v = (if S (fold_key s t) = None then S(fold_key s t \<mapsto> {#}) else S)) (\<lambda>_ v. tables v = S) u"
      unfolding k [symmetric] by (rule create [OF that])
  qed (rule that)
  have rest: "wp (op_then (lw_ensure_schema lw s) (op_bind (op_of_res (qualified_table_of s t))
        (\<lambda>q. retrying lw (create_if_absent (lw_gateway lw) q defs l))))
      (\<lambda>_ v. tables v = (if S (fold_key s t) = None then S(fold_key s t \<mapsto> {#}) else S)) (\<lambda>_ v. tables v = S) w" for defs l
    by (subst wp_bind, rule wp_mono [OF ensure_schema_wp [OF assms]]) (simp_all add: target)
  show ?thesis
    unfolding lw_ensure_table_def
    by (subst wp_bind, subst wp_of_res, use rest assms in \<open>auto simp: wp_bind wp_of_res split: sum.split\<close>)
qed

text \<open>A validation build replaces the table by an empty one, or leaves it.\<close>

lemma rebuild_wp:
  assumes "tables w = S" and create: "\<And>T u. tx_state tables working in_tx S T u \<Longrightarrow>
    wp (create q) (\<lambda>_ v. T (lake_key q) = None \<and> tx_state tables working in_tx S (T(lake_key q \<mapsto> {#})) v) (\<lambda>_ v. tables v = S) u"
  shows "wp (gw_transaction (lw_gateway lw) (op_then (gw_drop_table (lw_gateway lw) q) (create q)))
    (\<lambda>_ u. tables u = S(lake_key q \<mapsto> {#})) (\<lambda>_ u. tables u = S) w"
proof (rule transaction [OF assms(1)])
  fix u
  assume u: "tx_state tables working in_tx S S u"
  show "wp (op_then (gw_drop_table (lw_gateway lw) q) (create q))
    (\<lambda>_ v. \<exists>T. tx_state tables working in_tx S T v \<and> T = S(lake_key q \<mapsto> {#})) (\<lambda>_ v. tables v = S) u"
    unfolding wp_bind by (rule wp_mono [OF drop_table [OF u]]) (auto intro!: wp_mono [OF create])
qed

lemma build_from_columns_wp:
  assumes "tables w = S"
  shows "wp (lw_build_empty_from_columns lw s t columns config)
    (\<lambda>_ u. tables u = S(fold_key s t \<mapsto> {#})) (\<lambda>_ u. tables u = S) w"
proof -
  have target: "wp (op_bind (op_of_res (qualified_table_of s t)) (\<lambda>q. gw_transaction (lw_gateway lw)
       (op_then (gw_drop_table (lw_gateway lw) q) (create_with_layout (lw_gateway lw) q defs l))))
      (\<lambda>_ u. tables u = S(fold_key s t \<mapsto> {#})) (\<lambda>_ u. tables u = S) w" for defs l
    by (rule checked_table, erule subst [where P = "\<lambda>k. wp M (\<lambda>_ u. tables u = S(k \<mapsto> {#})) E w" for M E])
      (rule rebuild_wp [OF assms, where create = "\<lambda>q. create_with_layout (lw_gateway lw) q defs l" for defs l],
        erule create_with_layout_wp, rule assms)
  then show ?thesis
    unfolding lw_build_empty_from_columns_def
    by (subst wp_bind, subst wp_of_res, use assms in \<open>auto simp: wp_bind wp_of_res split: sum.split\<close>)
qed

lemma build_from_sql_wp:
  assumes "tables w = S" and "read_only (bare_read sql)"
  shows "wp (lw_build_empty_from_sql lw s t sql) (\<lambda>_ u. tables u = S(fold_key s t \<mapsto> {#})) (\<lambda>_ u. tables u = S) w"
proof -
  have "wp (op_bind (op_of_res (qualified_table_of s t)) (\<lambda>q. gw_transaction (lw_gateway lw)
       (op_then (gw_drop_table (lw_gateway lw) q) (gw_create_as (lw_gateway lw) q (bare_read sql)))))
      (\<lambda>_ u. tables u = S(fold_key s t \<mapsto> {#})) (\<lambda>_ u. tables u = S) w"
    by (rule checked_table, erule subst [where P = "\<lambda>k. wp M (\<lambda>_ u. tables u = S(k \<mapsto> {#})) E w" for M E])
      (rule rebuild_wp [OF assms(1), where create = "\<lambda>q. gw_create_as (lw_gateway lw) q (bare_read sql)"],
        erule create_as [OF _ assms(2)], rule assms(1))
  then show ?thesis
    unfolding lw_build_empty_from_sql_def
    by (subst wp_bind, subst wp_of_res, use assms in \<open>auto split: sum.split\<close>)
qed

lemma clone_wp:
  assumes "tables w = S"
  shows "wp (lw_clone_empty_from_prod lw s p t) (\<lambda>_ u. tables u = S(fold_key s t \<mapsto> {#})) (\<lambda>_ u. tables u = S) w"
  unfolding lw_clone_empty_from_prod_def
proof (rule checked_table)
  fix q
  assume k: "lake_key q = fold_key s t"
  have "wp (gw_transaction (lw_gateway lw) (op_then (gw_drop_table (lw_gateway lw) q) (gw_create_clone (lw_gateway lw) q source)))
      (\<lambda>_ u. tables u = S(lake_key q \<mapsto> {#})) (\<lambda>_ u. tables u = S) w" for source
    by (rule rebuild_wp [OF assms, where create = "\<lambda>q. gw_create_clone (lw_gateway lw) q source"]) (rule create_clone)
  then show "wp (op_bind (op_of_res (qualified_table_of p t)) (\<lambda>source. gw_transaction (lw_gateway lw)
      (op_then (gw_drop_table (lw_gateway lw) q) (gw_create_clone (lw_gateway lw) q source))))
    (\<lambda>_ u. tables u = S(fold_key s t \<mapsto> {#})) (\<lambda>_ u. tables u = S) w"
    unfolding wp_bind wp_of_res using k assms by (auto split: sum.split)
qed (rule assms)

end

section \<open>The adapter of the harness\<close>

lemma rows_of_create: "rows_of (if S k = None then S(k \<mapsto> {#}) else S) = rows_of S"
  by (auto simp: rows_of_def fun_eq_iff)

sublocale lake_port \<subseteq> lake_atomic: atomic_adapter "lake_adapter lw" "\<lambda>w. rows_of (tables w)" "\<lambda>w. True" read_only
proof (unfold_locales, goal_cases)
  case (1 w sql c)
  have "wp (lw_fetch lw sql) (\<lambda>_ u. tables u = tables w) (\<lambda>_ u. tables u = tables w) w"
    unfolding lw_fetch_def by (simp only: wp_bind Let_def, rule wp_mono [OF fetch_keeps [OF 1(2) refl]])
      (auto simp: wp_if wp_raise wp_return)
  then show ?case using 1 by (auto simp: lake_adapter_def elim!: wp_mono)
next
  case (2 w v c config names)
  then show ?case by (auto simp: lake_adapter_def wp_of_res split: sum.split)
next
  case (3 w c schema tbl cols config key)
  show ?case
    by (simp add: lake_adapter_def, rule wp_mono [OF ensure_table_wp [OF refl]])
      (use 3 in \<open>simp_all add: rows_of_create split del: if_split\<close>)
next
  case (4 w c schema tbl)
  have "wp (lw_table_columns lw schema tbl) (\<lambda>_ u. tables u = tables w) (\<lambda>_ u. tables u = tables w) w"
    unfolding lw_table_columns_def
    by (rule checked_table) (auto simp: wp_bind wp_if wp_raise wp_return intro!: wp_mono [OF columns_keep [OF refl]])
  then show ?case using 4 by (auto simp: lake_adapter_def elim!: wp_mono)
next
  case (5 w c schema tbl data)
  show ?case by (simp add: lake_adapter_def, rule wp_mono [OF load_wp [OF refl]]) (use 5 in simp_all)
next
  case (6 w f c schema tbl data)
  then have f: "f = lw_append lw" by (simp add: lake_adapter_def)
  show ?case
  proof (cases "num_rows data = 0")
    case True
    then show ?thesis by (simp add: f lw_append_def wp_return)
  next
    case False
    show ?thesis unfolding f by (rule wp_mono [OF append_wp [OF refl False]]) (use 6 in simp_all)
  qed
next
  case (7 w g c schema tbl data key)
  then have g: "g = lw_upsert_rows lw" by (simp add: lake_adapter_def)
  show ?case
  proof (cases "num_rows data = 0")
    case True
    then show ?thesis by (simp add: g lw_upsert_rows_def wp_return)
  next
    case False
    show ?thesis unfolding g by (rule wp_mono [OF upsert_wp [OF refl False]]) (use 7 in simp_all)
  qed
next
  case (8 w c)
  then show ?case by (auto simp: lake_adapter_def intro!: wp_mono [OF close_keeps [OF refl]])
qed

context lake_port begin

lemma adapter_atomic: "atomic_adapter (lake_adapter lw) (\<lambda>w. rows_of (tables w)) (\<lambda>w. True) read_only"
  by (rule lake_atomic.atomic_adapter_axioms)

end

section \<open>The laws of one connection\<close>

locale duck_catalog =
  fixes ss :: "'w duck_session" and td :: "'w temp_dir" and sleep :: "rat \<Rightarrow> 'w \<Rightarrow> 'w" and parse :: sql_parser
    and tables :: "'w \<Rightarrow> lake_store" and working :: "'w \<Rightarrow> lake_store" and in_tx :: "'w \<Rightarrow> bool"
    and view :: "'w \<Rightarrow> string \<Rightarrow> arrow_table option"
    and merged :: "string list \<Rightarrow> string list \<Rightarrow> lake_row multiset \<Rightarrow> lake_row multiset \<Rightarrow> lake_row multiset"
    and read_only :: "string \<Rightarrow> bool"
  assumes run_begin: "tables w = S \<Longrightarrow> wp (dk_exec (ss_con ss) sql_begin None)
      (\<lambda>_. tx_state tables working in_tx S S) (\<lambda>_ u. tables u = S) w"
    and run_commit: "tx_state tables working in_tx S T w \<Longrightarrow> wp (dk_exec (ss_con ss) sql_commit None)
      (\<lambda>_ u. tables u = T) (\<lambda>_ u. tables u = S) w"
    and run_rollback: "tables w = S \<Longrightarrow> wp (dk_exec (ss_con ss) sql_rollback None)
      (\<lambda>_ u. tables u = S) (\<lambda>_ u. tables u = S) w"
    and run_delete: "tx_state tables working in_tx S T w \<Longrightarrow> wp (dk_exec (ss_con ss) (delete_all_sql (ss_catalog ss) t) None)
      (\<lambda>_ u. T (lake_key t) \<noteq> None \<and> tx_state tables working in_tx S (T(lake_key t \<mapsto> {#})) u) (\<lambda>_ u. tables u = S) w"
    and run_insert: "tx_state tables working in_tx S T w \<Longrightarrow> view w v = Some data \<Longrightarrow>
      wp (dk_exec (ss_con ss) (insert_select_sql (ss_catalog ss) t (column_names data) v) None)
        (\<lambda>_ u. \<exists>old. T (lake_key t) = Some old \<and> tx_state tables working in_tx S (T(lake_key t \<mapsto> old + lake_rows data)) u)
        (\<lambda>_ u. tables u = S) w"
    and run_merge: "tx_state tables working in_tx S T w \<Longrightarrow> view w v = Some data \<Longrightarrow>
      merge_from_sql (ss_catalog ss) t (column_names data) key v = Inr sql \<Longrightarrow>
      wp (dk_exec (ss_con ss) sql None)
        (\<lambda>_ u. \<exists>old. T (lake_key t) = Some old
           \<and> tx_state tables working in_tx S (T(lake_key t \<mapsto> merged (column_names data) key (lake_rows data) old)) u)
        (\<lambda>_ u. tables u = S) w"
    and run_drop: "tx_state tables working in_tx S T w \<Longrightarrow> wp (dk_exec (ss_con ss) (lake_drop_table (ss_catalog ss) t) None)
      (\<lambda>_ u. tx_state tables working in_tx S (T(lake_key t := None)) u) (\<lambda>_ u. tables u = S) w"
    and run_create: "tx_state tables working in_tx S T w \<Longrightarrow>
      sql = lake_create_table (ss_catalog ss) t columns False \<or> sql = create_clone_sql (ss_catalog ss) t source
        \<or> (read_only q \<and> sql = create_as_sql (ss_catalog ss) t q) \<Longrightarrow>
      wp (dk_exec (ss_con ss) sql None)
        (\<lambda>_ u. T (lake_key t) = None \<and> tx_state tables working in_tx S (T(lake_key t \<mapsto> {#})) u) (\<lambda>_ u. tables u = S) w"
    and run_layout: "tx_state tables working in_tx S T w \<Longrightarrow>
      sql = set_partitioned_sql (ss_catalog ss) t ps \<or> sql = set_sorted_sql (ss_catalog ss) t ks \<Longrightarrow>
      wp (dk_exec (ss_con ss) sql None) (\<lambda>_. tx_state tables working in_tx S T) (\<lambda>_ u. tables u = S) w"
    and run_exists: "tx_state tables working in_tx S T w \<Longrightarrow>
      wp (dk_exec (ss_con ss) table_exists_query (Some (table_params ss t)))
        (\<lambda>rows u. tx_state tables working in_tx S T u
           \<and> (\<forall>row\<in>set rows. \<exists>a b. row = [PStr a, PStr b] \<and> T (fold_key a b) \<noteq> None)
           \<and> (T (lake_key t) \<noteq> None \<longrightarrow> (\<exists>a b. [PStr a, PStr b] \<in> set rows \<and> fold_key a b = lake_key t)))
        (\<lambda>_ u. tables u = S) w"
    and run_schema: "tables w = S \<Longrightarrow> wp (dk_exec (ss_con ss) (create_schema_sql (ss_catalog ss) s) None)
      (\<lambda>_ u. tables u = S) (\<lambda>_ u. tables u = S) w"
    and run_columns: "tables w = S \<Longrightarrow> wp (dk_exec (ss_con ss) columns_query params)
      (\<lambda>_ u. tables u = S) (\<lambda>_ u. tables u = S) w"
    and run_arrow: "read_only q \<Longrightarrow> tables w = S \<Longrightarrow> wp (dk_arrow (ss_con ss) q)
      (\<lambda>_ u. tables u = S) (\<lambda>_ u. tables u = S) w"
    and take_token: "wp (dm_token (ss_module ss)) (\<lambda>_ u. u = w) (\<lambda>_ u. u = w) w"
    and register: "tx_state tables working in_tx S T w \<Longrightarrow> wp (dk_register (ss_con ss) v data)
      (\<lambda>_ u. tx_state tables working in_tx S T u \<and> view u v = Some data) (\<lambda>_ u. tables u = S) w"
    and unregister: "wp (dk_unregister (ss_con ss) v)
      (\<lambda>_ u. tables u = tables w \<and> working u = working w \<and> in_tx u = in_tx w)
      (\<lambda>_ u. tables u = tables w \<and> working u = working w \<and> in_tx u = in_tx w) w"
    and con_close: "tables w = S \<Longrightarrow> wp (dk_close (ss_con ss)) (\<lambda>_ u. tables u = S) (\<lambda>_ u. tables u = S) w"
    and file_close: "tables w = S \<Longrightarrow> wp (td_unlink td path) (\<lambda>_ u. tables u = S) (\<lambda>_ u. tables u = S) w"
    and sleeping: "tables w = S \<Longrightarrow> tables (sleep d w) = S"
begin

text \<open>The guard of the session changes exceptions, not outcomes.\<close>

lemma guard_wp: "wp m Q (\<lambda>_. E) w \<Longrightarrow> wp (session_guard ss m) Q (\<lambda>_. E) w"
  by (simp add: session_guard_def guarded_def wp_except wp_raise)

lemma run_wp: "wp (dk_exec (ss_con ss) sql None) (\<lambda>_. Q) (\<lambda>_. E) w \<Longrightarrow> wp (session_run ss sql) (\<lambda>_. Q) (\<lambda>_. E) w"
  unfolding session_run_def session_rows_def wp_bind wp_return by (rule guard_wp)

lemma rollback_wp:
  "tables w = S \<Longrightarrow> wp (session_rollback ss) (\<lambda>_ u. tables u = S) (\<lambda>_ u. tables u = S) w"
  unfolding session_rollback_def con_run_def wp_except wp_bind wp_return
  by (rule wp_mono [OF run_rollback]) (auto simp: wp_if wp_return wp_raise)

lemma transaction_wp:
  assumes "tables w = S" and body: "\<And>u. tx_state tables working in_tx S S u \<Longrightarrow>
    wp body (\<lambda>_ v. \<exists>T. tx_state tables working in_tx S T v \<and> Q T) (\<lambda>_ v. tables v = S) u"
  shows "wp (session_transaction ss body) (\<lambda>_ u. Q (tables u)) (\<lambda>_ u. tables u = S) w"
proof -
  have commit: "wp (session_run ss sql_commit) (\<lambda>_ u. Q (tables u)) (\<lambda>_ u. tables u = S) v"
    if "tx_state tables working in_tx S T v" "Q T" for T v
    by (rule run_wp, rule wp_mono [OF run_commit [OF that(1)]]) (use that(2) in auto)
  show ?thesis
    unfolding session_transaction_def wp_bind wp_except wp_raise
    by (rule wp_mono [OF run_wp [OF run_begin [OF assms(1)]]], rule wp_mono [OF body])
      (auto intro: commit rollback_wp)
qed

text \<open>A view lives as long as its statement, whatever happens to it.\<close>

lemma unregister_wp:
  assumes "P w" and "\<And>u. tables u = tables w \<and> working u = working w \<and> in_tx u = in_tx w \<Longrightarrow> P u" and "\<And>u. P u \<Longrightarrow> E u"
  shows "wp (op_except (dk_unregister (ss_con ss) v) (\<lambda>e. if dm_error (ss_module ss) e then op_return () else op_raise e))
    (\<lambda>_. P) (\<lambda>_. E) w"
  unfolding wp_except by (rule wp_mono [OF unregister]) (use assms in \<open>auto simp: wp_if wp_return wp_raise\<close>)

lemma with_view_wp:
  assumes "tx_state tables working in_tx S T w"
    and body: "\<And>u v. tx_state tables working in_tx S T u \<Longrightarrow> view u v = Some data \<Longrightarrow>
      wp (body v) (\<lambda>_ u. \<exists>T'. Q T' \<and> tx_state tables working in_tx S T' u) (\<lambda>_ u. tables u = S) u"
  shows "wp (with_view ss prefix data body) (\<lambda>_ u. \<exists>T'. Q T' \<and> tx_state tables working in_tx S T' u) (\<lambda>_ u. tables u = S) w"
proof -
  let ?drop = "\<lambda>v. op_except (dk_unregister (ss_con ss) v) (\<lambda>e. if dm_error (ss_module ss) e then op_return () else op_raise e)"
  have ok: "wp (?drop v) (\<lambda>_ u. \<exists>T'. Q T' \<and> tx_state tables working in_tx S T' u) (\<lambda>_ u. tables u = S) u"
    if "Q T'" "tx_state tables working in_tx S T' u" for v u T'
    by (rule unregister_wp [where P = "\<lambda>u. \<exists>T'. Q T' \<and> tx_state tables working in_tx S T' u"])
      (use that in \<open>auto simp: tx_state_def\<close>)
  have bad: "wp (?drop v) (\<lambda>_ u. tables u = S) (\<lambda>_ u. tables u = S) u" if "tables u = S" for v u
    by (rule unregister_wp [where P = "\<lambda>u. tables u = S"]) (use that in auto)
  have view: "wp (op_finally (body v) (?drop v)) (\<lambda>_ u. \<exists>T'. Q T' \<and> tx_state tables working in_tx S T' u) (\<lambda>_ u. tables u = S) u"
    if "tx_state tables working in_tx S T u" "view u v = Some data" for u v
    unfolding wp_finally by (rule wp_mono [OF body [OF that]], blast intro: ok, erule bad)
  show ?thesis
    unfolding with_view_def Let_def wp_bind
    by (rule wp_mono [OF take_token])
      (auto intro!: wp_mono [OF guard_wp [OF register [OF assms(1)]]] intro: view simp: tx_tables [OF assms(1)])
qed

lemma insert_wp:
  assumes "tx_state tables working in_tx S T w"
  shows "wp (lake_insert_arrow ss t data)
    (\<lambda>_ u. \<exists>old. T (lake_key t) = Some old \<and> tx_state tables working in_tx S (T(lake_key t \<mapsto> old + lake_rows data)) u)
    (\<lambda>_ u. tables u = S) w"
proof -
  have "wp (lake_insert_arrow ss t data)
    (\<lambda>_ u. \<exists>T'. (\<exists>old. T (lake_key t) = Some old \<and> T' = T(lake_key t \<mapsto> old + lake_rows data)) \<and> tx_state tables working in_tx S T' u)
    (\<lambda>_ u. tables u = S) w"
    unfolding lake_insert_arrow_def
    by (rule with_view_wp [OF assms], rule run_wp, rule wp_mono [OF run_insert]) auto
  then show ?thesis by (rule wp_mono) auto
qed

lemma merge_wp:
  assumes "tx_state tables working in_tx S T w"
  shows "wp (lake_merge_arrow ss t data key)
    (\<lambda>_ u. \<exists>old. T (lake_key t) = Some old
       \<and> tx_state tables working in_tx S (T(lake_key t \<mapsto> merged (column_names data) key (lake_rows data) old)) u)
    (\<lambda>_ u. tables u = S) w"
proof -
  let ?Q = "\<lambda>T'. \<exists>old. T (lake_key t) = Some old \<and> T' = T(lake_key t \<mapsto> merged (column_names data) key (lake_rows data) old)"
  have stmt: "wp (op_bind (op_of_res (merge_from_sql (ss_catalog ss) t (column_names data) key v)) (session_run ss))
      (\<lambda>_ u. \<exists>T'. ?Q T' \<and> tx_state tables working in_tx S T' u) (\<lambda>_ u. tables u = S) u"
    if "tx_state tables working in_tx S T u" "view u v = Some data" for u v
  proof (cases "merge_from_sql (ss_catalog ss) t (column_names data) key v")
    case (Inl e)
    then show ?thesis using tx_tables [OF that(1)] by (simp add: wp_bind wp_of_res)
  next
    case (Inr sql)
    have "wp (session_run ss sql) (\<lambda>_ u. \<exists>T'. ?Q T' \<and> tx_state tables working in_tx S T' u) (\<lambda>_ u. tables u = S) u"
      by (rule run_wp, rule wp_mono [OF run_merge [OF that Inr]]) auto
    then show ?thesis using Inr by (simp add: wp_bind wp_of_res)
  qed
  have "wp (lake_merge_arrow ss t data key) (\<lambda>_ u. \<exists>T'. ?Q T' \<and> tx_state tables working in_tx S T' u) (\<lambda>_ u. tables u = S) w"
    unfolding lake_merge_arrow_def by (rule with_view_wp [OF assms]) (rule stmt)
  then show ?thesis by (rule wp_mono) auto
qed

text \<open>The query over-approximates; the confirmation of every row makes it exact.\<close>

lemma names_table_key: "names_table t (PStr a) (PStr b) \<longleftrightarrow> fold_key a b = lake_key t"
  by (simp add: names_table_def same_identifier_def fold_key_def lake_key_def)

lemma exists_wp:
  assumes "tx_state tables working in_tx S T w"
  shows "wp (lake_table_exists ss t) (\<lambda>found u. found = (T (lake_key t) \<noteq> None) \<and> tx_state tables working in_tx S T u)
    (\<lambda>_ u. tables u = S) w"
proof -
  have found: "list_ex (\<lambda>row. case row of [schema, name] \<Rightarrow> names_table t schema name | _ \<Rightarrow> False) rows
      = (T (lake_key t) \<noteq> None)"
    if "\<forall>row\<in>set rows. \<exists>a b. row = [PStr a, PStr b] \<and> T (fold_key a b) \<noteq> None"
      "T (lake_key t) \<noteq> None \<longrightarrow> (\<exists>a b. [PStr a, PStr b] \<in> set rows \<and> fold_key a b = lake_key t)" for rows
  proof
    assume "list_ex (\<lambda>row. case row of [schema, name] \<Rightarrow> names_table t schema name | _ \<Rightarrow> False) rows"
    then obtain row where row: "row \<in> set rows" "case row of [schema, name] \<Rightarrow> names_table t schema name | _ \<Rightarrow> False"
      by (auto simp: list_ex_iff)
    with that(1) obtain a b where ab: "row = [PStr a, PStr b]" "T (fold_key a b) \<noteq> None" by blast
    then have "fold_key a b = lake_key t" using row(2) by (simp only: list.case names_table_key)
    then show "T (lake_key t) \<noteq> None" using ab(2) by metis
  next
    assume "T (lake_key t) \<noteq> None"
    with that(2) obtain a b where ab: "[PStr a, PStr b] \<in> set rows" "fold_key a b = lake_key t" by blast
    show "list_ex (\<lambda>row. case row of [schema, name] \<Rightarrow> names_table t schema name | _ \<Rightarrow> False) rows"
      unfolding list_ex_iff by (rule bexI [OF _ ab(1)]) (simp only: list.case names_table_key ab(2))
  qed
  show ?thesis
    unfolding lake_table_exists_def session_rows_def wp_bind wp_return
    by (rule guard_wp, rule guard_wp, rule wp_mono [OF run_exists [OF assms]]) (auto simp: found)
qed

lemma layout_wp:
  assumes "tx_state tables working in_tx S T w"
  shows "wp (lake_apply_layout ss t l) (\<lambda>_. tx_state tables working in_tx S T) (\<lambda>_ u. tables u = S) w"
proof -
  have st: "wp (session_run ss sql) (\<lambda>_. tx_state tables working in_tx S T) (\<lambda>_ u. tables u = S) u"
    if "tx_state tables working in_tx S T u"
      "sql = set_partitioned_sql (ss_catalog ss) t (tl_partition l) \<or> sql = set_sorted_sql (ss_catalog ss) t (tl_sort l)" for sql u
    by (rule run_wp) (rule run_layout [OF that])
  show ?thesis
    unfolding lake_apply_layout_def wp_bind wp_if
    using assms by (auto simp: wp_return intro!: wp_mono [OF st])
qed

lemma create_wp:
  "tx_state tables working in_tx S T w \<Longrightarrow>
     sql = lake_create_table (ss_catalog ss) t columns False \<or> sql = create_clone_sql (ss_catalog ss) t source
       \<or> (read_only q \<and> sql = create_as_sql (ss_catalog ss) t q) \<Longrightarrow>
     wp (session_run ss sql)
       (\<lambda>_ u. T (lake_key t) = None \<and> tx_state tables working in_tx S (T(lake_key t \<mapsto> {#})) u) (\<lambda>_ u. tables u = S) w"
  by (rule run_wp) (rule run_create)

lemmas create_wps = create_wp [OF _ disjI1 [OF refl]] create_wp [OF _ disjI2 [OF disjI1 [OF refl]]]
  create_wp [OF _ disjI2 [OF disjI2 [OF conjI [OF _ refl]]]]

end

text \<open>A session over such a connection keeps the laws of the port.\<close>

sublocale duck_catalog \<subseteq> lake: lake_port "session_warehouse td sleep parse ss"
    tables working in_tx merged read_only
proof (unfold_locales, goal_cases)
  case (1 w S body Q)
  then show ?case by (simp add: session_warehouse_def session_gateway_def Let_def transaction_wp)
next
  case (12 w S t)
  then show ?case
    unfolding session_warehouse_def session_gateway_def Let_def lake_columns_def session_rows_def
    by (simp add: wp_bind wp_return) (intro guard_wp run_columns)
next
  case (14 w S)
  have "wp (close_if_open td pf) (\<lambda>_ u. tables u = S) (\<lambda>_ u. tables u = S) v" if "tables v = S" for v pf
    unfolding close_if_open_def close_passfile_def
    using that by (auto simp: wp_return wp_except wp_if wp_raise split: option.split intro!: wp_mono [OF file_close])
  then show ?case
    using 14 unfolding session_warehouse_def session_gateway_def Let_def session_close_def
    by (auto simp: wp_finally intro!: wp_mono [OF con_close])
next
  case (13 sql w S)
  then show ?case
    by (simp add: session_warehouse_def session_gateway_def Let_def lake_fetch_arrow_def guarded_def wp_except wp_raise run_arrow)
qed (simp_all add: session_warehouse_def session_gateway_def Let_def run_wp run_delete insert_wp merge_wp run_drop create_wps layout_wp exists_wp run_schema sleeping
    del: not_None_eq)

context duck_catalog begin

lemma port_laws: "lake_port (session_warehouse td sleep parse ss) tables working in_tx merged read_only"
  by (rule lake.lake_port_axioms)

end

end
