(* ===== verification/DuckValidation.thy ===== *)
theory DuckValidation
  imports DuckServer Runner
begin

text \<open>
  The DuckDB adapter behind the validation runner: the validation half of its port, the laws that its
  schema drop and its bind check add, and what a whole validation run over it leaves in the catalog. A run
  that fails leaves every table as it was; one that succeeds has made the table of its operation empty, or
  dropped the candidate schema, and changed nothing else.
\<close>

section \<open>The validation half of the port\<close>

text \<open>\<open>refuse\<close>: what the SQL parser raises on a declared read that is no string.\<close>

definition lake_validation :: "(pyval \<Rightarrow> exn) \<Rightarrow> 'w lake_warehouse \<Rightarrow> 'w validation_adapter" where
  "lake_validation refuse lw = \<lparr>
     va_ensure_schema = lw_ensure_schema lw,
     va_drop_schema = lw_drop_schema lw,
     va_build_from_sql = lw_build_empty_from_sql lw,
     va_clone_from_prod = lw_clone_empty_from_prod lw,
     va_build_from_columns = (\<lambda>schema tbl columns config.
       op_bind (op_of_res (iterate columns)) (\<lambda>raw. lw_build_empty_from_columns lw schema tbl raw (PDict config))),
     va_check_binds = (\<lambda>read_sql. case read_sql of PStr sql \<Rightarrow> lw_check_binds lw sql | v \<Rightarrow> op_raise (refuse v)),
     va_close = gw_close (lw_gateway lw)\<rparr>"

section \<open>What an operation does to the tables\<close>

definition without_schema :: "string \<Rightarrow> lake_store \<Rightarrow> lake_store" where
  "without_schema schema S k = (if fst k = ascii_lower schema then None else S k)"

definition validated :: "vjob \<Rightarrow> lake_store \<Rightarrow> lake_store" where
  "validated j S = (case vj_op j of
     EnsureSchema \<Rightarrow> S
   | DropSchema \<Rightarrow> without_schema (vj_schema j) S
   | CheckBinds sql \<Rightarrow> S
   | _ \<Rightarrow> S(fold_key (vj_schema j) (vj_table j) \<mapsto> {#}))"

locale lake_validation_port = lake_port +
  assumes gate: "ensure_single_read (lw_parse lw) sql (Some ''duckdb'') = Inr () \<Longrightarrow> read_only (bare_read sql)"
    and drop_schema: "tables w = S \<Longrightarrow> \<not> in_tx w \<Longrightarrow> wp (gw_drop_schema (lw_gateway lw) s)
      (\<lambda>_ u. tables u = without_schema (ident_name s) S) (\<lambda>_ u. tables u = S) w"
    and explain_read: "read_only sql \<Longrightarrow> tables w = S \<Longrightarrow>
      wp (gw_explain_read (lw_gateway lw) sql) (\<lambda>_ u. tables u = S) (\<lambda>_ u. tables u = S) w"
begin

lemma gated_build:
  assumes "tables w = S"
  shows "wp (lw_build_empty_from_sql lw s t sql) (\<lambda>_ u. tables u = S(fold_key s t \<mapsto> {#})) (\<lambda>_ u. tables u = S) w"
proof (cases "ensure_single_read (lw_parse lw) sql (Some ''duckdb'')")
  case (Inl e)
  then show ?thesis using assms by (simp add: lw_build_empty_from_sql_def wp_bind wp_of_res)
next
  case (Inr u)
  then show ?thesis by (intro build_from_sql_wp assms gate) simp
qed

lemma check_binds_wp:
  assumes "tables w = S"
  shows "wp (lw_check_binds lw sql) (\<lambda>_ u. tables u = S) (\<lambda>_ u. tables u = S) w"
proof (cases "ensure_single_read (lw_parse lw) sql (Some ''duckdb'')")
  case (Inl e)
  then show ?thesis using assms by (simp add: lw_check_binds_def wp_bind wp_of_res)
next
  case (Inr u)
  then show ?thesis using assms by (simp add: lw_check_binds_def wp_bind wp_of_res explain_read gate)
qed

lemma drop_schema_wp:
  "tables w = S \<Longrightarrow> \<not> in_tx w \<Longrightarrow> wp (lw_drop_schema lw s) (\<lambda>_ u. tables u = without_schema s S) (\<lambda>_ u. tables u = S) w"
  unfolding lw_drop_schema_def wp_bind wp_of_res
  by (auto simp: make_identifier_Inr split: sum.split intro!: wp_mono [OF drop_schema])

lemma any_read_wp:
  "tables w = S \<Longrightarrow> wp (va_check_binds (lake_validation refuse lw) v) (\<lambda>_ u. tables u = S) (\<lambda>_ u. tables u = S) w"
  by (simp add: lake_validation_def check_binds_wp wp_raise split: pyval.split)

lemma wp_vcall:
  "wp (vcall c m) Q E s = wp m (\<lambda>a u. Q a (s\<lparr>vs_world := u, vs_calls := vs_calls s @ [c]\<rparr>))
     (\<lambda>e u. E e (s\<lparr>vs_world := u, vs_calls := vs_calls s @ [c]\<rparr>)) (vs_world s)"
  by (auto simp: wp_def vcall_def split: prod.splits sum.splits)

lemma ensure_call_wp:
  "tables (vs_world s) = S \<Longrightarrow> (\<And>u. tables (vs_world u) = S \<Longrightarrow> Q () u) \<Longrightarrow>
     wp (vcall c (va_ensure_schema (lake_validation refuse lw) schema)) Q (\<lambda>_ u. tables (vs_world u) = S) s"
  unfolding wp_vcall by (simp add: lake_validation_def) (rule wp_mono [OF ensure_schema_wp], auto)

lemma columns_wp:
  assumes "tables (vs_world s) = S"
  shows "wp (build_from_columns rn (lake_validation refuse lw) schema tbl spec config csv)
    (\<lambda>_ u. tables (vs_world u) = S(fold_key schema tbl \<mapsto> {#})) (\<lambda>_ u. tables (vs_world u) = S) s"
proof -
  have build: "wp (vcall (VBuildFromColumns schema tbl) (va_build_from_columns (lake_validation refuse lw) schema tbl columns config))
      (\<lambda>_ u. tables (vs_world u) = S(fold_key schema tbl \<mapsto> {#})) (\<lambda>_ u. tables (vs_world u) = S) t"
    if "tables (vs_world t) = S" for t columns
    using that unfolding wp_vcall
    by (simp add: lake_validation_def wp_bind wp_of_res build_from_columns_wp split: sum.split)
  have reads: "wp (op_each (\<lambda>read_sql. vcall (VCheckBinds read_sql) (va_check_binds (lake_validation refuse lw) read_sql)) vs)
      (\<lambda>_. wp (vcall (VBuildFromColumns schema tbl) (va_build_from_columns (lake_validation refuse lw) schema tbl columns config))
        (\<lambda>_ u. tables (vs_world u) = S(fold_key schema tbl \<mapsto> {#})) (\<lambda>_ u. tables (vs_world u) = S))
      (\<lambda>_ u. tables (vs_world u) = S) s" for vs columns
    by (rule wp_each [where I = "\<lambda>u. tables (vs_world u) = S"], rule assms)
      (simp_all add: build, simp add: wp_vcall any_read_wp)
  show ?thesis
    unfolding build_from_columns_def wp_bind wp_of_res by (auto simp: assms reads split: sum.split)
qed

text \<open>One operation of the runner.\<close>

lemma run_op_wp:
  assumes "tables (vs_world s) = S" and "\<not> in_tx (vs_world s)"
  shows "wp (run_op rn (lake_validation refuse lw) j)
    (\<lambda>_ u. tables (vs_world u) = validated j S) (\<lambda>_ u. tables (vs_world u) = S) s"
proof (cases "vj_op j")
  case EnsureSchema
  then show ?thesis unfolding run_op_def Let_def by (simp add: validated_def) (rule ensure_call_wp [OF assms(1)])
next
  case DropSchema
  then show ?thesis
    by (simp add: run_op_def Let_def validated_def wp_vcall lake_validation_def drop_schema_wp assms)
next
  case (BuildFromSql sql)
  have "wp (vcall c (va_build_from_sql (lake_validation refuse lw) (vj_schema j) (vj_table j) sql))
      (\<lambda>_ u. tables (vs_world u) = validated j S) (\<lambda>_ u. tables (vs_world u) = S) t" if "tables (vs_world t) = S" for t c
    using that BuildFromSql by (simp add: wp_vcall lake_validation_def validated_def gated_build)
  then show ?thesis using BuildFromSql
    by (simp add: run_op_def Let_def wp_bind) (rule ensure_call_wp [OF assms(1)])
next
  case (CheckBinds sql)
  have "wp (vcall c (va_check_binds (lake_validation refuse lw) (PStr sql)))
      (\<lambda>_ u. tables (vs_world u) = validated j S) (\<lambda>_ u. tables (vs_world u) = S) t" if "tables (vs_world t) = S" for t c
    using that CheckBinds by (simp add: wp_vcall any_read_wp validated_def)
  then show ?thesis using CheckBinds
    by (simp add: run_op_def Let_def wp_bind) (rule ensure_call_wp [OF assms(1)])
next
  case (BuildFromColumns spec config csv)
  then show ?thesis
    by (simp add: run_op_def Let_def wp_bind validated_def) (rule ensure_call_wp [OF assms(1)], rule columns_wp)
next
  case (CloneFromProd p)
  have "wp (vcall c (va_clone_from_prod (lake_validation refuse lw) (vj_schema j) p (vj_table j)))
      (\<lambda>_ u. tables (vs_world u) = validated j S) (\<lambda>_ u. tables (vs_world u) = S) t" if "tables (vs_world t) = S" for t c
    using that CloneFromProd by (simp add: wp_vcall lake_validation_def validated_def clone_wp)
  then show ?thesis using CloneFromProd
    by (simp add: run_op_def Let_def wp_bind) (rule ensure_call_wp [OF assms(1)])
qed

lemma close_tables: "tables (vs_world (close_adapter (lake_validation refuse lw) s)) = tables (vs_world s)"
  using close_keeps [OF refl, of "vs_world s"]
  by (simp add: close_adapter_def vcall_def lake_validation_def wp_def split: prod.splits sum.splits)

lemma finished_wp:
  assumes "tables (vs_world s) = S" and "\<not> in_tx (vs_world s)" and "run_op rn (lake_validation refuse lw) j s = (r, u)"
  shows "tables (vs_world u) = (case r of Inr _ \<Rightarrow> validated j S | Inl e \<Rightarrow> S)"
  using run_op_wp [OF assms(1,2), of rn refuse j] assms(3) by (simp add: wp_def split: sum.splits)

end

section \<open>A session behind the runner\<close>

definition duckdb_validation_from_env ::
  "'w duck_module \<Rightarrow> 'w temp_dir \<Rightarrow> (rat \<Rightarrow> 'w \<Rightarrow> 'w) \<Rightarrow> sql_parser \<Rightarrow> (pyval \<Rightarrow> exn) \<Rightarrow> env \<Rightarrow> ('w, 'w validation_adapter) op" where
  "duckdb_validation_from_env m td sleep parse refuse env =
     op_bind (op_of_res (lake_settings_from_env env)) (\<lambda>s.
     op_bind (duck_connect m td env sleep s) (\<lambda>ss.
     op_return (lake_validation refuse (session_warehouse td sleep parse ss))))"

locale duck_validation = duck_catalog +
  assumes read_gate: "ensure_single_read parse sql (Some ''duckdb'') = Inr () \<Longrightarrow> read_only (bare_read sql)"
    and run_drop_schema: "tables w = S \<Longrightarrow> \<not> in_tx w \<Longrightarrow> wp (dk_exec (ss_con ss) (drop_schema_sql (ss_catalog ss) s) None)
      (\<lambda>_ u. tables u = without_schema (ident_name s) S) (\<lambda>_ u. tables u = S) w"
    and run_begin_read_only: "tables w = S \<Longrightarrow> wp (dk_exec (ss_con ss) sql_begin_read_only None)
      (\<lambda>_ u. tables u = S) (\<lambda>_ u. tables u = S) w"
    and run_explain: "read_only q \<Longrightarrow> tables w = S \<Longrightarrow> wp (dk_exec (ss_con ss) (explain_read_sql q) None)
      (\<lambda>_ u. tables u = S) (\<lambda>_ u. tables u = S) w"
begin

lemma explain_wp:
  assumes "read_only q" and "tables w = S"
  shows "wp (lake_explain_read ss q) (\<lambda>_ u. tables u = S) (\<lambda>_ u. tables u = S) w"
  unfolding lake_explain_read_def wp_bind wp_finally
  by (rule wp_mono [OF run_wp [OF run_begin_read_only [OF assms(2)]]], rule wp_mono [OF run_wp [OF run_explain [OF assms(1)]]])
    (auto intro: rollback_wp)

end

sublocale duck_validation \<subseteq> lake_checks: lake_validation_port "session_warehouse td sleep parse ss"
    tables working in_tx merged read_only
  by unfold_locales
    (simp_all add: session_warehouse_def session_gateway_def Let_def read_gate run_wp run_drop_schema explain_wp)

context duck_validation begin

lemma validation_laws: "lake_validation_port (session_warehouse td sleep parse ss) tables working in_tx merged read_only"
  by (rule lake_checks.lake_validation_port_axioms)

end

text \<open>A whole run.\<close>

lemma validation_run_exact:
  assumes engine: "rn_entry_points rn = [(''duckdb'', Inr (Some (duck_required_env,
      duckdb_validation_from_env m td sleep parse refuse env)))]"
    and connect: "\<And>settings. lake_settings_from_env env = Inr settings \<Longrightarrow>
      wp (duck_connect m td env sleep settings)
        (\<lambda>ss u. tables u = tables (vs_world s) \<and> \<not> in_tx u
           \<and> duck_validation ss td sleep parse tables working in_tx view merged read_only)
        (\<lambda>_ u. tables u = tables (vs_world s)) (vs_world s)"
    and run: "runner_main rn env s = (code, s')"
  shows "tables (vs_world s') = (case gather rn env of
      Inr j \<Rightarrow> if code = 0 then validated j (tables (vs_world s)) else tables (vs_world s)
    | Inl _ \<Rightarrow> tables (vs_world s))"
proof -
  have printed: "vs_world (vprint b t) = vs_world t" for b and t :: "'a vstate" by (simp add: vprint_def)
  have found: "from_env = duckdb_validation_from_env m td sleep parse refuse env" if "find_engine rn env i = Inr from_env" for i from_env
    using that by (simp add: find_engine_def discover_adapter_def engine Let_def split: if_splits)
  have opened: "wp (duckdb_validation_from_env m td sleep parse refuse env)
      (\<lambda>ad u. tables u = tables (vs_world s) \<and> \<not> in_tx u \<and> (\<exists>ss. ad = lake_validation refuse (session_warehouse td sleep parse ss)
         \<and> duck_validation ss td sleep parse tables working in_tx view merged read_only))
      (\<lambda>_ u. tables u = tables (vs_world s)) (vs_world s)"
    unfolding duckdb_validation_from_env_def wp_bind wp_of_res wp_return
    by (auto split: sum.split intro!: wp_mono [OF connect])
  show ?thesis
  proof (cases "bind_res (gather rn env) (\<lambda>j. bind_res (find_engine rn env (vj_unique_id j)) (\<lambda>from_env. Inr (j, from_env)))")
    case (Inl x)
    obtain c msg i where "x = (c, msg, i)" by (cases x)
    then have "s' = vprint (error_block msg i) s" "code = c" using run Inl by (simp_all add: runner_main_def)
    moreover have "c \<noteq> 0" if "gather rn env = Inr j" for j
      using Inl that early_codes_inputs(4) [of rn env "vj_unique_id j"] \<open>x = (c, msg, i)\<close>
      by (cases "find_engine rn env (vj_unique_id j)") (auto simp: early_codes_def)
    ultimately show ?thesis by (auto simp: printed split: sum.split)
  next
    case (Inr x)
    then obtain j from_env where j: "gather rn env = Inr j" and from_env: "find_engine rn env (vj_unique_id j) = Inr from_env" "x = (j, from_env)"
      by (auto simp: res_simps)
    let ?conn = "duckdb_validation_from_env m td sleep parse refuse env"
    obtain r u where conn: "?conn (vs_world s) = (r, u)" by fastforce
    show ?thesis
    proof (cases r)
      case (Inl e)
      then have "tables u = tables (vs_world s)" using opened conn by (simp add: wp_def)
      then show ?thesis using run Inr from_env(2) found [OF from_env(1)] conn Inl j
        by (auto simp: runner_main_def vcall_def vprint_def)
    next
      case ad: (Inr ad)
      then obtain ss where ss: "ad = lake_validation refuse (session_warehouse td sleep parse ss)"
        "duck_validation ss td sleep parse tables working in_tx view merged read_only" "tables u = tables (vs_world s)" "\<not> in_tx u"
        using opened conn by (auto simp: wp_def)
      note laws = duck_validation.validation_laws [OF ss(2)]
      let ?s1 = "s\<lparr>vs_world := u, vs_calls := vs_calls s @ [VConnect]\<rparr>"
      obtain y s2 where y: "run_op rn ad j ?s1 = (y, s2)" by fastforce
      have "tables (vs_world s2) = (case y of Inr _ \<Rightarrow> validated j (tables (vs_world s)) | Inl e \<Rightarrow> tables (vs_world s))"
        using lake_validation_port.finished_wp [OF laws _ _ y [unfolded ss(1)]] ss(3,4) by simp
      moreover have "runner_main rn env s = (case y of
          Inl e \<Rightarrow> (1, close_adapter ad (vprint (error_block (exn_text e) (vj_unique_id j)) s2))
        | Inr _ \<Rightarrow> (0, vprint (success_block (vj_unique_id j)) (close_adapter ad s2)))"
        using Inr from_env(2) found [OF from_env(1)] conn ad y by (simp add: runner_main_def vcall_def split: sum.split)
      ultimately show ?thesis
        using run j by (auto simp: printed ss(1) lake_validation_port.close_tables [OF laws] split: sum.splits)
    qed
  qed
qed

end
