(* ===== verification/DuckSql.thy ===== *)
theory DuckSql
  imports DuckDdl
begin

text \<open>
  Reference readers for what the DuckDB adapter writes: a libpq connection string, a line of a passfile, the
  \<^verbatim>\<open>ATTACH\<close> statement, the statements that read or write a table. Each reads back what was meant, whatever the
  settings, the names and the password are.
\<close>

section \<open>Connection strings\<close>

text \<open>A value of \<^verbatim>\<open>keyword=value\<close>: quoted or up to the next blank; a backslash takes the next character as it is.\<close>

fun read_conn_quoted :: "string \<Rightarrow> (string \<times> string) option" where
  "read_conn_quoted [] = None"
| "read_conn_quoted [c] = (if c = quote1 then Some ([], []) else None)"
| "read_conn_quoted (c # d # s) =
     (if c = quote1 then Some ([], d # s)
      else if c = backslash then map_option (\<lambda>(v, r). (d # v, r)) (read_conn_quoted s)
      else map_option (\<lambda>(v, r). (c # v, r)) (read_conn_quoted (d # s)))"

fun read_conn_bare :: "string \<Rightarrow> string \<times> string" where
  "read_conn_bare [] = ([], [])"
| "read_conn_bare [c] = (if ascii_space c then ([], [c]) else if c = backslash then ([], []) else ([c], []))"
| "read_conn_bare (c # d # s) =
     (if ascii_space c then ([], c # d # s)
      else if c = backslash then (case read_conn_bare s of (v, r) \<Rightarrow> (d # v, r))
      else (case read_conn_bare (d # s) of (v, r) \<Rightarrow> (c # v, r)))"

definition read_conn_value :: "string \<Rightarrow> (string \<times> string) option" where
  "read_conn_value s = (case dropWhile ascii_space s of
     [] \<Rightarrow> Some ([], [])
   | c # r \<Rightarrow> if c = quote1 then read_conn_quoted r else Some (read_conn_bare (c # r)))"

definition keyword_char :: "char \<Rightarrow> bool" where
  "keyword_char c \<longleftrightarrow> c \<noteq> CHR ''='' \<and> \<not> ascii_space c"

definition read_conn_pair :: "string \<Rightarrow> ((string \<times> string) \<times> string) option" where
  "read_conn_pair s = (let keyword = takeWhile keyword_char s in
     case dropWhile ascii_space (dropWhile keyword_char s) of
       [] \<Rightarrow> None
     | c # r \<Rightarrow> if c = CHR ''='' then map_option (\<lambda>(v, t). ((keyword, v), t)) (read_conn_value r) else None)"

text \<open>The number of keywords is bounded by the length of the text.\<close>

fun read_pairs :: "nat \<Rightarrow> string \<Rightarrow> (string \<times> string) list option" where
  "read_pairs 0 s = None"
| "read_pairs (Suc n) s = (case dropWhile ascii_space s of
     [] \<Rightarrow> Some []
   | c # r \<Rightarrow> (case read_conn_pair (c # r) of None \<Rightarrow> None
       | Some (kv, t) \<Rightarrow> map_option (\<lambda>kvs. kv # kvs) (read_pairs n t)))"

definition read_conninfo :: "string \<Rightarrow> (string \<times> string) list option" where
  "read_conninfo s = read_pairs (Suc (length s)) s"

definition conn_escape :: "string \<Rightarrow> string" where
  "conn_escape v = replace_char quote1 [backslash, quote1] (replace_char backslash [backslash, backslash] v)"

lemma replace_char_append: "replace_char c r (s @ t) = replace_char c r s @ replace_char c r t"
  by (simp add: replace_char_def)

lemma replace_char_Nil [simp]: "replace_char c r [] = []"
  by (simp add: replace_char_def)

lemma conn_escape_simps [simp]:
  "conn_escape [] = []"
  "conn_escape (c # v) = (if c = backslash \<or> c = quote1 then [backslash, c] else [c]) @ conn_escape v"
  by (simp_all add: conn_escape_def replace_char_Cons replace_char_append)

lemma read_conn_quoted_escape: "read_conn_quoted (conn_escape v @ quote1 # rest) = Some (v, rest)"
proof (induction v)
  case Nil
  then show ?case by (cases rest) simp_all
next
  case (Cons c v)
  obtain d t where "conn_escape v @ quote1 # rest = d # t" by (cases "conn_escape v @ quote1 # rest") auto
  with Cons show ?case by auto
qed

text \<open>A value ends at a blank or at the end of the text.\<close>

definition value_end :: "string \<Rightarrow> bool" where
  "value_end rest \<longleftrightarrow> (case rest of [] \<Rightarrow> True | c # r \<Rightarrow> ascii_space c)"

lemma bare_char: "libpq_bare_char c \<Longrightarrow> \<not> ascii_space c \<and> c \<noteq> backslash \<and> c \<noteq> quote1"
  by (auto simp: libpq_bare_char_def is_upper_def is_lower_def is_digit_def ascii_space_def Let_def)

lemma read_conn_bare_text:
  "list_all libpq_bare_char v \<Longrightarrow> value_end rest \<Longrightarrow> read_conn_bare (v @ rest) = (v, rest)"
proof (induction v)
  case Nil
  then show ?case by (cases rest rule: read_conn_bare.cases) (auto simp: value_end_def)
next
  case (Cons c v)
  then show ?case using bare_char [of c] by (cases "v @ rest") auto
qed

lemma read_conn_value_text: "value_end rest \<Longrightarrow> read_conn_value (libpq_value v @ rest) = Some (v, rest)"
proof (cases "v \<noteq> [] \<and> list_all libpq_bare_char v")
  case True
  then obtain c u where "v = c # u" "libpq_bare_char c" by (cases v) auto
  moreover assume "value_end rest"
  ultimately show ?thesis
    using True bare_char [of c] read_conn_bare_text [of v rest] by (simp add: read_conn_value_def libpq_value_def)
next
  case False
  have "libpq_value v = quote1 # conn_escape v @ [quote1]" using False by (auto simp: libpq_value_def conn_escape_def)
  moreover have "\<not> ascii_space quote1" by (simp add: ascii_space_def)
  ultimately show ?thesis using read_conn_quoted_escape [of v rest] by (simp add: read_conn_value_def)
qed

lemma read_conn_pair_text:
  assumes "list_all keyword_char k" and "value_end rest"
  shows "read_conn_pair (k @ ''='' @ libpq_value v @ rest) = Some ((k, v), rest)"
proof -
  have "takeWhile keyword_char (k @ ''='' @ x) = k" "dropWhile keyword_char (k @ ''='' @ x) = ''='' @ x" for x
    using assms(1) by (simp_all add: takeWhile_append2 dropWhile_append2 list_all_iff keyword_char_def)
  moreover have "\<not> ascii_space (CHR ''='')" by (simp add: ascii_space_def)
  ultimately show ?thesis using read_conn_value_text [OF assms(2), of v] by (simp add: read_conn_pair_def)
qed

definition pair_text :: "string \<times> string \<Rightarrow> string" where
  "pair_text = (\<lambda>(k, v). k @ ''='' @ libpq_value v)"

lemma read_pairs_blank: "read_pairs n ('' '' @ rest) = read_pairs n rest"
  by (cases n) (simp_all add: ascii_space_def)

lemma read_pairs_first:
  assumes "k \<noteq> []" and "list_all keyword_char k" and "value_end rest" and "read_pairs n rest = Some kvs"
  shows "read_pairs (Suc n) (pair_text (k, v) @ rest) = Some ((k, v) # kvs)"
proof -
  obtain c u where "k = c # u" "\<not> ascii_space c" using assms(1,2) by (cases k) (auto simp: keyword_char_def)
  then show ?thesis using read_conn_pair_text [OF assms(2,3), of v] assms(4) by (simp add: pair_text_def)
qed

lemma read_pairs_text:
  "list_all (\<lambda>(k, v). k \<noteq> [] \<and> list_all keyword_char k) kvs \<Longrightarrow> length kvs < n \<Longrightarrow>
     read_pairs n (join '' '' (map pair_text kvs)) = Some kvs"
proof (induction kvs arbitrary: n rule: induct_list012)
  case 1
  then show ?case by (cases n) simp_all
next
  case (2 kv)
  obtain k v where kv: "kv = (k, v)" by fastforce
  from 2 obtain m where n: "n = Suc m" "m \<noteq> 0" by (cases n) auto
  then have "read_pairs m [] = Some []" by (cases m) simp_all
  from read_pairs_first [OF _ _ _ this, of k v] show ?case using 2 kv n by (simp add: value_end_def)
next
  case (3 kv kv' kvs)
  obtain k v where kv: "kv = (k, v)" by fastforce
  from 3 obtain m where n: "n = Suc m" "length (kv' # kvs) < m" by (cases n) auto
  have "read_pairs m ('' '' @ join '' '' (map pair_text (kv' # kvs))) = Some (kv' # kvs)"
    unfolding read_pairs_blank by (rule 3) (use 3 n in simp_all)
  from read_pairs_first [OF _ _ _ this, of k v] show ?case using 3 kv n by (simp add: value_end_def ascii_space_def)
qed

lemma conninfo_pairs: "conninfo s pf = join '' '' (map pair_text (conn_keywords s pf))"
  by (simp add: conninfo_def pair_text_def)

lemma length_join_pairs: "length kvs \<le> length (join '' '' (map pair_text kvs))"
  by (induction kvs rule: induct_list012) (auto simp: pair_text_def split: prod.splits)

lemma read_conninfo_text: "read_conninfo (conninfo s pf) = Some (conn_keywords s pf)"
proof -
  have "list_all (\<lambda>(k, v). k \<noteq> [] \<and> list_all keyword_char k) (conn_keywords s pf)"
    by (simp add: conn_keywords_def keyword_char_def ascii_space_def)
  then show ?thesis
    unfolding read_conninfo_def conninfo_pairs
    by (rule read_pairs_text) (use length_join_pairs le_imp_less_Suc in blast)
qed

section \<open>Passfiles\<close>

text \<open>libpq strips the line ends, compares four fields and reads the password up to the next colon.\<close>

fun read_field :: "string \<Rightarrow> string" where
  "read_field [] = []"
| "read_field [c] = (if c = CHR '':'' then [] else [c])"
| "read_field (c # d # s) = (if c = CHR '':'' then [] else if c = backslash then d # read_field s else c # read_field (d # s))"

definition read_passfile_line :: "string \<Rightarrow> string option" where
  "read_passfile_line line = map_option
     (\<lambda>r. read_field (rev (dropWhile (\<lambda>c. c = carriage_return) (rev (takeWhile (\<lambda>c. c \<noteq> newline) r)))))
     (expect ''*:*:*:*:'' line)"

lemma passfile_escape_simps [simp]:
  "passfile_escape [] = []"
  "passfile_escape (c # v) = (if c = backslash \<or> c = CHR '':'' then [backslash, c] else [c]) @ passfile_escape v"
  by (simp_all add: passfile_escape_def replace_char_Cons replace_char_append)

lemma read_field_escape: "read_field (passfile_escape p) = p"
proof (induction p)
  case (Cons c p)
  then show ?case by (cases "passfile_escape p") auto
qed simp

lemma passfile_escape_set: "c \<in> set (passfile_escape p) \<Longrightarrow> c \<in> set p \<or> c = backslash \<or> c = CHR '':''"
  by (induction p) (auto split: if_splits)

lemma read_passfile_line_text:
  assumes "can_store p"
  shows "read_passfile_line (passfile_line p) = Some p"
proof -
  let ?e = "passfile_escape p"
  have plain: "c \<noteq> newline \<and> c \<noteq> carriage_return" if "c \<in> set ?e" for c
    using passfile_escape_set [OF that] assms by (auto simp: can_store_def)
  have "takeWhile (\<lambda>c. c \<noteq> newline) (?e @ [newline]) = ?e"
    using plain by (subst takeWhile_append2) auto
  moreover have "dropWhile (\<lambda>c. c = carriage_return) (rev ?e) = rev ?e"
  proof (cases "rev ?e")
    case (Cons c r)
    then have "c \<in> set ?e" by (metis list.set_intros(1) set_rev)
    with plain Cons show ?thesis by simp
  qed simp
  ultimately show ?thesis
    unfolding read_passfile_line_def passfile_line_def expect_append option.map by (simp add: read_field_escape)
qed

section \<open>The attach statement\<close>

definition read_limit :: "string \<Rightarrow> int option option" where
  "read_limit s = (if s = '')'' then Some None
     else Option.bind (expect '', DATA_INLINING_ROW_LIMIT '' s) (\<lambda>r. let digits = takeWhile is_digit r in
       if digits \<noteq> [] \<and> r = digits @ '')'' then Some (Some (int (digits_val digits))) else None))"

definition read_attach :: "string \<Rightarrow> ((string \<times> string) list \<times> string \<times> string \<times> int option) option" where
  "read_attach s = Option.bind (expect ''ATTACH '' s) (\<lambda>r. Option.bind (read_quoted quote1 r) (\<lambda>(url, r1).
     Option.bind (expect '' AS '' r1) (\<lambda>r2. Option.bind (read_name r2) (\<lambda>(catalog, r3).
     Option.bind (expect '' (DATA_PATH '' r3) (\<lambda>r4. Option.bind (read_quoted quote1 r4) (\<lambda>(path, r5).
     Option.bind (expect ''ducklake:postgres:'' url) (\<lambda>info. Option.bind (read_conninfo info) (\<lambda>keywords.
     Option.bind (read_limit r5) (\<lambda>limit. Some (keywords, catalog, path, limit))))))))))"

definition limit_text :: "int option \<Rightarrow> string" where
  "limit_text limit = (case limit of None \<Rightarrow> '')'' | Some n \<Rightarrow> '', DATA_INLINING_ROW_LIMIT '' @ int_str n @ '')'')"

lemma read_limit_text:
  assumes "\<And>n. limit = Some n \<Longrightarrow> 0 \<le> n"
  shows "read_limit (limit_text limit) = Some limit"
proof (cases limit)
  case None
  then show ?thesis by (simp add: read_limit_def limit_text_def)
next
  case (Some n)
  have digits: "takeWhile is_digit (nat_str (nat n) @ '')'') = nat_str (nat n)"
    using nat_str_digits by (subst takeWhile_append2) (auto simp: is_digit_def)
  have "read_limit (limit_text (Some n)) = Option.bind (expect '', DATA_INLINING_ROW_LIMIT '' (limit_text (Some n)))
      (\<lambda>r. let digits = takeWhile is_digit r in
        if digits \<noteq> [] \<and> r = digits @ '')'' then Some (Some (int (digits_val digits))) else None)"
    by (simp add: read_limit_def limit_text_def)
  also have "\<dots> = Some (Some n)"
    unfolding limit_text_def option.case expect_append bind.bind_lunit Let_def
    using assms [OF Some] by (simp add: int_str_def digits digits_val_nat_str)
  finally show ?thesis using Some by simp
qed

lemma attach_statement_text:
  "attach_statement s catalog pf = ''ATTACH '' @ quoted quote1 (''ducklake:postgres:'' @ conninfo s pf) @ '' AS ''
     @ quoted quote2 catalog @ '' (DATA_PATH '' @ quoted quote1 (ls_data_path s) @ limit_text (ls_inlining_limit s)"
  by (simp add: attach_statement_def limit_text_def sql_literal_def quote_identifier_def split: option.splits)

lemma read_attach_text:
  assumes "\<And>n. ls_inlining_limit s = Some n \<Longrightarrow> 0 \<le> n"
  shows "read_attach (attach_statement s catalog pf)
     = Some (conn_keywords s pf, catalog, ls_data_path s, ls_inlining_limit s)"
proof -
  have url: "read_quoted quote1 (quoted quote1 u @ '' AS '' @ x) = Some (u, '' AS '' @ x)" for u x
    by (rule read_quoted) simp
  have name: "read_name (quoted quote2 catalog @ '' (DATA_PATH '' @ x) = Some (catalog, '' (DATA_PATH '' @ x)" for x
    by (rule read_name_quoted) simp
  have path: "read_quoted quote1 (quoted quote1 p @ limit_text l) = Some (p, limit_text l)" for p l
    by (rule read_quoted) (simp add: limit_text_def split: option.split)
  have limit: "read_limit (limit_text (ls_inlining_limit s)) = Some (ls_inlining_limit s)"
    by (rule read_limit_text) (rule assms)
  show ?thesis
    unfolding attach_statement_text read_attach_def expect_append bind.bind_lunit url name path prod.case read_conninfo_text limit
    by simp
qed

lemma settings_limit: "lake_settings_from_env env = Inr s \<Longrightarrow> ls_inlining_limit s = Some n \<Longrightarrow> 0 \<le> n"
  by (auto simp: lake_settings_from_env_def Let_def res_simps limit_of_digits_def split: option.splits if_splits)

section \<open>Statements on tables\<close>

datatype lake_stmt =
    DeleteAll "string \<times> string \<times> string"
  | InsertFrom "string \<times> string \<times> string" "string list" string
  | MergeFrom "string \<times> string \<times> string" "string list" "string list" string
  | CreateEmpty "string \<times> string \<times> string"
  | DropLake "string \<times> string \<times> string"

definition read_insert_from :: "string \<Rightarrow> lake_stmt option" where
  "read_insert_from s = Option.bind (read_ref s) (\<lambda>(t, r). Option.bind (expect '' ('' r) (\<lambda>r1.
     Option.bind (read_names r1) (\<lambda>(columns, r2). Option.bind (expect '') SELECT '' r2) (\<lambda>r3.
     Option.bind (read_names r3) (\<lambda>(columns', r4). Option.bind (expect '' FROM '' r4) (\<lambda>r5.
     Option.bind (read_name r5) (\<lambda>(view, r6).
     if r6 = [] \<and> columns' = columns then Some (InsertFrom t columns view) else None)))))))"

definition read_merge_from :: "string \<Rightarrow> lake_stmt option" where
  "read_merge_from s = Option.bind (read_ref s) (\<lambda>(t, r). Option.bind (expect '' AS t USING '' r) (\<lambda>r1.
     Option.bind (read_name r1) (\<lambda>(view, r2). Option.bind (read_merge_tail r2) (\<lambda>(columns, key).
     Some (MergeFrom t columns key view)))))"

definition read_lake :: "string \<Rightarrow> lake_stmt option" where
  "read_lake s =
     (case expect ''DELETE FROM '' s of Some r \<Rightarrow> Option.bind (read_ref r) (\<lambda>(t, r1). if r1 = [] then Some (DeleteAll t) else None)
      | None \<Rightarrow> (case expect ''INSERT INTO '' s of Some r \<Rightarrow> read_insert_from r
      | None \<Rightarrow> (case expect ''MERGE INTO '' s of Some r \<Rightarrow> read_merge_from r
      | None \<Rightarrow> (case expect ''CREATE TABLE '' s of Some r \<Rightarrow> map_option (\<lambda>(t, r1). CreateEmpty t) (read_ref r)
      | None \<Rightarrow> Option.bind (expect ''DROP TABLE IF EXISTS '' s) (\<lambda>r. map_option (\<lambda>(t, r1). DropLake t) (read_ref r))))))"

lemma lake_heads:
  "expect ''DELETE FROM '' (''INSERT INTO '' @ s) = None" "expect ''DELETE FROM '' (''MERGE INTO '' @ s) = None"
  "expect ''DELETE FROM '' (''CREATE TABLE '' @ s) = None" "expect ''DELETE FROM '' (''DROP TABLE IF EXISTS '' @ s) = None"
  "expect ''INSERT INTO '' (''MERGE INTO '' @ s) = None" "expect ''INSERT INTO '' (''CREATE TABLE '' @ s) = None"
  "expect ''INSERT INTO '' (''DROP TABLE IF EXISTS '' @ s) = None" "expect ''MERGE INTO '' (''CREATE TABLE '' @ s) = None"
  "expect ''MERGE INTO '' (''DROP TABLE IF EXISTS '' @ s) = None" "expect ''CREATE TABLE '' (''DROP TABLE IF EXISTS '' @ s) = None"
  by (simp_all add: expect_def starts_with_def)

definition table_parts :: "string \<Rightarrow> qualified_table \<Rightarrow> string \<times> string \<times> string" where
  "table_parts catalog t = (catalog, ident_name (qt_schema t), ident_name (qt_table t))"

lemma read_table_ref: "plain_start rest \<Longrightarrow> read_ref (lake_table_ref catalog t @ rest) = Some (table_parts catalog t, rest)"
  using read_ref_name [of rest catalog "ident_name (qt_schema t)" "ident_name (qt_table t)"]
  by (simp add: lake_table_ref_def lake_schema_ref_def ref_text_def quote_identifier_def table_parts_def)

lemma read_table_ref_whole: "read_ref (lake_table_ref catalog t) = Some (table_parts catalog t, [])"
  using read_table_ref [of "[]"] by simp

lemma read_delete_all: "read_lake (delete_all_sql catalog t) = Some (DeleteAll (table_parts catalog t))"
  unfolding read_lake_def delete_all_sql_def expect_append option.case read_table_ref_whole by simp

lemma read_drop_lake: "read_lake (lake_drop_table catalog t) = Some (DropLake (table_parts catalog t))"
  unfolding read_lake_def lake_drop_table_def expect_append lake_heads option.case read_table_ref_whole
    bind.bind_lunit option.map prod.case by (rule refl)

lemma read_create_head:
  "plain_start x \<Longrightarrow> read_lake (''CREATE TABLE '' @ lake_table_ref catalog t @ x) = Some (CreateEmpty (table_parts catalog t))"
  unfolding read_lake_def expect_append lake_heads option.case by (simp only: read_table_ref option.map prod.case)

lemma read_create_lake:
  "read_lake (lake_create_table catalog t columns False) = Some (CreateEmpty (table_parts catalog t))"
  "read_lake (create_as_sql catalog t sql) = Some (CreateEmpty (table_parts catalog t))"
  "read_lake (create_clone_sql catalog t source) = Some (CreateEmpty (table_parts catalog t))"
proof -
  have head: "''CREATE TABLE'' @ [] @ '' '' @ x = ''CREATE TABLE '' @ x" for x by simp
  show "read_lake (lake_create_table catalog t columns False) = Some (CreateEmpty (table_parts catalog t))"
    unfolding lake_create_table_def if_False head by (rule read_create_head) simp
  show "read_lake (create_as_sql catalog t sql) = Some (CreateEmpty (table_parts catalog t))"
    unfolding create_as_sql_def by (rule read_create_head) simp
  show "read_lake (create_clone_sql catalog t source) = Some (CreateEmpty (table_parts catalog t))"
    unfolding create_clone_sql_def by (rule read_create_head) simp
qed

lemma read_insert_select:
  "read_lake (insert_select_sql catalog t names view) = Some (InsertFrom (table_parts catalog t) names view)"
proof -
  have a: "read_ref (lake_table_ref catalog t @ '' ('' @ x) = Some (table_parts catalog t, '' ('' @ x)" for x
    by (rule read_table_ref) simp
  have n1: "read_names (join '', '' (map (quoted quote2) names) @ '') SELECT '' @ x) = Some (names, '') SELECT '' @ x)" for x
    by (rule read_names_join) (simp_all add: expect_def starts_with_def)
  have n2: "read_names (join '', '' (map (quoted quote2) names) @ '' FROM '' @ x) = Some (names, '' FROM '' @ x)" for x
    by (rule read_names_join) (simp_all add: expect_def starts_with_def)
  have q: "map quote_identifier names = map (quoted quote2) names" by (simp add: quote_identifier_def)
  have v: "read_name (quoted quote2 view) = Some (view, [])" using read_name_quoted [of "[]" view] by simp
  show ?thesis
    unfolding insert_select_sql_def Let_def q quote_identifier_def read_lake_def expect_append lake_heads option.case
      read_insert_from_def a bind.bind_lunit prod.case n1 n2 v by simp
qed

lemma merge_from_tail:
  assumes "merge_from_sql catalog t names key view = Inr sql"
  shows "sql = ''MERGE INTO '' @ lake_table_ref catalog t @ '' AS t USING '' @ quoted quote2 view @ merge_tail names key"
proof -
  have "quote_identifier = quoted quote2" by (simp add: fun_eq_iff quote_identifier_def)
  then show ?thesis using assms by (auto simp: merge_from_sql_def merge_tail_def column_list_def Let_def split: if_splits)
qed

lemma read_merge_from_text:
  assumes "merge_from_sql catalog t names key view = Inr sql"
  shows "read_lake sql = Some (MergeFrom (table_parts catalog t) names key view)"
proof -
  have a: "read_ref (lake_table_ref catalog t @ '' AS t USING '' @ x) = Some (table_parts catalog t, '' AS t USING '' @ x)" for x
    by (rule read_table_ref) simp
  have v: "read_name (quoted quote2 view @ merge_tail names key) = Some (view, merge_tail names key)"
    by (rule read_name_quoted) (simp add: merge_tail_def)
  show ?thesis
    unfolding merge_from_tail [OF assms] read_lake_def expect_append lake_heads option.case read_merge_from_def a
      bind.bind_lunit prod.case v read_merge_tail_text by simp
qed

text \<open>The drop of a schema, which no transaction of the use cases contains.\<close>

definition read_drop_schema :: "string \<Rightarrow> string option" where
  "read_drop_schema s = Option.bind (expect ''DROP SCHEMA IF EXISTS '' s) (\<lambda>r. Option.bind (read_dotted r) (\<lambda>(catalog, r1).
     Option.bind (read_name r1) (\<lambda>(schema, r2). if r2 = '' CASCADE'' then Some schema else None)))"

lemma read_drop_schema_sql: "read_drop_schema (drop_schema_sql catalog schema) = Some (ident_name schema)"
proof -
  have name: "read_name (quoted quote2 n @ '' CASCADE'') = Some (n, '' CASCADE'')" for n by (rule read_name_quoted) simp
  show ?thesis
    unfolding read_drop_schema_def drop_schema_sql_def lake_schema_ref_def quote_identifier_def append_assoc expect_append
      bind.bind_lunit read_dotted_quoted prod.case name by simp
qed

end
