(* ===== verification/DuckConnect.thy ===== *)
theory DuckConnect
  imports DuckWarehouse DuckSql
begin

text \<open>
  Opening and leaving a session: the bounded retry of the first attach, the life of the passfile that holds
  the password, and what an exception may say. \<open>passfile_dir\<close> states the laws of the temporary directory;
  \<open>duck_errors\<close> states which exceptions the module and a connection of it raise.
\<close>

section \<open>What opening a session keeps\<close>

text \<open>The statements that an attach may run.\<close>

definition attach_sql :: "lake_settings \<Rightarrow> string option \<Rightarrow> string set" where
  "attach_sql s pf = {set_extension_directory (the (ls_extension_directory s)), set_temp_directory (the (ls_temp_directory s)),
     s3_secret_statement s, attach_statement s catalog_alias pf, use_catalog catalog_alias}
     \<union> load_extension ` set (extensions_to_load s) \<union> install_extension ` set (extensions_to_load s)"

lemma attach_con_keeps:
  assumes "I w" and run: "\<And>sql u. sql \<in> attach_sql s pf \<Longrightarrow> I u \<Longrightarrow> wp (con_run con sql) (\<lambda>_. I) (\<lambda>_. I) u"
  shows "wp (attach_con m s pf con) (\<lambda>_. I) (\<lambda>_. I) w"
proof -
  have step: "wp (op_then (if b then con_run con sql else op_return ()) k) (\<lambda>_. I) (\<lambda>_. I) u"
    if "I u" "sql \<in> attach_sql s pf" "\<And>u. I u \<Longrightarrow> wp k (\<lambda>_. I) (\<lambda>_. I) u" for b sql u and k :: "('a, unit) op"
    using that by (auto simp: wp_bind wp_if wp_return intro!: wp_mono [OF run])
  have load: "wp (load_or_install m con name) (\<lambda>_. I) (\<lambda>_. I) u" if "name \<in> set (extensions_to_load s)" "I u" for name u
  proof -
    have "load_extension name \<in> attach_sql s pf" "install_extension name \<in> attach_sql s pf"
      using that(1) by (auto simp: attach_sql_def)
    then show ?thesis unfolding load_or_install_def
      using that(2) by (auto simp: wp_except wp_if wp_bind wp_raise intro!: wp_mono [OF run])
  qed
  have tail: "wp (op_then (con_run con (attach_statement s catalog_alias pf)) (con_run con (use_catalog catalog_alias)))
      (\<lambda>_. I) (\<lambda>_. I) u" if "I u" for u
    using that step [of u "attach_statement s catalog_alias pf" "con_run con (use_catalog catalog_alias)" True]
    by (simp add: attach_sql_def run)
  have loads: "wp (op_then (op_each (load_or_install m con) (extensions_to_load s)) k) (\<lambda>_. I) (\<lambda>_. I) u"
    if "I u" "\<And>u. I u \<Longrightarrow> wp k (\<lambda>_. I) (\<lambda>_. I) u" for u and k :: "('a, unit) op"
    unfolding wp_bind by (rule wp_each [where I = I], rule that(1), rule load, assumption+, rule that(2))
  show ?thesis
    unfolding attach_con_def
    by (rule step [OF assms(1)], simp add: attach_sql_def, rule step, assumption, simp add: attach_sql_def, rule loads, assumption,
        rule step, assumption, simp add: attach_sql_def, rule tail)
qed

lemma attach_loop_keeps:
  assumes "I w" and connects: "\<And>u. I u \<Longrightarrow> wp (dm_connect m) (\<lambda>con u. K con \<and> I u) (\<lambda>_. I) u"
    and run: "\<And>con sql u. K con \<Longrightarrow> sql \<in> attach_sql s pf \<Longrightarrow> I u \<Longrightarrow> wp (con_run con sql) (\<lambda>_. I) (\<lambda>_. I) u"
    and close: "\<And>con u. K con \<Longrightarrow> I u \<Longrightarrow> wp (dk_close con) (\<lambda>_. I) (\<lambda>_. I) u"
    and time: "\<And>d u. I u \<Longrightarrow> I (sleep d u)"
  shows "wp (attach_loop m sleep s pf)
    (\<lambda>ss u. K (ss_con ss) \<and> ss_module ss = m \<and> ss_catalog ss = catalog_alias \<and> ss_passfile ss = pf \<and> I u) (\<lambda>_. I) w"
proof -
  have opens: "wp (open_con m s pf) (\<lambda>con u. K con \<and> I u) (\<lambda>_. I) u" if "I u" for u
    unfolding open_con_def wp_bind wp_except wp_raise wp_return
    by (rule wp_mono [OF connects [OF that]]) (auto intro!: wp_mono [OF attach_con_keeps [where I = I]] run close)
  have "wp (retry (attach_delay m) sleep (open_con m s pf) 1 (attach_attempts - 1)) (\<lambda>con u. K con \<and> I u) (\<lambda>_. I) w"
    by (rule wp_retry [where I = I]) (simp_all add: assms(1) opens time)
  then show ?thesis
    unfolding attach_loop_def wp_bind wp_except wp_raise wp_return by (rule wp_mono) simp_all
qed

section \<open>The life of a passfile\<close>

definition con_keeps :: "('w \<Rightarrow> string set) \<Rightarrow> 'w duck_con \<Rightarrow> bool" where
  "con_keeps files con \<longleftrightarrow>
     (\<forall>sql params w. wp (dk_exec con sql params) (\<lambda>_ u. files u = files w) (\<lambda>_ u. files u = files w) w)
     \<and> (\<forall>w. wp (dk_close con) (\<lambda>_ u. files u = files w) (\<lambda>_ u. files u = files w) w)"

locale passfile_dir =
  fixes td :: "'w temp_dir" and m :: "'w duck_module" and sleep :: "rat \<Rightarrow> 'w \<Rightarrow> 'w" and files :: "'w \<Rightarrow> string set"
  assumes create_file: "wp (td_create td) (\<lambda>p u. p \<notin> files w \<and> files u = insert p (files w)) (\<lambda>_ u. files u = files w) w"
    and write_file: "wp (td_write td p t) (\<lambda>_ u. files u = files w) (\<lambda>_ u. files u = files w) w"
    and unlink_file: "wp (td_unlink td p) (\<lambda>_ u. files u = files w - {p})
      (\<lambda>e u. td_missing td e \<and> p \<notin> files w \<and> files u = files w) w"
    and module_connects: "wp (dm_connect m) (\<lambda>con u. con_keeps files con \<and> files u = files w) (\<lambda>_ u. files u = files w) w"
    and time_passes: "files (sleep d w) = files w"
begin

lemma close_passfile_wp: "wp (close_passfile td p) (\<lambda>_ u. files u = files w - {p}) (\<lambda>_ _. False) w"
  unfolding close_passfile_def wp_except
  by (rule wp_mono [OF unlink_file]) (auto simp: wp_if wp_return)

lemma open_passfile_wp:
  "wp (open_passfile td env password)
     (\<lambda>pf u. files w \<inter> set_option pf = {} \<and> files u = files w \<union> set_option pf) (\<lambda>_ u. files u = files w) w"
proof -
  have made: "wp (op_bind (make_passfile td password) (\<lambda>path. op_return (Some path)))
      (\<lambda>pf u. files w \<inter> set_option pf = {} \<and> files u = files w \<union> set_option pf) (\<lambda>_ u. files u = files w) w"
    unfolding make_passfile_def wp_bind wp_return wp_except wp_raise
    by (rule wp_mono [OF create_file])
      (auto intro!: wp_mono [OF write_file] wp_mono [OF close_passfile_wp])
  show ?thesis
    unfolding open_passfile_def wp_if wp_except wp_return
    by (auto intro!: wp_mono [OF made] simp: wp_return wp_raise)
qed

lemma attach_loop_wp:
  assumes "files w = F"
  shows "wp (attach_loop m sleep s pf) (\<lambda>ss u. con_keeps files (ss_con ss) \<and> ss_passfile ss = pf \<and> files u = F) (\<lambda>_ u. files u = F) w"
proof -
  have connects: "wp (dm_connect m) (\<lambda>con u. con_keeps files con \<and> files u = F) (\<lambda>_ u. files u = F) u" if "files u = F" for u
    by (rule wp_mono [OF module_connects]) (use that in auto)
  have run: "wp (con_run con sql) (\<lambda>_ u. files u = F) (\<lambda>_ u. files u = F) u" if "con_keeps files con" "files u = F" for con sql u
    unfolding con_run_def wp_bind wp_return using that by (auto simp: con_keeps_def)
  have close: "wp (dk_close con) (\<lambda>_ u. files u = F) (\<lambda>_ u. files u = F) u" if "con_keeps files con" "files u = F" for con u
    using that by (auto simp: con_keeps_def)
  show ?thesis
    by (rule wp_mono [OF attach_loop_keeps [where I = "\<lambda>u. files u = F" and K = "con_keeps files"]])
      (simp_all add: assms connects run close time_passes)
qed

text \<open>A session owns one new file at most; an attempt that fails leaves none behind.\<close>

lemma connect_wp:
  "wp (duck_connect m td env sleep s)
     (\<lambda>ss u. con_keeps files (ss_con ss) \<and> files w \<inter> set_option (ss_passfile ss) = {}
        \<and> files u = files w \<union> set_option (ss_passfile ss))
     (\<lambda>_ u. files u = files w) w"
proof -
  have close: "wp (close_if_open td pf) (\<lambda>_ u. files u = files w) (\<lambda>_ u. files u = files w) u"
    if "files w \<inter> set_option pf = {}" "files u = files w \<union> set_option pf" for pf u
    unfolding close_if_open_def using that
    by (cases pf) (auto simp: wp_return intro!: wp_mono [OF close_passfile_wp])
  show ?thesis
    unfolding duck_connect_def wp_bind wp_except wp_raise
    by (rule wp_mono [OF open_passfile_wp]) (auto intro!: wp_mono [OF attach_loop_wp] intro: close)
qed

lemma close_wp:
  assumes "con_keeps files (ss_con ss)"
  shows "wp (session_close td ss) (\<lambda>_ u. files u = files w - set_option (ss_passfile ss))
    (\<lambda>_ u. files u = files w - set_option (ss_passfile ss)) w"
proof -
  have close: "wp (close_if_open td (ss_passfile ss)) (\<lambda>_ u. files u = files w - set_option (ss_passfile ss))
      (\<lambda>_ u. files u = files w - set_option (ss_passfile ss)) u" if "files u = files w" for u
    unfolding close_if_open_def using that
    by (cases "ss_passfile ss") (auto simp: wp_return intro!: wp_mono [OF close_passfile_wp])
  have con: "wp (dk_close (ss_con ss)) (\<lambda>_ u. files u = files w) (\<lambda>_ u. files u = files w) w"
    using assms by (simp add: con_keeps_def)
  show ?thesis
    unfolding session_close_def wp_finally by (rule wp_mono [OF con]) (auto intro: close)
qed

end

section \<open>The retry of the first attach\<close>

lemma attach_loop_succeeds:
  assumes "tries (attach_delay m) sleep (open_con m s pf) 1 w fs v" and "length fs < attach_attempts"
    and "open_con m s pf v = (Inr con, u)"
  shows "attach_loop m sleep s pf w = (Inr \<lparr>ss_module = m, ss_con = con, ss_catalog = catalog_alias,
    ss_secrets = secret_texts s, ss_passfile = pf\<rparr>, u)"
proof -
  have "retry (attach_delay m) sleep (open_con m s pf) 1 (attach_attempts - 1) w = (Inr con, u)"
    by (rule duck_attach.retry_succeeds [OF assms(1,3)]) (use assms(2) in \<open>simp add: attach_attempts_def\<close>)
  then show ?thesis by (simp add: attach_loop_def op_bind_def op_except_def op_return_def)
qed

lemma attach_loop_fails:
  assumes "attach_loop m sleep s pf w = (Inl e, u)"
  shows "\<exists>fs v e'. tries (attach_delay m) sleep (open_con m s pf) 1 w fs v \<and> length fs < attach_attempts
    \<and> open_con m s pf v = (Inl e', u) \<and> e = (if dm_error m e' then translate m (secret_texts s) False e' else e')
    \<and> (attach_retryable m e' \<longrightarrow> length fs = attach_attempts - 1)"
proof -
  obtain r where r: "retry (attach_delay m) sleep (open_con m s pf) 1 (attach_attempts - 1) w = (r, u)"
    "\<exists>e'. r = Inl e' \<and> e = (if dm_error m e' then translate m (secret_texts s) False e' else e')"
    using assms by (auto simp: attach_loop_def op_bind_def op_except_def op_raise_def op_return_def split: prod.splits sum.splits)
  then obtain e' where e': "r = Inl e'" "e = (if dm_error m e' then translate m (secret_texts s) False e' else e')" by blast
  from duck_attach.retry_outcome [OF r(1)] obtain fs v where
    "tries (attach_delay m) sleep (open_con m s pf) 1 w fs v" "length fs \<le> attach_attempts - 1" "open_con m s pf v = (r, u)"
    "\<forall>e. r = Inl e \<longrightarrow> attach_retryable m e \<longrightarrow> length fs = attach_attempts - 1" by blast
  then show ?thesis using e' by (intro exI [of _ fs] exI [of _ v] exI [of _ e']) (auto simp: attach_attempts_def)
qed

section \<open>What an exception may say\<close>

definition discreet :: "'w duck_module \<Rightarrow> string list \<Rightarrow> exn \<Rightarrow> bool" where
  "discreet m secrets e \<longleftrightarrow> (dm_error m e \<or> is_conflict e \<longrightarrow>
     (\<forall>t\<in>set secrets. star_free t \<longrightarrow> t \<noteq> [] \<longrightarrow> \<not> contains t (exn_text e)))"

definition discreet_op :: "'w duck_module \<Rightarrow> string list \<Rightarrow> ('w, 'a) op \<Rightarrow> bool" where
  "discreet_op m secrets body \<longleftrightarrow> (\<forall>w e u. body w = (Inl e, u) \<longrightarrow> discreet m secrets e)"

lemma translate_discreet: "discreet m secrets (translate m secrets c e)"
  by (simp add: discreet_def translate_def Let_def redact_free)

text \<open>\<open>foreign\<close>: exceptions that are neither the module's nor the session's conflict.\<close>

definition foreign :: "'w duck_module \<Rightarrow> exn \<Rightarrow> bool" where
  "foreign m e \<longleftrightarrow> \<not> dm_error m e \<and> \<not> is_conflict e"

lemma foreign_discreet: "foreign m e \<Longrightarrow> discreet m secrets e"
  by (simp add: foreign_def discreet_def)

definition no_conflicts :: "('w, 'a) op \<Rightarrow> bool" where
  "no_conflicts body \<longleftrightarrow> (\<forall>w e u. body w = (Inl e, u) \<longrightarrow> \<not> is_conflict e)"

lemma guarded_discreet:
  assumes "discreet_op m secrets body \<or> no_conflicts body"
  shows "discreet_op m secrets (guarded m secrets c body)"
proof -
  have raised: "discreet m secrets (if dm_error m e then translate m secrets c e else e)"
    if "discreet m secrets e \<or> \<not> is_conflict e" for e
    using that translate_discreet [of m secrets c e] by (auto simp: discreet_def)
  have "discreet m secrets e \<or> \<not> is_conflict e" if "body w = (Inl e, u)" for w e u
    using assms that by (auto simp: discreet_op_def no_conflicts_def)
  then show ?thesis
    using raised by (auto simp: discreet_op_def guarded_def op_except_def op_raise_def split: prod.splits sum.splits)
qed

lemma discreet_return [simp]: "discreet_op m secrets (op_return a)"
  by (simp add: discreet_op_def op_return_def)

lemma discreet_bind:
  "discreet_op m secrets body \<Longrightarrow> (\<And>a. discreet_op m secrets (f a)) \<Longrightarrow> discreet_op m secrets (op_bind body f)"
  unfolding discreet_op_def op_bind_def by (auto split: prod.splits sum.splits)

lemma discreet_except:
  "discreet_op m secrets body \<Longrightarrow> (\<And>e. discreet m secrets e \<Longrightarrow> discreet_op m secrets (h e)) \<Longrightarrow> discreet_op m secrets (op_except body h)"
  unfolding discreet_op_def op_except_def by (auto split: prod.splits sum.splits) blast+

lemma discreet_finally:
  "discreet_op m secrets body \<Longrightarrow> discreet_op m secrets fin \<Longrightarrow> discreet_op m secrets (op_finally body fin)"
  unfolding discreet_op_def op_finally_def by (auto split: prod.splits sum.splits) blast+

lemma discreet_raise: "discreet m secrets e \<Longrightarrow> discreet_op m secrets (op_raise e)"
  by (simp add: discreet_op_def op_raise_def)

locale duck_errors =
  fixes ss :: "'w duck_session"
  assumes exec_no_conflicts: "no_conflicts (dk_exec (ss_con ss) sql params)"
    and arrow_no_conflicts: "no_conflicts (dk_arrow (ss_con ss) sql)"
    and register_no_conflicts: "no_conflicts (dk_register (ss_con ss) v data)"
    and unregister_no_conflicts: "no_conflicts (dk_unregister (ss_con ss) v)"
    and token_foreign: "dm_token (ss_module ss) w = (Inl e, u) \<Longrightarrow> foreign (ss_module ss) e"
    and value_error_foreign: "foreign (ss_module ss) (Exn ValueError t)"
begin

abbreviation ok_op :: "('w, 'a) op \<Rightarrow> bool" where
  "ok_op \<equiv> discreet_op (ss_module ss) (ss_secrets ss)"

lemma rows_discreet: "ok_op (session_rows ss sql params)"
  unfolding session_rows_def session_guard_def by (rule guarded_discreet) (simp add: exec_no_conflicts)

lemma run_discreet: "ok_op (session_run ss sql)"
  unfolding session_run_def by (intro discreet_bind rows_discreet) simp

lemma swallow_discreet:
  assumes "no_conflicts body"
  shows "ok_op (op_except body (\<lambda>e. if dm_error (ss_module ss) e then op_return () else op_raise e))"
  using assms unfolding discreet_op_def no_conflicts_def op_except_def
  by (auto simp: op_return_def op_raise_def discreet_def split: prod.splits sum.splits if_splits)

lemma rollback_discreet: "ok_op (session_rollback ss)"
  unfolding session_rollback_def con_run_def
  by (rule swallow_discreet) (use exec_no_conflicts [of sql_rollback None] in \<open>auto simp: no_conflicts_def op_bind_def op_return_def split: prod.splits sum.splits\<close>)

lemma transaction_discreet: "ok_op body \<Longrightarrow> ok_op (session_transaction ss body)"
  unfolding session_transaction_def
  by (intro discreet_bind discreet_except run_discreet rollback_discreet discreet_raise)

lemma guard_discreet: "ok_op body \<Longrightarrow> ok_op (session_guard ss body)"
  unfolding session_guard_def by (rule guarded_discreet) simp

lemma query_discreet: "ok_op (session_guard ss (session_rows ss sql params))"
  by (intro guard_discreet rows_discreet)

lemma view_discreet:
  assumes "\<And>v. ok_op (body v)"
  shows "ok_op (with_view ss prefix data body)"
proof -
  have token: "ok_op (dm_token (ss_module ss))" using token_foreign by (auto simp: discreet_op_def foreign_discreet)
  have reg: "ok_op (session_guard ss (dk_register (ss_con ss) v data))" for v
    unfolding session_guard_def by (rule guarded_discreet) (simp add: register_no_conflicts)
  show ?thesis
    unfolding with_view_def Let_def
    by (intro discreet_bind discreet_finally token reg assms swallow_discreet unregister_no_conflicts)
qed

lemma insert_discreet: "ok_op (lake_insert_arrow ss t data)"
  unfolding lake_insert_arrow_def by (intro view_discreet run_discreet)

lemma merge_discreet: "ok_op (lake_merge_arrow ss t data key)"
proof -
  have "ok_op (op_of_res (merge_from_sql (ss_catalog ss) t names key v))" for names v
    using value_error_foreign by (auto simp: discreet_op_def op_of_res_def merge_from_sql_def Let_def foreign_discreet split: if_splits)
  then show ?thesis unfolding lake_merge_arrow_def by (intro view_discreet discreet_bind run_discreet)
qed

lemma fetch_discreet: "ok_op (lake_fetch_arrow ss sql)"
  unfolding lake_fetch_arrow_def by (rule guarded_discreet) (simp add: arrow_no_conflicts)

lemma explain_discreet: "ok_op (lake_explain_read ss sql)"
  unfolding lake_explain_read_def by (intro discreet_bind discreet_finally run_discreet rollback_discreet)

lemma layout_discreet: "ok_op (lake_apply_layout ss t l)"
  unfolding lake_apply_layout_def by (intro discreet_bind) (simp_all add: run_discreet)

lemma exists_discreet: "ok_op (lake_table_exists ss t)"
  unfolding lake_table_exists_def by (intro discreet_bind query_discreet) simp

lemma columns_discreet: "ok_op (lake_columns ss t)"
  unfolding lake_columns_def by (intro discreet_bind query_discreet) simp

end

section \<open>The secrets of a session\<close>

text \<open>Some run of an operation raises an exception of the module, or a conflict, whose text has \<open>t\<close> in it.\<close>

definition says :: "'w duck_module \<Rightarrow> string \<Rightarrow> ('w, 'a) op \<Rightarrow> bool" where
  "says m t body \<longleftrightarrow> (\<exists>w e u. body w = (Inl e, u) \<and> (dm_error m e \<or> is_conflict e) \<and> contains t (exn_text e))"

lemma discreet_says:
  "discreet_op m secrets body \<Longrightarrow> t \<in> set secrets \<Longrightarrow> star_free t \<Longrightarrow> t \<noteq> [] \<Longrightarrow> \<not> says m t body"
  by (auto simp: says_def discreet_op_def discreet_def)

lemma attach_loop_discreet:
  assumes "attach_loop m sleep s pf w = (Inl e, u)" and "dm_error m e" and "t \<in> set (secret_texts s)" and "star_free t" and "t \<noteq> []"
  shows "\<not> contains t (exn_text e)"
proof -
  from attach_loop_fails [OF assms(1)] obtain e' where
    "e = (if dm_error m e' then translate m (secret_texts s) False e' else e')" by blast
  then have "dm_error m e'" "e = translate m (secret_texts s) False e'" using assms(2) by (auto split: if_splits)
  then show ?thesis using translate_discreet [of m "secret_texts s" False e'] assms(2-5) by (auto simp: discreet_def)
qed

text \<open>Every spelling of both credentials is masked; a spelling is free of asterisks when the credential is.\<close>

lemma star_free_libpq: "star_free (libpq_value s) \<longleftrightarrow> star_free s"
proof -
  have "set (conn_escape s) = set s \<union> (if backslash \<in> set s \<or> quote1 \<in> set s then {backslash} else {})"
    by (induction s) auto
  then show ?thesis by (auto simp: star_free_def libpq_value_def conn_escape_def [symmetric])
qed

lemma star_free_doubled: "star_free (replace_char quote1 [quote1, quote1] s) \<longleftrightarrow> star_free s"
proof -
  have "set (replace_char quote1 [quote1, quote1] s) = set s" by (induction s) (auto simp: replace_char_Cons)
  then show ?thesis by (simp add: star_free_def)
qed

lemma doubled_not_Nil: "s \<noteq> [] \<Longrightarrow> replace_char quote1 [quote1, quote1] s \<noteq> []"
  by (cases s) (simp_all add: replace_char_Cons)

lemma spellings_not_Nil: "secret \<noteq> [] \<Longrightarrow> t \<in> set (spellings secret) \<Longrightarrow> t \<noteq> []"
proof -
  assume secret: "secret \<noteq> []" and t: "t \<in> set (spellings secret)"
  have quoted: "libpq_value secret \<noteq> []" using secret by (simp add: libpq_value_def)
  have "\<forall>x\<in>set (spellings secret). x \<noteq> []"
    unfolding spellings_def Let_def list.set ball_simps
    by (intro conjI TrueI secret quoted doubled_not_Nil)
  then show "t \<noteq> []" using t by (rule bspec)
qed

lemma spellings_star_free: "star_free secret \<Longrightarrow> t \<in> set (spellings secret) \<Longrightarrow> star_free t"
  by (auto simp: spellings_def Let_def star_free_doubled star_free_libpq)

lemma secret_texts_spellings:
  assumes "secret = ls_password s \<or> ls_secret_access_key s = Some secret" and "secret \<noteq> []" and "t \<in> set (spellings secret)"
  shows "t \<in> set (secret_texts s)"
  using assms by (auto simp: secret_texts_def)

end
