(* ===== verification/SampleDuck.thy ===== *)
theory SampleDuck
  imports DuckValidation DuckConnect SampleRunner
begin

text \<open>
  A concrete DuckLake for the witnesses. Statements are scanned by the reference reader and act on the tables
  of the open transaction; a commit fails while conflicts are pending, an attach while the catalog refuses;
  an insert refuses a null, as a table of non-null columns does.
\<close>

type_synonym lake_tables = "((string \<times> string) \<times> lake_row multiset) list"

record lake_world =
  lk_com :: lake_tables
  lk_wrk :: lake_tables
  lk_tx :: bool
  lk_views :: "(string \<times> arrow_table) list"
  lk_conflicts :: nat
  lk_refusals :: nat
  lk_files :: "(string \<times> string) list"

text \<open>Tables keep the casing of their names and are looked up without it.\<close>

definition look :: "lake_tables \<Rightarrow> lake_store" where
  "look ts k = map_of (map (\<lambda>(n, rows). (fold_key (fst n) (snd n), rows)) ts) k"

definition remove_table :: "string \<times> string \<Rightarrow> lake_tables \<Rightarrow> lake_tables" where
  "remove_table n ts = filter (\<lambda>(a, rows). fold_key (fst a) (snd a) \<noteq> fold_key (fst n) (snd n)) ts"

definition put_table :: "string \<times> string \<Rightarrow> lake_row multiset \<Rightarrow> lake_tables \<Rightarrow> lake_tables" where
  "put_table n rows ts = (n, rows) # remove_table n ts"

lemma look_remove: "look (remove_table n ts) = (look ts)(fold_key (fst n) (snd n) := None)"
proof
  show "look (remove_table n ts) k = ((look ts)(fold_key (fst n) (snd n) := None)) k" for k
    by (induction ts) (auto simp: look_def remove_table_def)
qed

lemma look_put: "look (put_table n rows ts) = (look ts)(fold_key (fst n) (snd n) \<mapsto> rows)"
proof
  show "look (put_table n rows ts) k = ((look ts)(fold_key (fst n) (snd n) \<mapsto> rows)) k" for k
    using fun_cong [OF look_remove [of n ts], of k] by (simp add: look_def put_table_def)
qed

definition remove_schema :: "string \<Rightarrow> lake_tables \<Rightarrow> lake_tables" where
  "remove_schema schema ts = filter (\<lambda>(a, rows). ascii_lower (fst a) \<noteq> ascii_lower schema) ts"

lemma look_remove_schema: "look (remove_schema schema ts) = without_schema schema (look ts)"
proof
  show "look (remove_schema schema ts) k = without_schema schema (look ts) k" for k
    by (induction ts) (auto simp: look_def remove_schema_def without_schema_def fold_key_def)
qed

lemma look_SomeD: "look ts k = Some r \<Longrightarrow> \<exists>n. (n, r) \<in> set ts \<and> fold_key (fst n) (snd n) = k"
  unfolding look_def by (drule map_of_SomeD) fastforce

lemma look_member: "(n, r) \<in> set ts \<Longrightarrow> look ts (fold_key (fst n) (snd n)) \<noteq> None"
  unfolding look_def map_of_eq_None_iff by (rule notI) (force simp: image_iff)

text \<open>A matched row takes the new values, an unmatched one is added.\<close>

definition lake_merge :: "string list \<Rightarrow> string list \<Rightarrow> lake_row multiset \<Rightarrow> lake_row multiset \<Rightarrow> lake_row multiset" where
  "lake_merge names key staged old =
     filter_mset (\<lambda>r. \<not> (\<exists>s\<in>set_mset staged. map s key = map r key)) old + staged"

fun lake_apply :: "lake_stmt \<Rightarrow> (string \<times> arrow_table) list \<Rightarrow> lake_tables \<Rightarrow> lake_tables option" where
  "lake_apply (DeleteAll (c, s, t)) vs ts =
     (if look ts (fold_key s t) = None then None else Some (put_table (s, t) {#} ts))"
| "lake_apply (InsertFrom (c, s, t) names v) vs ts = (case (look ts (fold_key s t), map_of vs v) of
     (Some old, Some data) \<Rightarrow>
       if list_ex (\<lambda>r. PNone \<in> set r) (row_values data) then None else Some (put_table (s, t) (old + lake_rows data) ts)
   | _ \<Rightarrow> None)"
| "lake_apply (MergeFrom (c, s, t) names key v) vs ts = (case (look ts (fold_key s t), map_of vs v) of
     (Some old, Some data) \<Rightarrow>
       if list_ex (\<lambda>r. PNone \<in> set r) (row_values data) then None
       else Some (put_table (s, t) (lake_merge names key (lake_rows data) old) ts)
   | _ \<Rightarrow> None)"
| "lake_apply (CreateEmpty (c, s, t)) vs ts =
     (if look ts (fold_key s t) = None then Some (put_table (s, t) {#} ts) else None)"
| "lake_apply (DropLake (c, s, t)) vs ts = Some (remove_table (s, t) ts)"

definition lake_exn :: "string \<Rightarrow> string \<Rightarrow> exn" where
  "lake_exn cls message = Exn (OtherError cls) message"

definition sample_refusing :: string where
  "sample_refusing = ''unable to connect: connection to server at 10.0.0.1 failed: Connection refused''"

definition sample_lake_exec :: "string \<Rightarrow> pyval list option \<Rightarrow> (lake_world, pyval list list) op" where
  "sample_lake_exec sql params w =
     (if sql = sql_begin then
        if lk_tx w then (Inl (lake_exn ''TransactionException'' ''cannot start a transaction within a transaction''), w)
        else (Inr [], w\<lparr>lk_tx := True, lk_wrk := lk_com w\<rparr>)
      else if sql = sql_commit then
        if 0 < lk_conflicts w then
          (Inl (lake_exn ''TransactionException'' ''conflict''), w\<lparr>lk_tx := False, lk_conflicts := lk_conflicts w - 1\<rparr>)
        else (Inr [], w\<lparr>lk_tx := False, lk_com := if lk_tx w then lk_wrk w else lk_com w\<rparr>)
      else if sql = sql_rollback then (Inr [], w\<lparr>lk_tx := False\<rparr>)
      else if params \<noteq> None then (Inr (map (\<lambda>(n, rows). [PStr (fst n), PStr (snd n)]) (lk_wrk w)), w)
      else case read_lake sql of
          Some st \<Rightarrow> if \<not> lk_tx w then (Inl (lake_exn ''Error'' ''no transaction''), w)
            else (case lake_apply st (lk_views w) (lk_wrk w) of
                Some ts \<Rightarrow> (Inr [], w\<lparr>lk_wrk := ts\<rparr>)
              | None \<Rightarrow> (Inl (lake_exn ''ConstraintException'' ''refused''), w))
        | None \<Rightarrow> if read_drop_schema sql \<noteq> None then
              if lk_tx w then (Inl (lake_exn ''Error'' ''a transaction is open''), w)
              else (Inr [], w\<lparr>lk_com := remove_schema (the (read_drop_schema sql)) (lk_com w)\<rparr>)
            else if starts_with ''ATTACH '' sql \<and> 0 < lk_refusals w
            then (Inl (lake_exn ''IOException'' sample_refusing), w\<lparr>lk_refusals := lk_refusals w - 1\<rparr>)
            else (Inr [], w))"

definition sample_lake_con :: "lake_world duck_con" where
  "sample_lake_con = \<lparr>dk_exec = sample_lake_exec, dk_arrow = \<lambda>sql. op_return sample_table,
     dk_register = \<lambda>v data w. (Inr (), w\<lparr>lk_views := (v, data) # lk_views w\<rparr>),
     dk_unregister = \<lambda>v w. (Inr (), w\<lparr>lk_views := filter (\<lambda>(n, d). n \<noteq> v) (lk_views w)\<rparr>),
     dk_close = op_return ()\<rparr>"

definition sample_duck :: "lake_world duck_module" where
  "sample_duck = \<lparr>dm_connect = op_return sample_lake_con,
     dm_error = \<lambda>e. exn_kind e \<in> OtherError ` {''TransactionException'', ''ConstraintException'', ''IOException'', ''Error''},
     dm_conflict = \<lambda>e. exn_kind e = OtherError ''TransactionException'', dm_rebuilds = \<lambda>c. True, dm_token = op_return ''0f''\<rparr>"

definition fresh_path :: "(string \<times> string) list \<Rightarrow> string" where
  "fresh_path fs = concat (map fst fs) @ ''p''"

definition sample_tmp :: "lake_world temp_dir" where
  "sample_tmp = \<lparr>
     td_create = \<lambda>w. (Inr (fresh_path (lk_files w)), w\<lparr>lk_files := (fresh_path (lk_files w), []) # lk_files w\<rparr>),
     td_write = \<lambda>p t w. (Inr (), w\<lparr>lk_files := map (\<lambda>(n, old). (n, if n = p then t else old)) (lk_files w)\<rparr>),
     td_unlink = \<lambda>p w. if p \<in> fst ` set (lk_files w) then (Inr (), w\<lparr>lk_files := filter (\<lambda>(n, t). n \<noteq> p) (lk_files w)\<rparr>)
       else (Inl (lake_exn ''FileNotFoundError'' p), w),
     td_os_error = \<lambda>e. exn_kind e \<in> {OSError, OtherError ''FileNotFoundError''},
     td_missing = \<lambda>e. exn_kind e = OtherError ''FileNotFoundError''\<rparr>"

definition sample_lake_session :: "lake_world duck_session" where
  "sample_lake_session = \<lparr>ss_module = sample_duck, ss_con = sample_lake_con, ss_catalog = ''lake'', ss_secrets = [''pw''],
     ss_passfile = None\<rparr>"

abbreviation lake_tables_of :: "lake_world \<Rightarrow> lake_store" where "lake_tables_of w \<equiv> look (lk_com w)"
abbreviation lake_working_of :: "lake_world \<Rightarrow> lake_store" where "lake_working_of w \<equiv> look (lk_wrk w)"
abbreviation lake_view_of :: "lake_world \<Rightarrow> string \<Rightarrow> arrow_table option" where "lake_view_of w \<equiv> map_of (lk_views w)"

lemma control_read: "read_lake sql_begin = None" "read_lake sql_commit = None" "read_lake sql_rollback = None"
  by code_simp+

lemma sample_con_exec: "dk_exec sample_lake_con = sample_lake_exec"
  by (simp add: sample_lake_con_def)

lemma session_fields [simp]:
  "ss_con sample_lake_session = sample_lake_con" "ss_module sample_lake_session = sample_duck" "ss_catalog sample_lake_session = ''lake''"
  "dk_exec sample_lake_con = sample_lake_exec"
  by (simp_all add: sample_lake_session_def sample_lake_con_def)

text \<open>A statement that the reader reads is run in the transaction, or refused.\<close>

lemma lake_statement:
  assumes "read_lake sql = Some st" and "tx_state lake_tables_of lake_working_of lk_tx S T w"
    and "\<And>ts. lake_apply st (lk_views w) (lk_wrk w) = Some ts \<Longrightarrow> P (look ts)"
    and "\<And>u. \<exists>T'. P T' \<and> tx_state lake_tables_of lake_working_of lk_tx S T' u \<Longrightarrow> Q u"
  shows "wp (sample_lake_exec sql None) (\<lambda>_. Q) (\<lambda>_ u. lake_tables_of u = S) w"
proof -
  have "sql \<noteq> sql_begin" "sql \<noteq> sql_commit" "sql \<noteq> sql_rollback" using assms(1) control_read by auto
  then show ?thesis
    using assms by (auto simp: wp_def sample_lake_exec_def tx_state_def split: option.splits)
qed

text \<open>Any other text changes no table.\<close>

lemma lake_other:
  assumes "read_lake sql = None" and "read_drop_schema sql = None" and "sql \<noteq> sql_begin" and "sql \<noteq> sql_commit" and "sql \<noteq> sql_rollback"
    and "\<And>u. lk_com u = lk_com w \<Longrightarrow> lk_wrk u = lk_wrk w \<Longrightarrow> lk_tx u = lk_tx w \<Longrightarrow> Q u"
    and "\<And>u. lk_com u = lk_com w \<Longrightarrow> E u"
  shows "wp (sample_lake_exec sql params) (\<lambda>_. Q) (\<lambda>_. E) w"
  using assms by (auto simp: wp_def sample_lake_exec_def)

lemma other_texts:
  "read_lake (set_partitioned_sql c t ps) = None" "read_lake (set_sorted_sql c t ks) = None"
  "read_lake (create_schema_sql c s) = None" "read_lake columns_query = None" "read_lake table_exists_query = None"
  by (simp_all add: read_lake_def set_partitioned_sql_def set_sorted_sql_def create_schema_sql_def columns_query_def
      table_exists_query_def expect_def starts_with_def)

lemma no_drops:
  "read_drop_schema (set_partitioned_sql c t ps) = None" "read_drop_schema (set_sorted_sql c t ks) = None"
  "read_drop_schema (create_schema_sql c s) = None" "read_drop_schema columns_query = None"
  "read_drop_schema (explain_read_sql q) = None" "read_drop_schema sql_begin_read_only = None"
  by (simp_all add: read_drop_schema_def set_partitioned_sql_def set_sorted_sql_def create_schema_sql_def columns_query_def
      explain_read_sql_def sql_begin_read_only_def expect_def starts_with_def)

lemma checks_read:
  "read_lake (explain_read_sql q) = None" "read_lake sql_begin_read_only = None" "read_lake (drop_schema_sql c s) = None"
  by (simp_all add: read_lake_def explain_read_sql_def sql_begin_read_only_def drop_schema_sql_def expect_def starts_with_def)

lemma checks_not_control:
  "explain_read_sql q \<notin> {sql_begin, sql_commit, sql_rollback}" "sql_begin_read_only \<notin> {sql_begin, sql_commit, sql_rollback}"
  "drop_schema_sql c s \<notin> {sql_begin, sql_commit, sql_rollback}"
  by (simp_all add: explain_read_sql_def sql_begin_read_only_def drop_schema_sql_def sql_begin_def sql_commit_def sql_rollback_def)

lemma not_control:
  "set_partitioned_sql c t ps \<notin> {sql_begin, sql_commit, sql_rollback}" "set_sorted_sql c t ks \<notin> {sql_begin, sql_commit, sql_rollback}"
  "create_schema_sql c s \<notin> {sql_begin, sql_commit, sql_rollback}" "columns_query \<notin> {sql_begin, sql_commit, sql_rollback}"
  "table_exists_query \<notin> {sql_begin, sql_commit, sql_rollback}"
  by (simp_all add: set_partitioned_sql_def set_sorted_sql_def create_schema_sql_def columns_query_def table_exists_query_def
      sql_begin_def sql_commit_def sql_rollback_def)

lemma parts_key: "fold_key (fst (snd (table_parts c t))) (snd (snd (table_parts c t))) = lake_key t"
  by (simp add: table_parts_def lake_key_def)

text \<open>Every session over the sample connection.\<close>

definition sample_open :: "lake_world duck_session \<Rightarrow> bool" where
  "sample_open ss \<longleftrightarrow> ss_con ss = sample_lake_con \<and> ss_module ss = sample_duck \<and> ss_catalog ss = ''lake''"

lemma sample_open_fields:
  "sample_open ss \<Longrightarrow> ss_con ss = sample_lake_con" "sample_open ss \<Longrightarrow> ss_module ss = sample_duck"
  "sample_open ss \<Longrightarrow> ss_catalog ss = ''lake''"
  by (simp_all add: sample_open_def)

lemma sample_open_laws:
  assumes "sample_open ss"
  shows "duck_catalog ss sample_tmp (\<lambda>d w. w) lake_tables_of lake_working_of lk_tx lake_view_of lake_merge (\<lambda>sql. True)"
proof -
  note fields = sample_open_fields [OF assms] sample_con_exec
  show ?thesis
proof (unfold_locales, goal_cases)
  case (1 w S)
  then show ?case by (auto simp: fields wp_def sample_lake_exec_def tx_state_def)
next
  case (2 S T w)
  then show ?case by (auto simp: fields wp_def sample_lake_exec_def tx_state_def sql_begin_def sql_commit_def)
next
  case (3 w S)
  then show ?case by (auto simp: fields wp_def sample_lake_exec_def sql_begin_def sql_commit_def sql_rollback_def)
next
  case (4 S T w t)
  show ?case unfolding fields
    by (rule lake_statement [OF read_delete_all 4, where P = "\<lambda>T'. T (lake_key t) \<noteq> None \<and> T' = T(lake_key t \<mapsto> {#})"])
      (use 4 in \<open>auto simp: table_parts_def lake_key_def look_put tx_state_def split: if_splits\<close>)
next
  case (5 S T w v data t)
  show ?case unfolding fields
    by (rule lake_statement [OF read_insert_select 5(1),
        where P = "\<lambda>T'. \<exists>old. T (lake_key t) = Some old \<and> T' = T(lake_key t \<mapsto> old + lake_rows data)"])
      (use 5 in \<open>auto simp: table_parts_def lake_key_def look_put tx_state_def split: if_splits option.splits\<close>)
next
  case (6 S T w v data t key sql)
  show ?case unfolding fields
    by (rule lake_statement [OF read_merge_from_text [OF 6(3)] 6(1),
        where P = "\<lambda>T'. \<exists>old. T (lake_key t) = Some old \<and> T' = T(lake_key t \<mapsto> lake_merge (column_names data) key (lake_rows data) old)"])
      (use 6 in \<open>auto simp: table_parts_def lake_key_def look_put tx_state_def split: if_splits option.splits\<close>)
next
  case (7 S T w t)
  show ?case unfolding fields
    by (rule lake_statement [OF read_drop_lake 7, where P = "\<lambda>T'. T' = T(lake_key t := None)"])
      (use 7 in \<open>auto simp: table_parts_def lake_key_def look_remove tx_state_def\<close>)
next
  case (8 S T w sql t columns source q)
  have "read_lake sql = Some (CreateEmpty (table_parts ''lake'' t))"
    using 8(2) read_create_lake by (auto simp: fields)
  then show ?case unfolding fields
    by (rule lake_statement [OF _ 8(1), where P = "\<lambda>T'. T (lake_key t) = None \<and> T' = T(lake_key t \<mapsto> {#})"])
      (use 8 in \<open>auto simp: table_parts_def lake_key_def look_put tx_state_def split: if_splits\<close>)
next
  case (9 S T w sql t ps ks)
  have "sql \<notin> {sql_begin, sql_commit, sql_rollback} \<and> read_lake sql = None"
    using 9(2) not_control(1,2) other_texts(1,2) by (elim disjE) (simp_all only: simp_thms)
  then show ?case unfolding fields
    by (intro lake_other) (use 9 no_drops in \<open>auto simp: fields tx_state_def\<close>)
next
  case (10 S T w t)
  let ?rows = "map (\<lambda>(n, rows). [PStr (fst n), PStr (snd n)]) (lk_wrk w)"
  have T: "T = look (lk_wrk w)" using 10 by (simp add: tx_state_def)
  have present: "\<exists>a b. [PStr a, PStr b] \<in> set ?rows \<and> fold_key a b = lake_key t" if "T (lake_key t) \<noteq> None"
  proof -
    from that T obtain r where "look (lk_wrk w) (lake_key t) = Some r" by auto
    from look_SomeD [OF this] obtain n where n: "(n, r) \<in> set (lk_wrk w)" "fold_key (fst n) (snd n) = lake_key t" by blast
    have "[PStr (fst n), PStr (snd n)] \<in> set ?rows" using n(1) by force
    then show ?thesis using n(2) by blast
  qed
  have known: "\<exists>a b. row = [PStr a, PStr b] \<and> T (fold_key a b) \<noteq> None" if row: "row \<in> set ?rows" for row
  proof -
    from row obtain n r where n: "(n, r) \<in> set (lk_wrk w)" "row = [PStr (fst n), PStr (snd n)]" by auto
    then show ?thesis using look_member [OF n(1)] T by blast
  qed
  have "sample_lake_exec table_exists_query (Some (table_params ss t)) w = (Inr ?rows, w)"
    using not_control(5) by (simp add: sample_lake_exec_def)
  then show ?case unfolding fields wp_def using 10 present known by simp
next
  case (11 w S s)
  then show ?case unfolding fields
    by (intro lake_other other_texts no_drops) (use not_control(3) [of "''lake''" s] in auto)
next
  case (12 w S params)
  then show ?case unfolding fields
    by (intro lake_other other_texts no_drops) (use not_control(4) in auto)
qed (auto simp: fields wp_def sample_lake_con_def sample_duck_def sample_tmp_def op_return_def tx_state_def)
qed

lemma sample_open_validation:
  assumes "sample_open ss"
  shows "duck_validation ss sample_tmp (\<lambda>d w. w) sample_parser lake_tables_of lake_working_of lk_tx lake_view_of lake_merge (\<lambda>sql. True)"
proof -
  note fields = sample_open_fields [OF assms] sample_con_exec
  have dropped: "sample_lake_exec (drop_schema_sql c s) None w = (Inr [], w\<lparr>lk_com := remove_schema (ident_name s) (lk_com w)\<rparr>)"
    if "\<not> lk_tx w" for c s and w
    using that checks_not_control(3) [of c s] checks_read(3) [of c s] read_drop_schema_sql [of c s] by (simp add: sample_lake_exec_def)
  have same: "lk_com u = lk_com w"
    if "sample_lake_exec sql None w = (r, u)" "read_lake sql = None" "read_drop_schema sql = None" "sql \<notin> {sql_begin, sql_commit, sql_rollback}"
    for sql r u w
    using that by (auto simp: sample_lake_exec_def split: if_splits)
  show ?thesis
    by (intro duck_validation.intro sample_open_laws [OF assms] duck_validation_axioms.intro)
      (auto simp: fields dropped wp_def look_remove_schema split: sum.split
        dest!: same [OF _ checks_read(1) no_drops(5) checks_not_control(1)] same [OF _ checks_read(2) no_drops(6) checks_not_control(2)])
qed

interpretation sample_lake: duck_validation sample_lake_session sample_tmp "\<lambda>d w. w" sample_parser lake_tables_of lake_working_of
    lk_tx lake_view_of lake_merge "\<lambda>sql. True"
  by (rule sample_open_validation) (simp add: sample_open_def sample_lake_session_def)

section \<open>Temporary files and errors\<close>

abbreviation lake_files_of :: "lake_world \<Rightarrow> string set" where "lake_files_of w \<equiv> fst ` set (lk_files w)"

lemma member_length: "x \<in> set xs \<Longrightarrow> length x \<le> length (concat xs)"
  by (induction xs) auto

lemma fresh_path_new: "fresh_path fs \<notin> fst ` set fs"
proof
  assume "fresh_path fs \<in> fst ` set fs"
  then obtain n where n: "n \<in> set (map fst fs)" "n = fresh_path fs" by auto
  from member_length [OF n(1)] n(2) show False by (simp add: fresh_path_def)
qed

lemma sample_exec_files: "sample_lake_exec sql params w = (r, u) \<Longrightarrow> lk_files u = lk_files w"
  by (auto simp: sample_lake_exec_def split: if_splits option.splits)

interpretation sample_dir: passfile_dir sample_tmp sample_duck "\<lambda>d w. w" lake_files_of
proof (unfold_locales, goal_cases)
  case (1 w)
  then show ?case using fresh_path_new by (auto simp: wp_def sample_tmp_def)
next
  case (2 p t w)
  then show ?case by (force simp: wp_def sample_tmp_def image_iff)
next
  case (3 p w)
  then show ?case by (force simp: wp_def sample_tmp_def image_iff lake_exn_def)
next
  case (4 w)
  have "con_keeps lake_files_of sample_lake_con"
    using sample_exec_files by (auto simp: con_keeps_def wp_def sample_lake_con_def op_return_def split: prod.splits sum.splits)
  then show ?case by (simp add: wp_def sample_duck_def op_return_def)
qed simp

interpretation sample_errors: duck_errors sample_lake_session
  by unfold_locales
    (auto simp: no_conflicts_def sample_lake_exec_def is_conflict_def conflict_class_def lake_exn_def sample_lake_con_def
      sample_duck_def op_return_def foreign_def split: if_splits option.splits)

section \<open>Opening a session on the sample\<close>

text \<open>What an attach runs neither opens a transaction nor touches a table.\<close>

lemma attach_sql_quiet: "sql \<in> attach_sql s pf \<Longrightarrow> sql \<noteq> sql_begin \<and> read_drop_schema sql = None"
  by (auto simp: attach_sql_def set_extension_directory_def set_temp_directory_def s3_secret_statement_def attach_statement_def
      use_catalog_def load_extension_def install_extension_def sql_begin_def read_drop_schema_def expect_def starts_with_def Let_def)

lemma sample_connects:
  assumes "\<not> lk_tx w"
  shows "wp (duck_connect sample_duck sample_tmp env (\<lambda>d w. w) s)
    (\<lambda>ss u. lk_com u = lk_com w \<and> \<not> lk_tx u \<and> sample_open ss) (\<lambda>_ u. lk_com u = lk_com w) w"
proof -
  let ?I = "\<lambda>u. lk_com u = lk_com w \<and> \<not> lk_tx u"
  have run: "wp (con_run sample_lake_con sql) (\<lambda>_. ?I) (\<lambda>_. ?I) u" if "sql \<in> attach_sql s pf" "?I u" for sql pf u
    using attach_sql_quiet [OF that(1)] that(2)
    by (auto simp: con_run_def wp_bind wp_return sample_con_exec) (auto simp: wp_def sample_lake_exec_def split: option.splits)
  have attach: "wp (attach_loop sample_duck (\<lambda>d w. w) s pf) (\<lambda>ss u. sample_open ss \<and> ?I u) (\<lambda>_. ?I) u" if "?I u" for pf u
    by (rule wp_mono [OF attach_loop_keeps [where I = ?I and K = "\<lambda>con. con = sample_lake_con"]])
      (use that run in \<open>auto simp: wp_def sample_duck_def sample_lake_con_def op_return_def sample_open_def catalog_alias_def\<close>)
  have opened: "wp (open_passfile sample_tmp env (ls_password s)) (\<lambda>_. ?I) (\<lambda>_. ?I) w"
    using assms by (auto simp: wp_def open_passfile_def make_passfile_def close_passfile_def sample_tmp_def
        op_bind_def op_except_def op_return_def op_raise_def)
  have closed: "wp (close_if_open sample_tmp pf) (\<lambda>_. ?I) (\<lambda>_. ?I) u" if "?I u" for pf u
    using that by (auto simp: wp_def close_if_open_def close_passfile_def sample_tmp_def op_except_def op_return_def op_raise_def
        split: option.splits)
  show ?thesis
    unfolding duck_connect_def wp_bind wp_except wp_raise
    by (rule wp_mono [OF opened]) (auto intro!: wp_mono [OF attach] wp_mono [OF closed])
qed

section \<open>A lake, its settings\<close>

definition sample_lake_world :: lake_world where
  "sample_lake_world = \<lparr>lk_com = [((''S'', ''t''), {#lake_row [''id''] [PInt 9]#})], lk_wrk = [], lk_tx = False, lk_views = [],
     lk_conflicts = 0, lk_refusals = 0, lk_files = []\<rparr>"

definition sample_lake_env :: "string \<Rightarrow> string option" where
  "sample_lake_env = [''DUCKDB_CATALOG_HOST'' \<mapsto> ''h'', ''DUCKDB_CATALOG_DB'' \<mapsto> ''my db'', ''DUCKDB_CATALOG_USER'' \<mapsto> ''u'',
     ''DUCKDB_DATA_PATH'' \<mapsto> ''s3://b/d'', ''DUCKDB_CATALOG_PASSWORD'' \<mapsto> ''p'' @ [quote1] @ '' w:'' @ [backslash],
     ''DUCKDB_DATA_INLINING_ROW_LIMIT'' \<mapsto> ''10'']"

definition sample_lake_settings :: lake_settings where
  "sample_lake_settings = \<lparr>ls_host = ''h'', ls_port = ''5432'', ls_db = ''my db'', ls_user = ''u'',
     ls_password = ''p'' @ [quote1] @ '' w:'' @ [backslash], ls_data_path = ''s3://b/d'', ls_endpoint = None,
     ls_access_key_id = None, ls_secret_access_key = None, ls_region = ''us-east-1'', ls_url_style = ''vhost'',
     ls_use_ssl = True, ls_extension_directory = None, ls_temp_directory = None, ls_inlining_limit = Some 10\<rparr>"

lemma sample_lake_settings: "lake_settings_from_env sample_lake_env = Inr sample_lake_settings"
  by code_simp

text \<open>A run of the harness and one of the validation runner over it.\<close>

definition sample_lake_state :: "lake_world hstate" where
  "sample_lake_state = \<lparr>warehouse = sample_lake_world, trace = []\<rparr>"

definition sample_clone_env :: env where
  "sample_clone_env = sample_lake_env(''DBT_TARGET_SCHEMA'' \<mapsto> ''cand'', ''VALIDATION_OP'' \<mapsto> ''clone_from_prod'',
     ''TABLE_NAME'' \<mapsto> ''t'', ''PROD_SCHEMA'' \<mapsto> ''S'')"

definition sample_lake_runner :: "lake_world runner" where
  "sample_lake_runner = \<lparr>rn_object = \<lambda>b k. Inr [], rn_decode = Inr, rn_json = \<lambda>t. Inr PNone, rn_s3_header = \<lambda>u. Inr [],
     rn_https_header = \<lambda>u. Inr [],
     rn_entry_points = [(''duckdb'', Inr (Some (duck_required_env,
       duckdb_validation_from_env sample_duck sample_tmp (\<lambda>d w. w) sample_parser (\<lambda>v. Exn TypeError ''no string'') sample_clone_env)))]\<rparr>"

end
