(* ===== verification/VersionText.thy ===== *)
theory VersionText
  imports SqlScan Effects PyValue
begin

text \<open>
  The texts that the rehearsal of a release rewrites (\<^verbatim>\<open>scripts/apply_rehearsal_version.py\<close>): the version
  line of a \<^verbatim>\<open>pyproject.toml\<close>, the exact pins of the engine contract, the lines of an image's
  requirements. Each regular expression is a matcher; what it finds in a rewritten text is what it found in
  the old one with the suffix (\<open>version_line_bumped\<close>, \<open>pins_moved\<close>, \<open>requirement_moved\<close>).
\<close>

section \<open>Texts\<close>

text \<open>\<^verbatim>\<open>s.partition(p)\<close>: what is before the first \<open>p\<close>, whether there is one, what is after.\<close>

fun partition_text :: "string \<Rightarrow> string \<Rightarrow> string \<times> bool \<times> string" where
  "partition_text p [] = ([], p = [], [])"
| "partition_text p (c # s) = (if starts_with p (c # s) then ([], True, drop (length p) (c # s))
     else (case partition_text p s of (a, found, b) \<Rightarrow> (c # a, found, b)))"

text \<open>\<^verbatim>\<open>str.splitlines()\<close> over Latin-1; \<open>cr\<close> holds right after a carriage return, whose line feed belongs to it.\<close>

definition line_end :: "char \<Rightarrow> bool" where
  "line_end c \<longleftrightarrow> code_point c \<in> {10, 11, 12, 13, 28, 29, 30, 133}"

fun lines_from :: "bool \<Rightarrow> string \<Rightarrow> string \<Rightarrow> string list" where
  "lines_from cr cur [] = (if cur = [] then [] else [cur])"
| "lines_from cr cur (c # s) =
     (if cr \<and> c = newline then lines_from False cur s
      else if line_end c then cur # lines_from (c = carriage_return) [] s
      else lines_from False (cur @ [c]) s)"

definition splitlines :: "string \<Rightarrow> string list" where
  "splitlines s = lines_from False [] s"

lemma lines_from_line:
  "\<forall>c\<in>set l. \<not> line_end c \<Longrightarrow> lines_from False cur (l @ newline # s) = (cur @ l) # splitlines s"
  by (induction l arbitrary: cur) (simp_all add: splitlines_def line_end_def)

lemma splitlines_join:
  assumes "\<forall>l\<in>set ls. \<forall>c\<in>set l. \<not> line_end c"
  shows "splitlines (concat (map (\<lambda>l. l @ [newline]) ls)) = ls"
  using assms
proof (induction ls)
  case (Cons l ls)
  then show ?case using lines_from_line [of l "[]"] by (simp add: splitlines_def)
qed (simp add: splitlines_def)

lemma lines_from_clean: "\<forall>c\<in>set cur. \<not> line_end c \<Longrightarrow> l \<in> set (lines_from cr cur s) \<Longrightarrow> c \<in> set l \<Longrightarrow> \<not> line_end c"
  by (induction cr cur s rule: lines_from.induct) (auto split: if_splits)

lemma splitlines_clean: "l \<in> set (splitlines s) \<Longrightarrow> c \<in> set l \<Longrightarrow> \<not> line_end c"
  unfolding splitlines_def by (rule lines_from_clean [of "[]"]) simp_all

lemma partition_text_found: "partition_text p s = (a, found, b) \<Longrightarrow> if found then s = a @ p @ b else a = s"
  by (induction s arbitrary: a) (auto simp: starts_with_iff split: if_splits prod.splits)

lemma partition_text_append: "p \<noteq> [] \<Longrightarrow> partition_text p s = (a, True, b) \<Longrightarrow> partition_text p (s @ t) = (a, True, b @ t)"
proof (induction s arbitrary: a)
  case (Cons c s)
  show ?case
  proof (cases "starts_with p (c # s)")
    case True
    then obtain x where x: "c # s = p @ x" by (auto simp: starts_with_iff)
    then have whole: "c # s @ t = p @ x @ t" by (metis append_Cons append_assoc)
    have "drop (length p) (c # s) = x" "drop (length p) (c # s @ t) = x @ t" unfolding x whole by simp_all
    moreover have "starts_with p (c # s @ t)" unfolding whole by simp
    ultimately show ?thesis using Cons.prems(2) True by (cases p) auto
  next
    case False
    from Cons.prems(2) False obtain a' where a': "partition_text p s = (a', True, b)" "a = c # a'" by (auto split: prod.splits)
    have "\<not> starts_with p (c # s @ t)"
    proof
      assume "starts_with p (c # s @ t)"
      then obtain x where x: "(c # s) @ t = p @ x" by (auto simp: starts_with_iff)
      from partition_text_found [OF a'(1)] have "s = a' @ p @ b" by simp
      then have "length p \<le> length (c # s)" by simp
      then have "take (length p) ((c # s) @ t) = take (length p) (c # s)" by (simp only: take_append) simp
      then have "take (length p) (c # s) = p" unfolding x by simp
      then have "starts_with p (c # s)" by (metis append_take_drop_id starts_with_append)
      with False show False ..
    qed
    then show ?thesis using Cons.IH [OF Cons.prems(1) a'(1)] a'(2) by simp
  qed
qed (auto simp: starts_with_def)

section \<open>The version line\<close>

text \<open>
  \<^verbatim>\<open>_VERSION_LINE\<close> at one place: the line up to the opening quote, the version, the closing quote and the rest.
\<close>

definition version_match :: "string \<Rightarrow> (string \<times> string \<times> string) option" where
  "version_match s = Option.bind (expect ''version'' s) (\<lambda>r. let r1 = dropWhile is_space r in
     (case r1 of [] \<Rightarrow> None | c # r2 \<Rightarrow> if c \<noteq> CHR ''='' then None else let r3 = dropWhile is_space r2 in
     (case r3 of [] \<Rightarrow> None | q # r4 \<Rightarrow> if q \<noteq> quote2 then None else
        let v = takeWhile (\<lambda>x. x \<noteq> quote2) r4; rest = dropWhile (\<lambda>x. x \<noteq> quote2) r4 in
        if v = [] \<or> rest = [] then None
        else Some (''version'' @ takeWhile is_space r @ ''='' @ takeWhile is_space r2 @ [quote2], v, rest))))"

text \<open>The first match in a text, at the start of a line.\<close>

fun version_split :: "bool \<Rightarrow> string \<Rightarrow> (string \<times> string \<times> string) option" where
  "version_split starts [] = None"
| "version_split starts (c # s) = (case (if starts then version_match (c # s) else None) of
     Some m \<Rightarrow> Some m
   | None \<Rightarrow> map_option (\<lambda>(a, v, b). (c # a, v, b)) (version_split (c = newline) s))"

definition bump_version :: "string \<Rightarrow> string \<Rightarrow> string option" where
  "bump_version suffix text = map_option (\<lambda>(a, v, b). a @ v @ suffix @ b) (version_split True text)"

text \<open>A match is a head that ends in its only quote, a version without quotes, and a closing quote.\<close>

definition version_head :: "string \<Rightarrow> bool" where
  "version_head a \<longleftrightarrow> (\<exists>w1 w2. a = ''version'' @ w1 @ ''='' @ w2 @ [quote2] \<and> list_all is_space w1 \<and> list_all is_space w2)"

lemma takeWhile_split: "list_all P v \<Longrightarrow> \<not> P c \<Longrightarrow> takeWhile P (v @ c # r) = v \<and> dropWhile P (v @ c # r) = c # r"
  by (induction v) auto

lemma split_takeWhile: "dropWhile P r = c # x \<Longrightarrow> r = takeWhile P r @ c # x \<and> list_all P (takeWhile P r) \<and> \<not> P c"
  by (metis dropWhile_eq_Cons_conv list_all_iff set_takeWhileD takeWhile_dropWhile_id)

lemma version_match_iff:
  "version_match s = Some (a, v, b) \<longleftrightarrow>
     version_head a \<and> v \<noteq> [] \<and> quote2 \<notin> set v \<and> (\<exists>b'. b = quote2 # b') \<and> s = a @ v @ b"
proof
  assume m: "version_match s = Some (a, v, b)"
  then obtain r where r: "expect ''version'' s = Some r" by (cases "expect ''version'' s") (auto simp: version_match_def)
  obtain r2 where r2: "dropWhile is_space r = CHR ''='' # r2"
    using m r by (auto simp: version_match_def Let_def split: list.splits if_splits)
  obtain r4 where r4: "dropWhile is_space r2 = quote2 # r4"
    using m r r2 by (auto simp: version_match_def Let_def split: list.splits if_splits)
  have s: "s = ''version'' @ r" using r by (auto simp: expect_def starts_with_iff split: if_splits)
  have parts: "a = ''version'' @ takeWhile is_space r @ ''='' @ takeWhile is_space r2 @ [quote2]"
    "v = takeWhile (\<lambda>x. x \<noteq> quote2) r4" "b = dropWhile (\<lambda>x. x \<noteq> quote2) r4" "v \<noteq> []" "b \<noteq> []"
    using m r r2 r4 by (auto simp: version_match_def Let_def split: if_splits)
  from parts(5) obtain c b' where b: "b = c # b'" by (cases b) auto
  then have "b = quote2 # b'" using b parts(3) split_takeWhile [of "\<lambda>x. x \<noteq> quote2" r4 c b'] by auto
  moreover have "r = takeWhile is_space r @ CHR ''='' # takeWhile is_space r2 @ quote2 # v @ b"
    using split_takeWhile [OF r2] split_takeWhile [OF r4] parts(2,3) by (metis takeWhile_dropWhile_id)
  moreover have "quote2 \<notin> set v" using parts(2) by (auto dest: set_takeWhileD)
  moreover have "version_head a"
    unfolding version_head_def using parts(1) split_takeWhile [OF r2] split_takeWhile [OF r4] by blast
  ultimately show "version_head a \<and> v \<noteq> [] \<and> quote2 \<notin> set v \<and> (\<exists>b'. b = quote2 # b') \<and> s = a @ v @ b"
    using parts(1,4) s by auto
next
  assume h: "version_head a \<and> v \<noteq> [] \<and> quote2 \<notin> set v \<and> (\<exists>b'. b = quote2 # b') \<and> s = a @ v @ b"
  then obtain w1 w2 b' where a: "a = ''version'' @ w1 @ ''='' @ w2 @ [quote2]" "list_all is_space w1" "list_all is_space w2" "b = quote2 # b'"
    by (auto simp: version_head_def)
  have s: "s = ''version'' @ w1 @ CHR ''='' # w2 @ quote2 # v @ quote2 # b'" using h a by simp
  have "\<not> is_space CHR ''=''" "\<not> is_space quote2" by (simp_all add: is_space_def)
  note w = takeWhile_split [OF a(2) this(1), of "w2 @ quote2 # v @ quote2 # b'"] takeWhile_split [OF a(3) this(2), of "v @ quote2 # b'"]
  have v: "takeWhile (\<lambda>x. x \<noteq> quote2) (v @ quote2 # b') = v \<and> dropWhile (\<lambda>x. x \<noteq> quote2) (v @ quote2 # b') = quote2 # b'"
    by (rule takeWhile_split) (use h in \<open>auto simp: list_all_iff\<close>)
  show "version_match s = Some (a, v, b)"
    unfolding version_match_def s expect_append bind.bind_lunit Let_def using w v h a by simp
qed

lemma version_head_quotes: "version_head a \<Longrightarrow> \<exists>x. a = x @ [quote2] \<and> quote2 \<notin> set x"
proof -
  assume "version_head a"
  then obtain w1 w2 where "a = (''version'' @ w1 @ ''='' @ w2) @ [quote2]" "list_all is_space w1" "list_all is_space w2"
    by (auto simp: version_head_def)
  moreover have "\<not> is_space quote2" by (simp add: is_space_def)
  ultimately show ?thesis by (intro exI [of _ "''version'' @ w1 @ ''='' @ w2"]) (auto simp: list_all_iff)
qed

lemma first_quote:
  "p @ quote2 # r = x @ quote2 # t \<Longrightarrow> quote2 \<notin> set p \<Longrightarrow> quote2 \<notin> set x \<Longrightarrow> p = x \<and> r = t"
  by (induction p arbitrary: x) (auto simp: Cons_eq_append_conv)

text \<open>A longer version in place of the first one makes no earlier match.\<close>

lemma no_earlier_match:
  assumes "version_match (p @ quote2 # v @ quote2 # b) = None" and "quote2 \<notin> set v" and "v \<noteq> []"
  shows "version_match (p @ quote2 # u @ quote2 # b) = None"
proof (rule ccontr)
  assume "version_match (p @ quote2 # u @ quote2 # b) \<noteq> None"
  then obtain a y z where m: "version_head a" "y \<noteq> []" "quote2 \<notin> set y" "p @ quote2 # u @ quote2 # b = a @ y @ quote2 # z"
    by (auto simp: version_match_iff)
  from version_head_quotes [OF m(1)] obtain x where x: "a = x @ [quote2]" "quote2 \<notin> set x" by blast
  have eq: "p @ quote2 # u @ quote2 # b = x @ quote2 # y @ quote2 # z" using m(4) x by simp
  show False
  proof (cases "quote2 \<in> set p")
    case False
    then have "p = x" using first_quote [OF eq] x(2) by simp
    then have "version_match (p @ quote2 # v @ quote2 # b) = Some (a, v, quote2 # b)"
      using m(1) x(1) assms(2,3) by (simp add: version_match_iff)
    with assms(1) show False by simp
  next
    case True
    then obtain p1 p2 where p: "p = p1 @ quote2 # p2" "quote2 \<notin> set p1" by (metis split_list_first)
    have "p1 @ quote2 # p2 @ quote2 # u @ quote2 # b = x @ quote2 # y @ quote2 # z" using eq p by simp
    from first_quote [OF this p(2) x(2)] have "p1 = x" "p2 @ quote2 # u @ quote2 # b = y @ quote2 # z" by simp_all
    moreover obtain q1 q2 where q: "p2 @ [quote2] = q1 @ quote2 # q2" "quote2 \<notin> set q1"
      using split_list_first [of quote2 "p2 @ [quote2]"] by auto
    moreover have "p2 @ quote2 # u @ quote2 # b = q1 @ quote2 # q2 @ u @ quote2 # b" using arg_cong [OF q(1), of "\<lambda>l. l @ u @ quote2 # b"] by simp
    ultimately have "q1 = y" using first_quote [of q1 "q2 @ u @ quote2 # b" y z] m(3) by simp
    then have "p @ quote2 # v @ quote2 # b = a @ y @ quote2 # q2 @ v @ quote2 # b"
      using p(1) x(1) \<open>p1 = x\<close> arg_cong [OF q(1), of "\<lambda>l. l @ v @ quote2 # b"] by simp
    then have "version_match (p @ quote2 # v @ quote2 # b) = Some (a, y, quote2 # q2 @ v @ quote2 # b)"
      using m(1-3) by (simp add: version_match_iff)
    with assms(1) show False by simp
  qed
qed

lemma version_split_parts:
  "version_split st s = Some (a, v, b) \<Longrightarrow> s = a @ v @ b \<and> v \<noteq> [] \<and> quote2 \<notin> set v \<and> (\<exists>p b'. a = p @ [quote2] \<and> b = quote2 # b')"
proof (induction st s arbitrary: a rule: version_split.induct)
  case (2 st c s)
  show ?case
  proof (cases "if st then version_match (c # s) else None")
    case None
    with 2(2) obtain a' where "version_split (c = newline) s = Some (a', v, b)" "a = c # a'" by auto
    then show ?thesis using 2(1) [OF None] by auto
  next
    case (Some m)
    then have "version_match (c # s) = Some (a, v, b)" using 2(2) by (auto split: if_splits)
    then show ?thesis using version_head_quotes [of a] by (auto simp: version_match_iff)
  qed
qed simp

lemma version_split_moved:
  "version_split st s = Some (a, v, b) \<Longrightarrow> quote2 \<notin> set suffix \<Longrightarrow>
     version_split st (a @ v @ suffix @ b) = Some (a, v @ suffix, b)"
proof (induction st s arbitrary: a rule: version_split.induct)
  case (2 st c s)
  note parts = version_split_parts [OF 2(2)]
  show ?case
  proof (cases "if st then version_match (c # s) else None")
    case None
    with 2(2) obtain a' where a': "version_split (c = newline) s = Some (a', v, b)" "a = c # a'" by auto
    obtain p b' where p: "a = p @ [quote2]" "b = quote2 # b'" using parts by blast
    have "version_match (a @ v @ suffix @ b) = None" if "st"
    proof -
      have "version_match (p @ quote2 # v @ quote2 # b') = None" using None parts p that by simp
      from no_earlier_match [OF this, of "v @ suffix"] parts p show ?thesis by simp
    qed
    then show ?thesis using 2(1) [OF None a'(1) 2(3)] a'(2) by simp
  next
    case (Some m)
    then have m: "version_match (c # s) = Some (a, v, b)" "st" using 2(2) by (auto split: if_splits)
    then have "version_match (a @ v @ suffix @ b) = Some (a, v @ suffix, b)"
      using 2(3) by (auto simp: version_match_iff)
    moreover obtain c' a' where "a = c' # a'" using m(1) by (cases a) (auto simp: version_match_iff version_head_def)
    ultimately show ?thesis using m(2) by simp
  qed
qed simp

definition version_line :: "string \<Rightarrow> string option" where
  "version_line text = map_option (\<lambda>(a, v, b). v) (version_split True text)"

lemma version_line_bumped:
  "bump_version suffix text = Some t \<Longrightarrow> quote2 \<notin> set suffix \<Longrightarrow>
     \<exists>v. version_line text = Some v \<and> version_line t = Some (v @ suffix)"
  by (auto simp: bump_version_def version_line_def version_split_moved)

section \<open>The pins of the contract\<close>

definition contract_dist :: string where "contract_dist = ''continuo-engine-contract''"

definition pin_char :: "char \<Rightarrow> bool" where
  "pin_char c \<longleftrightarrow> is_digit c \<or> is_upper c \<or> is_lower c \<or> c = CHR ''.''"

definition pin_head :: string where "pin_head = quote2 # contract_dist @ ''==''"

text \<open>\<^verbatim>\<open>_PIN\<close> at one place: the version and what follows the closing quote.\<close>

definition pin_match :: "string \<Rightarrow> (string \<times> string) option" where
  "pin_match s = Option.bind (expect pin_head s) (\<lambda>r. let v = takeWhile pin_char r in
     (case (v, dropWhile pin_char r) of
        (d # ds, q # rest) \<Rightarrow> if is_digit d \<and> q = quote2 then Some (v, rest) else None
      | _ \<Rightarrow> None))"

datatype piece = Plain char | Pin string

lemma pin_match_iff:
  "pin_match s = Some (v, rest) \<longleftrightarrow>
     s = pin_head @ v @ quote2 # rest \<and> v \<noteq> [] \<and> is_digit (hd v) \<and> list_all pin_char v"
proof
  assume m: "pin_match s = Some (v, rest)"
  then obtain r where r: "expect pin_head s = Some r" by (cases "expect pin_head s") (auto simp: pin_match_def)
  have "s = pin_head @ r" using r by (auto simp: expect_def starts_with_iff split: if_splits)
  moreover have "v = takeWhile pin_char r" "dropWhile pin_char r = quote2 # rest" "v \<noteq> []" "is_digit (hd v)"
    using m r by (auto simp: pin_match_def Let_def split: list.splits if_splits dest: arg_cong [where f = hd])
  ultimately show "s = pin_head @ v @ quote2 # rest \<and> v \<noteq> [] \<and> is_digit (hd v) \<and> list_all pin_char v"
    using takeWhile_dropWhile_id [of pin_char r] set_takeWhileD [of _ pin_char r] by (auto simp: list_all_iff)
next
  assume s: "s = pin_head @ v @ quote2 # rest \<and> v \<noteq> [] \<and> is_digit (hd v) \<and> list_all pin_char v"
  have "\<not> pin_char quote2" by (simp add: pin_char_def is_digit_def is_upper_def is_lower_def)
  then have "takeWhile pin_char (v @ quote2 # rest) = v" "dropWhile pin_char (v @ quote2 # rest) = quote2 # rest"
    using s by (auto simp: list_all_iff takeWhile_append dropWhile_append)
  then show "pin_match s = Some (v, rest)" using s by (cases v) (auto simp: pin_match_def expect_append)
qed

function pieces :: "string \<Rightarrow> piece list" where
  "pieces [] = []"
| "pieces (c # s) = (case pin_match (c # s) of
     Some (v, rest) \<Rightarrow> Pin v # pieces rest | None \<Rightarrow> Plain c # pieces s)"
  by pat_completeness auto
termination by (relation "measure length") (auto simp: pin_match_iff pin_head_def)

fun print_piece :: "string \<Rightarrow> piece \<Rightarrow> string" where
  "print_piece suffix (Plain c) = [c]"
| "print_piece suffix (Pin v) = pin_head @ v @ suffix @ [quote2]"

definition move_pins :: "string \<Rightarrow> string \<Rightarrow> string" where
  "move_pins suffix text = concat (map (print_piece suffix) (pieces text))"

definition pins :: "string \<Rightarrow> string list" where
  "pins text = concat (map (\<lambda>p. case p of Pin v \<Rightarrow> [v] | Plain c \<Rightarrow> []) (pieces text))"

lemma move_pins_simps [simp]:
  "move_pins suffix [] = []"
  "pin_match (c # s) = None \<Longrightarrow> move_pins suffix (c # s) = c # move_pins suffix s"
  "pin_match (c # s) = Some (v, rest) \<Longrightarrow> move_pins suffix (c # s) = pin_head @ v @ suffix @ quote2 # move_pins suffix rest"
  by (simp_all add: move_pins_def)

text \<open>Moving pins keeps a text up to its first quote, and so what is no pin stays none.\<close>

lemma pin_head_quote: "pin_head = quote2 # contract_dist @ ''=='' "
  by (simp add: pin_head_def)

lemma move_pins_quote:
  "move_pins suffix s = takeWhile (\<lambda>c. c \<noteq> quote2) s @
     (if quote2 \<in> set s then quote2 # drop 1 (move_pins suffix (dropWhile (\<lambda>c. c \<noteq> quote2) s)) else [])"
proof (induction s)
  case (Cons c s)
  show ?case
  proof (cases "c = quote2")
    case True
    then show ?thesis by (cases "pin_match (c # s)") (auto simp: pin_head_def)
  next
    case False
    then have "pin_match (c # s) = None" by (cases "pin_match (c # s)") (auto simp: pin_match_iff pin_head_def)
    then show ?thesis using False Cons by simp
  qed
qed simp

lemma no_pin_moved:
  assumes "pin_match (c # s) = None"
  shows "pin_match (c # move_pins suffix s) = None"
proof (rule ccontr)
  assume "pin_match (c # move_pins suffix s) \<noteq> None"
  then obtain v rest where v: "c # move_pins suffix s = pin_head @ v @ quote2 # rest" "v \<noteq> []" "is_digit (hd v)" "list_all pin_char v"
    by (auto simp: pin_match_iff)
  let ?a = "takeWhile (\<lambda>c. c \<noteq> quote2) s"
  have plain: "quote2 \<notin> set (contract_dist @ ''=='' @ v)"
    using v(4) by (auto simp: contract_dist_def list_all_iff pin_char_def is_digit_def is_upper_def is_lower_def)
  have c: "c = quote2" and m: "move_pins suffix s = (contract_dist @ ''=='' @ v) @ quote2 # rest" using v(1) by (simp_all add: pin_head_def)
  have "quote2 \<in> set s"
  proof (rule ccontr)
    assume "quote2 \<notin> set s"
    then have "move_pins suffix s = s" using move_pins_quote [of suffix s] by (auto simp: takeWhile_eq_all_conv)
    with m \<open>quote2 \<notin> set s\<close> show False by (metis in_set_conv_decomp)
  qed
  then obtain b where b: "dropWhile (\<lambda>c. c \<noteq> quote2) s = quote2 # b"
    using hd_dropWhile [of "\<lambda>c. c \<noteq> quote2" s] by (cases "dropWhile (\<lambda>c. c \<noteq> quote2) s") (auto simp: dropWhile_eq_Nil_conv)
  obtain x where x: "move_pins suffix s = ?a @ quote2 # x"
    using move_pins_quote [of suffix s] \<open>quote2 \<in> set s\<close> by (simp only: if_True)
  have "takeWhile (\<lambda>c. c \<noteq> quote2) (move_pins suffix s) = ?a"
    unfolding x by (subst takeWhile_append2) (auto dest: set_takeWhileD)
  moreover have "takeWhile (\<lambda>c. c \<noteq> quote2) (move_pins suffix s) = contract_dist @ ''=='' @ v"
    unfolding m using plain by (subst takeWhile_append2) auto
  ultimately have "s = (contract_dist @ ''=='' @ v) @ quote2 # b"
    using takeWhile_dropWhile_id [of "\<lambda>c. c \<noteq> quote2" s] b by simp
  then have "pin_match (c # s) = Some (v, b)" using v(2-4) c by (simp add: pin_match_iff pin_head_def)
  with assms show False by simp
qed

lemma pieces_moved:
  assumes "list_all pin_char suffix"
  shows "pieces (move_pins suffix s) = map (\<lambda>p. case p of Pin v \<Rightarrow> Pin (v @ suffix) | Plain c \<Rightarrow> Plain c) (pieces s)"
proof (induction s rule: pieces.induct)
  case (2 c s)
  show ?case
  proof (cases "pin_match (c # s)")
    case None
    then show ?thesis using 2(1) [OF None] no_pin_moved [of c s suffix] by simp
  next
    case (Some m)
    then obtain v rest where m: "pin_match (c # s) = Some (v, rest)" by (cases m) simp
    then have v: "v \<noteq> []" "is_digit (hd v)" "list_all pin_char v" by (auto simp: pin_match_iff)
    have "pin_match (pin_head @ v @ suffix @ quote2 # move_pins suffix rest) = Some (v @ suffix, move_pins suffix rest)"
      using v assms by (simp add: pin_match_iff)
    then have "pieces (pin_head @ v @ suffix @ quote2 # move_pins suffix rest) = Pin (v @ suffix) # pieces (move_pins suffix rest)"
      by (simp add: pin_head_def)
    then show ?thesis using 2(2) [OF m refl] m by simp
  qed
qed simp

lemma pins_moved: "list_all pin_char suffix \<Longrightarrow> pins (move_pins suffix s) = map (\<lambda>v. v @ suffix) (pins s)"
proof -
  assume "list_all pin_char suffix"
  note pieces_moved [OF this, of s]
  moreover have "concat (map (\<lambda>p. case p of Pin v \<Rightarrow> [v] | Plain c \<Rightarrow> [])
      (map (\<lambda>p. case p of Pin v \<Rightarrow> Pin (v @ suffix) | Plain c \<Rightarrow> Plain c) ps))
    = map (\<lambda>v. v @ suffix) (concat (map (\<lambda>p. case p of Pin v \<Rightarrow> [v] | Plain c \<Rightarrow> []) ps))" for ps
    by (induction ps) (auto split: piece.split)
  ultimately show ?thesis by (simp add: pins_def)
qed

lemma move_none: "move_pins [] s = s"
  by (induction s rule: pieces.induct) (auto simp: move_pins_def pin_match_iff split: option.split)

section \<open>The lines of an image's requirements\<close>

definition requirement_of :: "string \<Rightarrow> (string \<times> string) option" where
  "requirement_of line = (case partition_text ''=='' (strip line) of (name, sep, pinned) \<Rightarrow>
     if sep \<and> \<not> starts_with ''#'' (lstrip line) then Some (name, pinned) else None)"

lemma requirement_moved:
  assumes "requirement_of line = Some (name, pinned)" and "suffix \<noteq> []" and "\<not> is_space (last suffix)"
  shows "requirement_of (name @ ''=='' @ pinned @ suffix) = Some (name, pinned @ suffix)"
proof -
  from assms(1) have p: "partition_text ''=='' (strip line) = (name, True, pinned)" and c: "\<not> starts_with ''#'' (lstrip line)"
    by (auto simp: requirement_of_def split: prod.splits if_splits)
  from partition_text_found [OF p] have s: "strip line = name @ ''=='' @ pinned" by simp
  let ?new = "name @ ''=='' @ pinned @ suffix"
  have new: "?new = strip line @ suffix" using s by simp
  have "strip line \<noteq> []" using s by auto
  then have ends: "\<not> is_space (hd ?new)" "?new \<noteq> []" "\<not> is_space (last ?new)"
    using hd_strip [of line] assms(2,3) unfolding new by simp_all
  have "lstrip line = strip line @ rev (takeWhile is_space (rev (lstrip line)))"
    unfolding strip_def rstrip_def by (metis rev_append rev_rev_ident takeWhile_dropWhile_id)
  then have "starts_with ''#'' (strip line) \<longleftrightarrow> starts_with ''#'' (lstrip line)"
    using \<open>strip line \<noteq> []\<close> by (metis append_Cons list.exhaust starts_with_def take_Suc_Cons take0 length_Cons list.size(3))
  moreover have "lstrip ?new = ?new" using ends by (simp add: lstrip_def dropWhile_eq_self_iff)
  moreover have "starts_with ''#'' ?new \<longleftrightarrow> starts_with ''#'' (strip line)"
    using \<open>strip line \<noteq> []\<close> unfolding new by (cases "strip line") (simp_all add: starts_with_def)
  moreover have "partition_text ''=='' ?new = (name, True, pinned @ suffix)"
    unfolding new by (rule partition_text_append [OF _ p]) simp
  ultimately show ?thesis using c strip_ends [OF ends(2,1,3)] by (simp add: requirement_of_def)
qed

end
