(* ===== verification/Rehearsal.thy ===== *)
theory Rehearsal
  imports VersionText
begin

text \<open>
  The rehearsal of a release (\<^verbatim>\<open>scripts/apply_rehearsal_version.py\<close>): every first-party version, every
  exact pin of the engine contract and every pin of an image moves to one dev release, or no file is
  written. The files under the root and \<^verbatim>\<open>tomllib\<close> are parameters.
\<close>

section \<open>The files\<close>

definition package_pyprojects :: "string list" where
  "package_pyprojects = [''pyproject.toml'', ''contract/pyproject.toml'', ''adapters/postgres/pyproject.toml'',
     ''adapters/trino/pyproject.toml'', ''adapters/duckdb/pyproject.toml'']"

definition contract_pin_sites :: "string list" where
  "contract_pin_sites = [''pyproject.toml'', ''adapters/postgres/pyproject.toml'',
     ''adapters/trino/pyproject.toml'', ''adapters/duckdb/pyproject.toml'']"

definition image_requirements :: "string list" where
  "image_requirements = [''image-requirements-postgres.txt'', ''image-requirements-trino.txt'', ''image-requirements-duckdb.txt'']"

definition dev_suffix :: "string \<Rightarrow> bool" where
  "dev_suffix s \<longleftrightarrow> starts_with ''.dev'' s \<and> drop 4 s \<noteq> [] \<and> list_all is_digit (drop 4 s)"

definition suffix_for :: "int \<Rightarrow> int \<Rightarrow> string res" where
  "suffix_for run_number run_attempt =
     (if \<not> (1 \<le> run_attempt \<and> run_attempt \<le> 99) then raise_value (''run_attempt out of range: '' @ int_str run_attempt)
      else Inr (''.dev'' @ int_str (run_number * 100 + run_attempt)))"

text \<open>The files under the root, and the name and the version that \<^verbatim>\<open>tomllib\<close> reads in one.\<close>

record 'w project_tree =
  pt_read :: "string \<Rightarrow> ('w, string) op"
  pt_write :: "string \<Rightarrow> string \<Rightarrow> ('w, unit) op"

record toml =
  toml_name :: "string \<Rightarrow> string res"
  toml_version :: "string \<Rightarrow> string res"

fun op_collect :: "('a \<Rightarrow> ('w, 'b) op) \<Rightarrow> 'a list \<Rightarrow> ('w, 'b list) op" where
  "op_collect f [] = op_return []"
| "op_collect f (x # xs) = op_bind (f x) (\<lambda>y. op_bind (op_collect f xs) (\<lambda>ys. op_return (y # ys)))"

definition read_field_of :: "'w project_tree \<Rightarrow> (string \<Rightarrow> string res) \<Rightarrow> string \<Rightarrow> ('w, string) op" where
  "read_field_of tree parse rel = op_bind (pt_read tree rel) (\<lambda>text. op_of_res (parse text))"

section \<open>New texts\<close>

definition bumped_text :: "'w project_tree \<Rightarrow> string \<Rightarrow> string \<Rightarrow> ('w, string \<times> string) op" where
  "bumped_text tree suffix rel = op_bind (pt_read tree rel) (\<lambda>text. case bump_version suffix text of
       None \<Rightarrow> op_raise (Exn ValueError (rel @ '': no version line found''))
     | Some t \<Rightarrow> op_return (rel, t))"

text \<open>\<^verbatim>\<open>new_text[rel] = text\<close> of a key that is there.\<close>

definition put_text :: "string \<Rightarrow> string \<Rightarrow> (string \<times> string) list \<Rightarrow> (string \<times> string) list" where
  "put_text rel text d = map (\<lambda>(r, t). if r = rel then (r, text) else (r, t)) d"

definition pinned_text :: "string \<Rightarrow> (string \<Rightarrow> string option) \<Rightarrow> string \<Rightarrow> (string \<times> string) list \<Rightarrow> (string \<times> string) list res" where
  "pinned_text suffix versions rel d = (case map_of d rel of
     None \<Rightarrow> Inl (Exn KeyError (repr_str rel))
   | Some text \<Rightarrow>
       if pins text = [] then raise_value (rel @ '': no exact '' @ contract_dist @ '' pin found'')
       else bind_res (each (\<lambda>v. case versions contract_dist of
           None \<Rightarrow> Inl (Exn KeyError (repr_str contract_dist))
         | Some c \<Rightarrow> if v \<noteq> c then raise_value (rel @ '': pins '' @ contract_dist @ ''=='' @ v @ '' but the contract is '' @ c)
             else Inr ()) (pins text)) (\<lambda>_.
         Inr (put_text rel (move_pins suffix text) d)))"

definition requirement_line :: "string \<Rightarrow> (string \<Rightarrow> string option) \<Rightarrow> string \<Rightarrow> string \<Rightarrow> string res" where
  "requirement_line suffix versions rel line = (case requirement_of line of
     None \<Rightarrow> Inr line
   | Some (name, pinned) \<Rightarrow> (case versions name of
         None \<Rightarrow> raise_value (rel @ '': unexpected requirement '' @ repr_str name)
       | Some v \<Rightarrow> if pinned \<noteq> v then raise_value (rel @ '': '' @ name @ ''=='' @ pinned
             @ '' does not match its pyproject ('' @ v @ '')'')
           else Inr (name @ ''=='' @ pinned @ suffix)))"

definition image_text :: "'w project_tree \<Rightarrow> string \<Rightarrow> (string \<Rightarrow> string option) \<Rightarrow> string \<Rightarrow> ('w, string \<times> string) op" where
  "image_text tree suffix versions rel = op_bind (pt_read tree rel) (\<lambda>text.
     op_bind (op_of_res (traverse (requirement_line suffix versions rel) (splitlines text))) (\<lambda>ls.
     op_return (rel, join [newline] ls @ [newline])))"

section \<open>The rewrite\<close>

definition apply_rehearsal :: "'w project_tree \<Rightarrow> toml \<Rightarrow> string \<Rightarrow> ('w, unit) op" where
  "apply_rehearsal tree tp suffix =
     op_then (op_of_res (require (dev_suffix suffix)
       (Exn ValueError (''suffix must look like '' @ repr_str ''.dev123'' @ '', got '' @ repr_str suffix))))
     (op_bind (op_collect (read_field_of tree (toml_version tp)) package_pyprojects) (\<lambda>vs.
      op_bind (op_collect (read_field_of tree (toml_name tp)) package_pyprojects) (\<lambda>ns.
      let already = map fst (filter (\<lambda>(rel, v). contains ''.dev'' v) (zip package_pyprojects vs));
          versions = map_of (rev (zip ns vs)) in
      op_then (op_of_res (require (already = [])
        (Exn ValueError (''already a dev version, refusing to stack a suffix: '' @ repr_strs already))))
      (op_bind (op_collect (bumped_text tree suffix) package_pyprojects) (\<lambda>bumped.
       op_bind (op_of_res (fold_res (pinned_text suffix versions) contract_pin_sites bumped)) (\<lambda>pinned.
       op_bind (op_collect (image_text tree suffix versions) image_requirements) (\<lambda>images.
       op_each (\<lambda>(rel, text). pt_write tree rel text) (pinned @ images))))))))"

text \<open>\<^verbatim>\<open>main\<close>: the suffix of the arguments; without a run attempt \<^verbatim>\<open>argparse\<close> ends the process.\<close>

definition chosen_suffix :: "string option \<Rightarrow> int \<Rightarrow> int option \<Rightarrow> string res" where
  "chosen_suffix suffix run_number run_attempt = (case suffix of
     Some s \<Rightarrow> Inr s
   | None \<Rightarrow> (case run_attempt of
         None \<Rightarrow> Inl (Exn (OtherError ''SystemExit'') ''--run-number needs --run-attempt'')
       | Some attempt \<Rightarrow> suffix_for run_number attempt))"

definition rehearse :: "'w project_tree \<Rightarrow> toml \<Rightarrow> string option \<Rightarrow> int \<Rightarrow> int option \<Rightarrow> ('w, string) op" where
  "rehearse tree tp suffix run_number run_attempt =
     op_bind (op_of_res (chosen_suffix suffix run_number run_attempt)) (\<lambda>s.
     op_then (apply_rehearsal tree tp s) (op_return s))"

section \<open>What a rehearsal leaves\<close>

text \<open>The versions by distribution name, as the files say.\<close>

definition project_versions :: "toml \<Rightarrow> (string \<Rightarrow> string option) \<Rightarrow> (string \<Rightarrow> string option) \<Rightarrow> bool" where
  "project_versions tp F versions \<longleftrightarrow> (\<exists>ns vs. versions = map_of (rev (zip ns vs)) \<and> (\<forall>v\<in>set vs. \<not> contains ''.dev'' v)
     \<and> list_all2 (\<lambda>rel n. \<exists>s. F rel = Some s \<and> toml_name tp s = Inr n) package_pyprojects ns
     \<and> list_all2 (\<lambda>rel v. \<exists>s. F rel = Some s \<and> toml_version tp s = Inr v) package_pyprojects vs)"

definition rehearsed :: "toml \<Rightarrow> string \<Rightarrow> (string \<Rightarrow> string option) \<Rightarrow> (string \<Rightarrow> string option) \<Rightarrow> bool" where
  "rehearsed tp suffix F F' \<longleftrightarrow> dev_suffix suffix \<and> (\<exists>versions. project_versions tp F versions
     \<and> (\<forall>rel\<in>set package_pyprojects. \<exists>s t v. F rel = Some s \<and> bump_version suffix s = Some t
          \<and> version_line s = Some v \<and> version_line t = Some (v @ suffix)
          \<and> F' rel = Some (if rel \<in> set contract_pin_sites then move_pins suffix t else t))
     \<and> (\<forall>rel\<in>set contract_pin_sites. \<exists>t v. F' rel = Some t \<and> versions contract_dist = Some v
          \<and> pins t \<noteq> [] \<and> set (pins t) = {v @ suffix})
     \<and> (\<forall>rel\<in>set image_requirements. \<exists>t. F' rel = Some t \<and> (\<forall>line\<in>set (splitlines t). \<forall>name pinned.
          requirement_of line = Some (name, pinned) \<longrightarrow> (\<exists>v. versions name = Some v \<and> pinned = v @ suffix)))
     \<and> (\<forall>rel. rel \<notin> set (package_pyprojects @ image_requirements) \<longrightarrow> F' rel = F rel))"

text \<open>A dev suffix has no quote and no blank, and belongs to a version.\<close>

lemma dev_suffix_chars:
  assumes "dev_suffix s"
  shows "list_all pin_char s" "quote2 \<notin> set s" "s \<noteq> []" "\<not> is_space (last s)" "\<forall>c\<in>set s. \<not> line_end c"
proof -
  obtain d where s: "s = ''.dev'' @ d" "d \<noteq> []" "list_all is_digit d"
    using assms by (auto simp: dev_suffix_def starts_with_iff)
  then show "list_all pin_char s" "quote2 \<notin> set s" "s \<noteq> []"
    by (auto simp: pin_char_def is_lower_def is_digit_def list_all_iff)
  have "is_digit (last d)" using s by (simp add: list_all_iff)
  then show "\<not> is_space (last s)" using s(1,2) digit_not_space by simp
  have "\<not> line_end c" if "is_digit c" for c using that by (auto simp: is_digit_def line_end_def)
  then show "\<forall>c\<in>set s. \<not> line_end c" using s by (auto simp: list_all_iff line_end_def)
qed

lemma pinned_text_Inr:
  "pinned_text suffix versions rel d = Inr d' \<longleftrightarrow> (\<exists>old. map_of d rel = Some old \<and> pins old \<noteq> []
     \<and> (\<exists>c. versions contract_dist = Some c \<and> set (pins old) = {c}) \<and> d' = put_text rel (move_pins suffix old) d)"
proof -
  have checks: "(\<forall>v\<in>set ps. v = c) \<longleftrightarrow> set ps = {c}" if "ps \<noteq> []" for ps and c :: string
    using that by (cases ps) auto
  show ?thesis
    by (cases "map_of d rel"; cases "versions contract_dist")
      (auto simp: pinned_text_def bind_res_eq_Inr each_eq_Inr checks split: if_splits)
qed

lemma map_of_put: "map_of (put_text rel text d) r = (if r = rel \<and> map_of d r \<noteq> None then Some text else map_of d r)"
  by (induction d) (auto simp: put_text_def)

lemma keys_put: "map fst (put_text rel text d) = map fst d"
  by (induction d) (auto simp: put_text_def)

lemma pin_sites_moved:
  "fold_res (pinned_text suffix versions) sites d = Inr d' \<Longrightarrow> distinct sites \<Longrightarrow>
     map fst d' = map fst d \<and> (\<forall>rel. map_of d' rel = (if rel \<in> set sites then map_option (move_pins suffix) (map_of d rel) else map_of d rel))
     \<and> (\<forall>rel\<in>set sites. \<exists>text c. map_of d rel = Some text \<and> pins text \<noteq> [] \<and> versions contract_dist = Some c \<and> set (pins text) = {c})"
proof (induction sites arbitrary: d)
  case (Cons site sites)
  then obtain d1 where d1: "pinned_text suffix versions site d = Inr d1" "fold_res (pinned_text suffix versions) sites d1 = Inr d'"
    by (auto simp: res_simps)
  from d1(1) obtain old where old: "map_of d site = Some old" "d1 = put_text site (move_pins suffix old) d"
    "pins old \<noteq> []" "\<exists>c. versions contract_dist = Some c \<and> set (pins old) = {c}"
    by (auto simp: pinned_text_Inr)
  from Cons.IH [OF d1(2)] Cons.prems(2) show ?case
    using old by (auto simp: map_of_put keys_put split: if_splits)
qed simp

section \<open>Running it\<close>

lemma wp_collect:
  assumes "I w" and "\<And>x u. x \<in> set xs \<Longrightarrow> I u \<Longrightarrow> wp (f x) (\<lambda>y u. R x y \<and> I u) E u"
    and "\<And>ys u. list_all2 R xs ys \<Longrightarrow> I u \<Longrightarrow> Q ys u"
  shows "wp (op_collect f xs) Q E w"
  using assms
proof (induction xs arbitrary: w Q)
  case (Cons x xs)
  have "wp (f x) (\<lambda>y u. R x y \<and> I u) E w" using Cons.prems(1,2) by simp
  then show ?case
    unfolding op_collect.simps wp_bind wp_return
    by (rule wp_mono) (auto intro!: Cons.IH intro: Cons.prems)
qed (simp add: wp_return)

locale project_files =
  fixes tree :: "'w project_tree" and files :: "'w \<Rightarrow> string \<Rightarrow> string option"
  assumes read_text: "wp (pt_read tree rel) (\<lambda>t u. files w rel = Some t \<and> files u = files w) (\<lambda>_ u. files u = files w) w"
    and write_text: "wp (pt_write tree rel t) (\<lambda>_ u. files u = (files w)(rel \<mapsto> t)) (\<lambda>e _. exn_kind e \<noteq> ValueError) w"
begin

lemma reads_wp: "files w = F \<Longrightarrow> (\<And>t. F rel = Some t \<Longrightarrow> Q t) \<Longrightarrow>
    wp (pt_read tree rel) (\<lambda>t u. Q t \<and> files u = F) (\<lambda>_ u. files u = F) w"
  by (rule wp_mono [OF read_text]) auto

lemma field_wp:
  "files w = F \<Longrightarrow> wp (read_field_of tree parse rel)
     (\<lambda>v u. (\<exists>s. F rel = Some s \<and> parse s = Inr v) \<and> files u = F) (\<lambda>_ u. files u = F) w"
  unfolding read_field_of_def wp_bind wp_of_res
  by (rule wp_mono [OF reads_wp [where Q = "\<lambda>t. F rel = Some t"]]) (auto split: sum.split)

lemma bumped_wp:
  "files w = F \<Longrightarrow> wp (bumped_text tree suffix rel)
     (\<lambda>p u. (\<exists>s t. p = (rel, t) \<and> F rel = Some s \<and> bump_version suffix s = Some t) \<and> files u = F) (\<lambda>_ u. files u = F) w"
  unfolding bumped_text_def wp_bind
  by (rule wp_mono [OF reads_wp [where Q = "\<lambda>t. F rel = Some t"]]) (auto simp: wp_raise wp_return split: option.split)

lemma image_wp:
  "files w = F \<Longrightarrow> wp (image_text tree suffix versions rel)
     (\<lambda>p u. (\<exists>s ls. F rel = Some s \<and> list_all2 (\<lambda>l l'. requirement_line suffix versions rel l = Inr l') (splitlines s) ls
        \<and> p = (rel, join [newline] ls @ [newline])) \<and> files u = F) (\<lambda>_ u. files u = F) w"
  unfolding image_text_def wp_bind wp_of_res wp_return
  by (rule wp_mono [OF reads_wp [where Q = "\<lambda>t. F rel = Some t"]]) (auto simp: traverse_eq_Inr split: sum.split)

lemma writes_wp:
  "files w = F \<Longrightarrow> wp (op_each (\<lambda>(rel, t). pt_write tree rel t) ts)
     (\<lambda>_ u. files u = F ++ map_of (rev ts)) (\<lambda>e _. exn_kind e \<noteq> ValueError) w"
proof (induction ts arbitrary: w F)
  case (Cons p ts)
  obtain rel t where p: "p = (rel, t)" by fastforce
  have upd: "(files w)(rel \<mapsto> t) ++ map_of (rev ts) = F ++ map_of (rev (p # ts))"
    using Cons.prems p by (auto simp: map_add_def fun_eq_iff split: option.split)
  have rest: "wp (op_each (\<lambda>(rel, t). pt_write tree rel t) ts) (\<lambda>_ v. files v = F ++ map_of (rev (p # ts)))
      (\<lambda>e _. exn_kind e \<noteq> ValueError) u" if "files u = (files w)(rel \<mapsto> t)" for u
    using Cons.IH [OF that] unfolding upd .
  show ?case
    unfolding op_each.simps wp_bind p prod.case
    by (rule wp_mono [OF write_text]) (use rest p in auto)
qed (simp add: wp_return)

lemma collect_wp:
  assumes "files w = F" and "\<And>x u. files u = F \<Longrightarrow> wp (f x) (\<lambda>y u. R x y \<and> files u = F) (\<lambda>_ u. files u = F) u"
    and "\<And>ys u. list_all2 R xs ys \<Longrightarrow> files u = F \<Longrightarrow> Q ys u" and "\<And>e u. files u = F \<Longrightarrow> E e u"
  shows "wp (op_collect f xs) Q E w"
  by (rule wp_collect [where I = "\<lambda>u. files u = F" and R = R, OF assms(1)])
    (auto intro: assms(3,4) wp_mono [OF assms(2)])

end

text \<open>Lists of named texts.\<close>

lemma list_all2_fst: "list_all2 P xs ps \<Longrightarrow> (\<And>x p. P x p \<Longrightarrow> fst p = x) \<Longrightarrow> map fst ps = xs"
  by (induction rule: list_all2_induct) auto

lemma list_all2_lookup:
  "list_all2 P xs ps \<Longrightarrow> distinct (map fst ps) \<Longrightarrow> x \<in> set xs \<Longrightarrow> (\<And>x p. P x p \<Longrightarrow> fst p = x) \<Longrightarrow>
     \<exists>t. map_of ps x = Some t \<and> P x (x, t)"
proof (induction rule: list_all2_induct)
  case (Cons x' xs p ps)
  then have p: "p = (x', snd p)" by (metis prod.collapse)
  show ?case
  proof (cases "x = x'")
    case True
    then show ?thesis using Cons.hyps(1) p by (metis map_of_Cons_code(2))
  next
    case False
    then have "\<exists>t. map_of ps x = Some t \<and> P x (x, t)" using Cons by auto
    then show ?thesis using False p by (metis map_of_Cons_code(2))
  qed
qed simp

lemma map_add_rev_distinct: "distinct (map fst ts) \<Longrightarrow> (F ++ map_of (rev ts)) x = (F ++ map_of ts) x"
proof -
  assume d: "distinct (map fst ts)"
  then have "distinct (map fst (rev ts))" by (simp flip: rev_map)
  then have "map_of (rev ts) x = Some t \<longleftrightarrow> map_of ts x = Some t" for t using d by (simp add: map_of_eq_Some_iff)
  then have "map_of (rev ts) x = map_of ts x" by (metis option.exhaust)
  then show ?thesis by (simp add: map_add_def)
qed

lemma join_lines: "ls \<noteq> [] \<Longrightarrow> join [newline] ls @ [newline] = concat (map (\<lambda>l. l @ [newline]) ls)"
  by (induction ls rule: induct_list012) simp_all

lemma requirement_lines_moved:
  assumes "dev_suffix suffix" and "list_all2 (\<lambda>l l'. requirement_line suffix versions rel l = Inr l') (splitlines s) ls"
  shows "\<forall>line\<in>set (splitlines (join [newline] ls @ [newline])). \<forall>name pinned.
      requirement_of line = Some (name, pinned) \<longrightarrow> (\<exists>v. versions name = Some v \<and> pinned = v @ suffix)"
proof (cases "ls = []")
  case True
  have "requirement_of [] = None" by (simp add: requirement_of_def)
  then show ?thesis using True by (simp add: splitlines_def line_end_def)
next
  case False
  note chars = dev_suffix_chars [OF assms(1)]
  have old: "\<exists>l\<in>set (splitlines s). requirement_line suffix versions rel l = Inr l'" if "l' \<in> set ls" for l'
    using assms(2) that by (induction rule: list_all2_induct) auto
  have clean: "\<not> line_end c" if "l' \<in> set ls" "c \<in> set l'" for l' c
  proof -
    from old [OF that(1)] obtain l where l: "l \<in> set (splitlines s)" "requirement_line suffix versions rel l = Inr l'" by blast
    show ?thesis
    proof (cases "requirement_of l")
      case None
      then show ?thesis using l splitlines_clean that(2) by (auto simp: requirement_line_def)
    next
      case (Some r)
      obtain name pinned where r: "requirement_of l = Some (name, pinned)" using Some by (cases r) simp
      then have "l' = name @ ''=='' @ pinned @ suffix" using l(2) by (auto simp: requirement_line_def split: option.splits if_splits)
      moreover have "strip l = name @ ''=='' @ pinned"
        using r partition_text_found [of "''==''" "strip l" name True pinned] by (auto simp: requirement_of_def split: prod.splits if_splits)
      ultimately have "c \<in> set (strip l) \<union> set suffix" using that(2) by auto
      then show ?thesis using set_strip [of l] splitlines_clean [OF l(1)] chars(5) by blast
    qed
  qed
  have lines: "splitlines (join [newline] ls @ [newline]) = ls"
    unfolding join_lines [OF False] by (rule splitlines_join) (use clean in blast)
  show ?thesis
    unfolding lines
  proof (intro ballI allI impI)
    fix line name pinned
    assume line: "line \<in> set ls" "requirement_of line = Some (name, pinned)"
    from old [OF line(1)] obtain l where l: "requirement_line suffix versions rel l = Inr line" by blast
    show "\<exists>v. versions name = Some v \<and> pinned = v @ suffix"
    proof (cases "requirement_of l")
      case None
      then show ?thesis using l line(2) by (simp add: requirement_line_def)
    next
      case (Some r)
      obtain n v where r: "requirement_of l = Some (n, v)" using Some by (cases r) simp
      then have "versions n = Some v" "line = n @ ''=='' @ v @ suffix"
        using l by (auto simp: requirement_line_def split: option.splits if_splits)
      then show ?thesis using requirement_moved [OF r chars(3,4)] line(2) by simp
    qed
  qed
qed

text \<open>What the new texts say together.\<close>

lemma rehearsed_texts:
  assumes suffix: "dev_suffix suffix" and versions: "project_versions tp F versions"
    and bumped: "list_all2 (\<lambda>rel p. \<exists>s t. p = (rel, t) \<and> F rel = Some s \<and> bump_version suffix s = Some t) package_pyprojects bumped"
    and pinned: "fold_res (pinned_text suffix versions) contract_pin_sites bumped = Inr pinned"
    and images: "list_all2 (\<lambda>rel p. \<exists>s ls. F rel = Some s
        \<and> list_all2 (\<lambda>l l'. requirement_line suffix versions rel l = Inr l') (splitlines s) ls
        \<and> p = (rel, join [newline] ls @ [newline])) image_requirements images"
  shows "rehearsed tp suffix F (F ++ map_of (rev (pinned @ images)))"
proof -
  let ?F = "F ++ map_of (rev (pinned @ images))"
  note chars = dev_suffix_chars [OF suffix]
  have sites: "distinct contract_pin_sites" "set contract_pin_sites \<subseteq> set package_pyprojects" by code_simp+
  have keys: "distinct (package_pyprojects @ image_requirements)" by code_simp
  have bkeys: "map fst bumped = package_pyprojects" by (rule list_all2_fst [OF bumped]) auto
  have ikeys: "map fst images = image_requirements" by (rule list_all2_fst [OF images]) auto
  note moved = pin_sites_moved [OF pinned sites(1)]
  have "map fst (pinned @ images) = package_pyprojects @ image_requirements" using bkeys ikeys moved by simp
  then have all: "distinct (map fst (pinned @ images))" using keys by simp
  have lookup: "?F rel = (if rel \<in> set package_pyprojects then map_of pinned rel
      else if rel \<in> set image_requirements then map_of images rel else F rel)" for rel
  proof -
    have p: "map_of pinned rel = None \<longleftrightarrow> rel \<notin> set package_pyprojects" and i: "map_of images rel = None \<longleftrightarrow> rel \<notin> set image_requirements"
      using bkeys ikeys moved by (simp_all add: map_of_eq_None_iff flip: list.set_map)
    have "rel \<notin> set package_pyprojects \<or> rel \<notin> set image_requirements" using keys by auto
    then show ?thesis
      unfolding map_add_rev_distinct [OF all] using p i
      by (cases "map_of pinned rel"; cases "map_of images rel") (simp_all add: map_add_def)
  qed
  have text_of: "\<exists>s t. F rel = Some s \<and> bump_version suffix s = Some t \<and> map_of bumped rel = Some t" if "rel \<in> set package_pyprojects" for rel
  proof -
    have "distinct (map fst bumped)" using keys bkeys by simp
    from list_all2_lookup [OF bumped this that] show ?thesis by auto
  qed
  have packages: "\<exists>s t v. F rel = Some s \<and> bump_version suffix s = Some t \<and> version_line s = Some v \<and> version_line t = Some (v @ suffix)
      \<and> ?F rel = Some (if rel \<in> set contract_pin_sites then move_pins suffix t else t)" if "rel \<in> set package_pyprojects" for rel
  proof -
    from text_of [OF that] obtain s t where t: "F rel = Some s" "bump_version suffix s = Some t" "map_of bumped rel = Some t" by blast
    have "?F rel = map_of pinned rel" unfolding lookup using that by (rule if_P)
    then have "?F rel = Some (if rel \<in> set contract_pin_sites then move_pins suffix t else t)" using moved t(3) by simp
    moreover obtain v where "version_line s = Some v" "version_line t = Some (v @ suffix)"
      using version_line_bumped [OF t(2) chars(2)] by blast
    ultimately show ?thesis by (intro exI [of _ s] exI [of _ t] exI [of _ v] conjI t(1,2))
  qed
  have contract: "\<exists>t v. ?F rel = Some t \<and> versions contract_dist = Some v \<and> pins t \<noteq> [] \<and> set (pins t) = {v @ suffix}"
    if "rel \<in> set contract_pin_sites" for rel
  proof -
    from moved that obtain old c where "map_of bumped rel = Some old" "pins old \<noteq> []" "versions contract_dist = Some c" "set (pins old) = {c}"
      by blast
    moreover have "rel \<in> set package_pyprojects" using that sites(2) by blast
    then have "?F rel = map_of pinned rel" unfolding lookup by (rule if_P)
    ultimately have "?F rel = Some (move_pins suffix old)" "pins old \<noteq> []" "versions contract_dist = Some c" "set (pins old) = {c}"
      using moved that by simp_all
    then show ?thesis by (auto simp: pins_moved [OF chars(1)])
  qed
  have image: "\<exists>t. ?F rel = Some t \<and> (\<forall>line\<in>set (splitlines t). \<forall>name pinned.
      requirement_of line = Some (name, pinned) \<longrightarrow> (\<exists>v. versions name = Some v \<and> pinned = v @ suffix))"
    if "rel \<in> set image_requirements" for rel
  proof -
    have "distinct (map fst images)" using keys ikeys by simp
    then have "\<exists>t. map_of images rel = Some t \<and> (\<exists>s ls. F rel = Some s
        \<and> list_all2 (\<lambda>l l'. requirement_line suffix versions rel l = Inr l') (splitlines s) ls
        \<and> (rel, t) = (rel, join [newline] ls @ [newline]))"
      by (rule list_all2_lookup [OF images _ that]) (elim exE conjE, simp only: fst_conv)
    then obtain s ls where ls: "list_all2 (\<lambda>l l'. requirement_line suffix versions rel l = Inr l') (splitlines s) ls"
      "map_of images rel = Some (join [newline] ls @ [newline])" by (elim exE conjE) (simp only: prod.inject simp_thms)
    have new: "rel \<notin> set package_pyprojects" using keys that by auto
    have "?F rel = Some (join [newline] ls @ [newline])" unfolding lookup if_not_P [OF new] if_P [OF that] by (rule ls(2))
    then show ?thesis by (intro exI conjI, assumption) (rule requirement_lines_moved [OF suffix ls(1)])
  qed
  have outside: "?F rel = F rel" if "rel \<notin> set (package_pyprojects @ image_requirements)" for rel
    unfolding lookup using that by simp
  show ?thesis
    unfolding rehearsed_def
    by (rule conjI, rule suffix, rule exI [of _ versions], intro conjI ballI allI impI, rule versions,
        erule packages, erule contract, erule image, erule outside)
qed

context project_files begin

lemma apply_wp:
  assumes "files w = F"
  shows "wp (apply_rehearsal tree tp suffix) (\<lambda>_ u. rehearsed tp suffix F (files u)) (\<lambda>e u. exn_kind e = ValueError \<longrightarrow> files u = F) w"
proof (cases "dev_suffix suffix")
  case False
  then show ?thesis using assms by (simp add: apply_rehearsal_def wp_bind wp_of_res require_def)
next
  case True
  let ?Q = "\<lambda>_ u. rehearsed tp suffix F (files u)" and ?E = "\<lambda>e u. exn_kind e = ValueError \<longrightarrow> files u = F"
  let ?bumped = "\<lambda>rel p. \<exists>s t. p = (rel, t) \<and> F rel = Some s \<and> bump_version suffix s = Some t"
  let ?puts = "op_each (\<lambda>(rel, t). pt_write tree rel t)"
  have images: "wp (op_bind (op_collect (image_text tree suffix versions) image_requirements) (\<lambda>images. ?puts (pinned @ images))) ?Q ?E u"
    if "files u = F" "project_versions tp F versions" "list_all2 ?bumped package_pyprojects bumped"
      "fold_res (pinned_text suffix versions) contract_pin_sites bumped = Inr pinned" for u versions bumped pinned
    unfolding wp_bind
    by (rule collect_wp [OF that(1) image_wp], assumption, rule wp_mono [OF writes_wp])
      (use rehearsed_texts [OF True that(2-4)] in auto)
  have bumps: "wp (op_bind (op_collect (bumped_text tree suffix) package_pyprojects) (\<lambda>bumped.
        op_bind (op_of_res (fold_res (pinned_text suffix versions) contract_pin_sites bumped)) (\<lambda>pinned.
        op_bind (op_collect (image_text tree suffix versions) image_requirements) (\<lambda>images. ?puts (pinned @ images))))) ?Q ?E u"
    if "files u = F" "project_versions tp F versions" for u versions
    unfolding wp_bind [of "op_collect (bumped_text tree suffix) package_pyprojects"] wp_bind [of "op_of_res r" for r] wp_of_res
    by (rule collect_wp [OF that(1) bumped_wp], assumption) (use images [OF _ that(2)] in \<open>auto split: sum.split\<close>)
  have checked: "wp (let already = map fst (filter (\<lambda>(rel, v). contains ''.dev'' v) (zip package_pyprojects vs));
          versions = map_of (rev (zip ns vs)) in
        op_then (op_of_res (require (already = [])
          (Exn ValueError (''already a dev version, refusing to stack a suffix: '' @ repr_strs already))))
        (op_bind (op_collect (bumped_text tree suffix) package_pyprojects) (\<lambda>bumped.
         op_bind (op_of_res (fold_res (pinned_text suffix versions) contract_pin_sites bumped)) (\<lambda>pinned.
         op_bind (op_collect (image_text tree suffix versions) image_requirements) (\<lambda>images. ?puts (pinned @ images)))))) ?Q ?E u"
    if "files u = F" "list_all2 (\<lambda>rel v. \<exists>s. F rel = Some s \<and> toml_version tp s = Inr v) package_pyprojects vs"
      "list_all2 (\<lambda>rel n. \<exists>s. F rel = Some s \<and> toml_name tp s = Inr n) package_pyprojects ns" for u vs ns
  proof (cases "filter (\<lambda>(rel, v). contains ''.dev'' v) (zip package_pyprojects vs) = []")
    case False
    then show ?thesis using that(1) by (simp add: Let_def wp_bind wp_of_res require_def)
  next
    case none: True
    have "v \<in> snd ` set (zip package_pyprojects vs)" if "v \<in> set vs" for v
      using that list_all2_lengthD [OF \<open>list_all2 _ package_pyprojects vs\<close>] by (metis list.set_map map_snd_zip)
    then have "\<forall>v\<in>set vs. \<not> contains ''.dev'' v" using none by (force simp: filter_empty_conv)
    then have "project_versions tp F (map_of (rev (zip ns vs)))" unfolding project_versions_def using that(2,3) by blast
    from bumps [OF that(1) this] show ?thesis using none by (simp add: Let_def wp_bind [of "op_of_res r" for r] wp_of_res require_def)
  qed
  have gate: "wp (op_then (op_of_res (require (dev_suffix suffix) e)) k) Q E w = wp k Q E w" for e Q E and k :: "('w, unit) op"
    using True by (simp add: wp_bind wp_of_res)
  show ?thesis
    unfolding apply_rehearsal_def gate wp_bind [of "op_collect (read_field_of tree parse) package_pyprojects" for parse]
    by (rule collect_wp [OF assms field_wp], assumption, rule collect_wp [OF _ field_wp], assumption, assumption,
        rule checked, assumption+, simp_all)
qed

lemma rehearse_wp:
  "wp (rehearse tree tp suffix run_number run_attempt)
     (\<lambda>s u. rehearsed tp s (files w) (files u)) (\<lambda>e u. exn_kind e = ValueError \<longrightarrow> files u = files w) w"
proof -
  have "wp (apply_rehearsal tree tp s) (\<lambda>_ u. rehearsed tp s (files w) (files u)) (\<lambda>e u. exn_kind e = ValueError \<longrightarrow> files u = files w) w" for s
    by (rule apply_wp) simp
  then show ?thesis by (simp add: rehearse_def wp_bind wp_of_res wp_return split: sum.split)
qed

end

end
