(* ===== verification/SampleRelease.thy ===== *)
theory SampleRelease
  imports Rehearsal
begin

text \<open>
  A small source tree for the rehearsal of a release: five projects, the pins of the contract in four of
  them, the requirements of three images.
\<close>

definition sample_project :: "string \<Rightarrow> string \<Rightarrow> string \<Rightarrow> string" where
  "sample_project name version rest = join [newline]
     [''name = '' @ [quote2] @ name @ [quote2], ''version = '' @ [quote2] @ version @ [quote2], rest, []]"

definition sample_pin :: string where
  "sample_pin = ''deps = ['' @ [quote2] @ contract_dist @ ''==0.9.0'' @ [quote2] @ '']''"

definition sample_requirements :: "string \<Rightarrow> string" where
  "sample_requirements adapter = join [newline] [''# pins'', ''runtime==0.11.0'', adapter @ ''==0.2.0'', contract_dist @ ''==0.9.0'']"

definition release_files :: "(string \<times> string) list" where
  "release_files = zip (package_pyprojects @ image_requirements)
     [sample_project ''runtime'' ''0.11.0'' sample_pin, sample_project contract_dist ''0.9.0'' [],
      sample_project ''pg'' ''0.2.0'' sample_pin, sample_project ''trino'' ''0.2.0'' sample_pin,
      sample_project ''duck'' ''0.2.0'' sample_pin,
      sample_requirements ''pg'', sample_requirements ''trino'', sample_requirements ''duck'']"

definition release_tree :: "(string \<times> string) list project_tree" where
  "release_tree = \<lparr>pt_read = (\<lambda>rel w. (case map_of w rel of
       None \<Rightarrow> Inl (Exn OSError rel) | Some t \<Rightarrow> Inr t, w)),
     pt_write = (\<lambda>rel t w. (Inr (), (rel, t) # w))\<rparr>"

definition release_toml :: toml where
  "release_toml = \<lparr>toml_name = (\<lambda>t. Inr (before_char quote2 (after_char quote2 t))),
     toml_version = (\<lambda>t. case version_line t of None \<Rightarrow> Inl (Exn KeyError ''version'') | Some v \<Rightarrow> Inr v)\<rparr>"

interpretation sample_release: project_files release_tree map_of
  by unfold_locales (auto simp: release_tree_def wp_def split: option.split)

text \<open>A rehearsal of it goes through, and the pins of the images move.\<close>

lemma sample_rehearsed:
  "fst (rehearse release_tree release_toml None 12 (Some 1) release_files) = Inr ''.dev1201''"
  by code_simp

lemma sample_moved_pin:
  "map_of (snd (rehearse release_tree release_toml None 12 (Some 1) release_files)) ''image-requirements-duckdb.txt''
     = Some (join [newline] [''# pins'', ''runtime==0.11.0.dev1201'', ''duck==0.2.0.dev1201'', contract_dist @ ''==0.9.0.dev1201''] @ [newline])"
  by code_simp

end
