(* ===== verification/ReleaseGates.thy ===== *)
theory ReleaseGates
  imports DuckSession Trino RunContext
begin

text \<open>
  The gates of a release: the install of an image's pins (\<^verbatim>\<open>scripts/install_image_pins.py\<close>), the check
  that a changed package was bumped (\<^verbatim>\<open>scripts/check_version_bumps.py\<close>), the check of the installed
  packages (\<^verbatim>\<open>scripts/verify_installed_packages.py\<close>) and the bake of the DuckDB extensions
  (\<^verbatim>\<open>scripts/bake_duckdb_extensions.py\<close>). pip, git, \<^verbatim>\<open>tomllib\<close>, \<^verbatim>\<open>importlib\<close> and the file
  system are parameters; the argument parsers and the log lines are left out.
\<close>

section \<open>The pins of an image\<close>

definition install_error :: "string \<Rightarrow> exn" where
  "install_error message = Exn (OtherError ''InstallError'') message"

text \<open>One run of pip gives its return code and what it wrote to \<^verbatim>\<open>stderr\<close>.\<close>

record 'w pip =
  pip_python :: string
  pip_run :: "string list \<Rightarrow> ('w, int \<times> string) op"
  pip_glob :: "string \<Rightarrow> string list"

definition pip_install :: "'w pip \<Rightarrow> string list" where
  "pip_install p = [pip_python p, ''-m'', ''pip'', ''install'', ''--no-cache-dir'']"

definition testpypi :: string where "testpypi = ''https://test.pypi.org/simple/''"
definition index_attempts :: nat where "index_attempts = 30"
definition index_retry_seconds :: rat where "index_retry_seconds = 20"

definition not_served_markers :: "string list" where
  "not_served_markers = [''No matching distribution found'', ''Could not find a version that satisfies'']"

definition first_party :: "string list" where
  "first_party = [''continuo_engine_contract'', ''continuo_python_runtime'']"

text \<open>\<^verbatim>\<open>os.path.join\<close> of a directory and a plain name.\<close>

definition path_join :: "string \<Rightarrow> string \<Rightarrow> string" where
  "path_join dir name = (if dir = [] \<or> ends_with ''/'' dir then dir @ name else dir @ ''/'' @ name)"

definition wheel_of :: "'w pip \<Rightarrow> string \<Rightarrow> string \<Rightarrow> string res" where
  "wheel_of p wheelhouse distribution =
     (let matches = sort (pip_glob p (path_join wheelhouse (distribution @ ''-*.whl''))) in
      case matches of [m] \<Rightarrow> Inr m
      | _ \<Rightarrow> Inl (install_error (''expected one '' @ distribution @ '' wheel in '' @ wheelhouse @ '', found '' @ nat_str (length matches))))"

text \<open>The installs of a source in order, each with whether it reads an index.\<close>

definition installs :: "'w pip \<Rightarrow> string \<Rightarrow> string \<Rightarrow> string \<Rightarrow> string \<Rightarrow> (string list \<times> bool) list res" where
  "installs p source adapter requirements wheelhouse =
     (let from_pypi = (pip_install p @ [''-r'', requirements], True) in
      if source = ''pypi'' then Inr [from_pypi]
      else if source = ''testpypi'' then
        Inr [(pip_install p @ [''--no-deps'', ''--only-binary=:all:'', ''--index-url'', testpypi, ''-r'', requirements], True), from_pypi]
      else if source = ''wheelhouse'' then
        bind_res (traverse (wheel_of p wheelhouse) (first_party @ [''continuo_'' @ adapter @ ''_adapter''])) (\<lambda>wheels.
        Inr [(pip_install p @ [''--no-index'', ''--no-deps''] @ wheels, False), from_pypi])
      else Inl (install_error (''unknown WHEEL_SOURCE='' @ repr_str source @ '' (pypi|testpypi|wheelhouse)'')))"

text \<open>A failed attempt: an exception of the run itself, or what pip returned and wrote.\<close>

type_synonym pip_failure = "exn + int \<times> string"

definition pip_attempt :: "'w pip \<Rightarrow> string list \<Rightarrow> 'w \<Rightarrow> (pip_failure + unit) \<times> 'w" where
  "pip_attempt p argv w = (case pip_run p argv w of
     (Inl e, u) \<Rightarrow> (Inl (Inl e), u)
   | (Inr (code, err), u) \<Rightarrow> (if code = 0 then Inr () else Inl (Inr (code, err)), u))"

definition not_served :: "bool \<Rightarrow> pip_failure \<Rightarrow> bool" where
  "not_served reads_index f = (case f of
     Inl e \<Rightarrow> False | Inr (code, err) \<Rightarrow> reads_index \<and> list_ex (\<lambda>marker. contains marker err) not_served_markers)"

definition index_delay :: "bool \<Rightarrow> nat \<Rightarrow> pip_failure \<Rightarrow> rat option" where
  "index_delay reads_index attempt f = (if not_served reads_index f then Some index_retry_seconds else None)"

interpretation index_retry: retry_policy "index_delay reads_index" "not_served reads_index" for reads_index
  by unfold_locales (simp add: index_delay_def)

definition install_one :: "'w pip \<Rightarrow> (rat \<Rightarrow> 'w \<Rightarrow> 'w) \<Rightarrow> string list \<Rightarrow> bool \<Rightarrow> ('w, unit) op" where
  "install_one p sleep argv reads_index w =
     (case retry (index_delay reads_index) sleep (pip_attempt p argv) 1 (index_attempts - 1) w of
        (Inr x, u) \<Rightarrow> (Inr x, u)
      | (Inl (Inl e), u) \<Rightarrow> (Inl e, u)
      | (Inl (Inr (code, err)), u) \<Rightarrow> (Inl (install_error (''pip install failed ('' @ int_str code @ ''): '' @ strip err)), u))"

definition install_pins ::
  "'w pip \<Rightarrow> (rat \<Rightarrow> 'w \<Rightarrow> 'w) \<Rightarrow> string \<Rightarrow> string \<Rightarrow> string \<Rightarrow> string \<Rightarrow> ('w, unit) op" where
  "install_pins p sleep source adapter requirements wheelhouse =
     op_bind (op_of_res (installs p source adapter requirements wheelhouse))
       (op_each (\<lambda>(argv, reads_index). install_one p sleep argv reads_index))"

definition install_main ::
  "'w pip \<Rightarrow> (rat \<Rightarrow> 'w \<Rightarrow> 'w) \<Rightarrow> string \<Rightarrow> string \<Rightarrow> string \<Rightarrow> string \<Rightarrow> ('w, int) op" where
  "install_main p sleep source adapter requirements wheelhouse =
     op_except (op_then (install_pins p sleep source adapter requirements wheelhouse) (op_return 0))
       (\<lambda>e. if exn_kind e = OtherError ''InstallError'' then op_return 1 else op_raise e)"

text \<open>
  What a return means: the installs were there, each in turn had an attempt in which pip returned 0, after
  fewer than thirty that failed because an index did not serve a pin yet; an install from the wheelhouse
  has no such attempt before it.
\<close>

fun installed :: "'w pip \<Rightarrow> (rat \<Rightarrow> 'w \<Rightarrow> 'w) \<Rightarrow> (string list \<times> bool) list \<Rightarrow> 'w \<Rightarrow> 'w \<Rightarrow> bool" where
  "installed p sleep [] w u \<longleftrightarrow> u = w"
| "installed p sleep ((argv, reads_index) # rest) w u \<longleftrightarrow> (\<exists>fs v err v'.
     tries (index_delay reads_index) sleep (pip_attempt p argv) 1 w fs v \<and> length fs < index_attempts
     \<and> (reads_index \<or> fs = []) \<and> pip_run p argv v = (Inr (0, err), v') \<and> installed p sleep rest v' u)"

lemma install_one_returns:
  assumes "install_one p sleep argv reads_index w = (Inr x, u)"
  shows "\<exists>fs v err. tries (index_delay reads_index) sleep (pip_attempt p argv) 1 w fs v \<and> length fs < index_attempts
     \<and> (reads_index \<or> fs = []) \<and> pip_run p argv v = (Inr (0, err), u)"
proof -
  have "retry (index_delay reads_index) sleep (pip_attempt p argv) 1 (index_attempts - 1) w = (Inr (), u)"
    using assms by (auto simp: install_one_def split: prod.splits sum.splits)
  from index_retry.retry_outcome [OF this] obtain fs v where
    t: "tries (index_delay reads_index) sleep (pip_attempt p argv) 1 w fs v" "length fs \<le> index_attempts - 1"
      "list_all (not_served reads_index) fs" "pip_attempt p argv v = (Inr (), u)" by blast
  have "reads_index \<or> fs = []" using t(3) by (cases fs) (auto simp: not_served_def split: sum.splits)
  moreover have "\<exists>err. pip_run p argv v = (Inr (0, err), u)"
    using t(4) by (auto simp: pip_attempt_def split: prod.splits sum.splits if_splits)
  moreover have "length fs < index_attempts" using t(2) by (simp add: index_attempts_def)
  ultimately show ?thesis using t(1) by blast
qed

lemma install_each_returns:
  "op_each (\<lambda>(argv, reads_index). install_one p sleep argv reads_index) is w = (Inr x, u) \<Longrightarrow> installed p sleep is w u"
proof (induction "is" arbitrary: w)
  case (Cons i "is")
  obtain argv reads_index where i: "i = (argv, reads_index)" by fastforce
  from Cons.prems i obtain y v where one: "install_one p sleep argv reads_index w = (Inr y, v)"
    and rest: "op_each (\<lambda>(argv, reads_index). install_one p sleep argv reads_index) is v = (Inr x, u)"
    by (auto simp: op_bind_def split: prod.splits sum.splits)
  from install_one_returns [OF one] Cons.IH [OF rest] i show ?case by auto
qed (simp add: op_return_def)

lemma install_pins_returns:
  "install_pins p sleep source adapter requirements wheelhouse w = (Inr x, u) \<Longrightarrow>
     \<exists>is. installs p source adapter requirements wheelhouse = Inr is \<and> installed p sleep is w u"
  by (auto simp: install_pins_def op_bind_def op_of_res_def split: sum.splits intro: install_each_returns)

text \<open>Whatever the source, nothing that is read from TestPyPI brings a dependency with it, and the wheelhouse is no index.\<close>

lemma installs_first_party:
  assumes "installs p source adapter requirements wheelhouse = Inr is" and "(argv, reads_index) \<in> set is"
  shows "argv = pip_install p @ [''-r'', requirements] \<and> reads_index \<or> ''--no-deps'' \<in> set argv \<and> (reads_index \<or> ''--no-index'' \<in> set argv)"
  using assms by (auto simp: installs_def Let_def res_simps split: if_splits)

section \<open>Version bumps\<close>

record release_tools =
  rl_git :: "string list \<Rightarrow> int \<times> string"
  rl_file :: "string \<Rightarrow> string res"
  rl_project :: "string \<Rightarrow> (string \<times> string) res"

definition bump_packages :: "(string \<times> string \<times> string list) list" where
  "bump_packages = [
     (''continuo-python-runtime'', ''pyproject.toml'', [''pyproject.toml'', ''continuo_python_runtime'']),
     (''continuo-engine-contract'', ''contract/pyproject.toml'', [''contract'']),
     (''continuo-postgres-adapter'', ''adapters/postgres/pyproject.toml'', [''adapters/postgres'']),
     (''continuo-trino-adapter'', ''adapters/trino/pyproject.toml'', [''adapters/trino'']),
     (''continuo-duckdb-adapter'', ''adapters/duckdb/pyproject.toml'', [''adapters/duckdb''])]"

definition prev_tag :: "release_tools \<Rightarrow> string" where
  "prev_tag g = (case rl_git g [''git'', ''describe'', ''--tags'', ''--match'', ''v*'', ''--exclude'', ''*-[Tt][Ee][Ss][Tt]*'', ''--abbrev=0'', ''HEAD^''] of
     (code, out) \<Rightarrow> if code = 0 then strip out else [])"

definition name_version :: "release_tools \<Rightarrow> string \<Rightarrow> string \<Rightarrow> (string \<times> string) option res" where
  "name_version g ref path =
     (if ref \<noteq> [] then (case rl_git g [''git'', ''show'', ref @ '':'' @ path] of
        (code, out) \<Rightarrow> if code \<noteq> 0 then Inr None else bind_res (rl_project g out) (\<lambda>d. Inr (Some d)))
      else bind_res (rl_file g path) (\<lambda>t. bind_res (rl_project g t) (\<lambda>d. Inr (Some d))))"

definition package_changed :: "release_tools \<Rightarrow> string \<Rightarrow> string list \<Rightarrow> bool" where
  "package_changed g prev paths \<longleftrightarrow> fst (rl_git g ([''git'', ''diff'', ''--quiet'', prev @ ''..HEAD'', ''--''] @ paths)) \<noteq> 0"

definition bump_offender :: "release_tools \<Rightarrow> string \<Rightarrow> string \<times> string \<times> string list \<Rightarrow> string option res" where
  "bump_offender g prev pkg = (case pkg of (dname, pyproject, paths) \<Rightarrow>
     let changed = package_changed g prev paths in
     bind_res (name_version g prev pyproject) (\<lambda>old.
     bind_res (name_version g [] pyproject) (\<lambda>new.
     Inr (if changed \<and> old \<noteq> None \<and> old = new
       then Some (dname @ '' ('' @ join '', '' paths @ '' changed since '' @ prev @ '' but version stayed '' @ snd (the new) @ '')'')
       else None))))"

text \<open>\<^verbatim>\<open>offenders\<close>: the lines appended, in order.\<close>

fun offenders_of :: "string option list \<Rightarrow> string list" where
  "offenders_of [] = []"
| "offenders_of (None # xs) = offenders_of xs"
| "offenders_of (Some t # xs) = t # offenders_of xs"

text \<open>The exit status and the line printed, to \<^verbatim>\<open>stderr\<close> when the status is 1.\<close>

definition check_bumps :: "release_tools \<Rightarrow> (int \<times> string) res" where
  "check_bumps g = (let prev = prev_tag g in
     if prev = [] then Inr (0, ''no previous v* tag; first release, nothing to check'')
     else bind_res (traverse (bump_offender g prev) bump_packages) (\<lambda>found.
       let offenders = offenders_of found in
       if offenders \<noteq> [] then Inr (1, ''Bump the version of changed packages before tagging:'' @ newline # ''  ''
         @ join (newline # ''  '') offenders)
       else Inr (0, ''All packages changed since '' @ prev @ '' were version-bumped.'')))"

text \<open>It passes exactly when no package that changed kept both its name and its version.\<close>

lemma check_bumps_passes:
  assumes "check_bumps g = Inr (code, line)"
  shows "code = 0 \<longleftrightarrow> prev_tag g = [] \<or> (\<forall>(dname, pyproject, paths)\<in>set bump_packages. package_changed g (prev_tag g) paths \<longrightarrow>
     name_version g (prev_tag g) pyproject = Inr None \<or> name_version g (prev_tag g) pyproject \<noteq> name_version g [] pyproject)"
proof (cases "prev_tag g = []")
  case True
  then show ?thesis using assms by (auto simp: check_bumps_def)
next
  case False
  with assms obtain found where found: "list_all2 (\<lambda>pkg x. bump_offender g (prev_tag g) pkg = Inr x) bump_packages found"
    and code: "code = (if offenders_of found = [] then 0 else 1)"
    by (auto simp: check_bumps_def Let_def bind_res_eq_Inr traverse_eq_Inr split: if_splits)
  have none: "x = None \<longleftrightarrow> (case pkg of (dname, pyproject, paths) \<Rightarrow> package_changed g (prev_tag g) paths \<longrightarrow>
      name_version g (prev_tag g) pyproject = Inr None \<or> name_version g (prev_tag g) pyproject \<noteq> name_version g [] pyproject)"
    if "bump_offender g (prev_tag g) pkg = Inr x" for pkg x
    using that by (cases pkg) (auto simp: bump_offender_def Let_def bind_res_eq_Inr split: if_splits)
  have "list_all2 (\<lambda>pkg x. x = None \<longleftrightarrow> (case pkg of (dname, pyproject, paths) \<Rightarrow> package_changed g (prev_tag g) paths \<longrightarrow>
      name_version g (prev_tag g) pyproject = Inr None \<or> name_version g (prev_tag g) pyproject \<noteq> name_version g [] pyproject)) pkgs found"
    if "list_all2 (\<lambda>pkg x. bump_offender g (prev_tag g) pkg = Inr x) pkgs found" for pkgs
    using that by (rule list_all2_mono) (rule none)
  from this [OF found] have "(\<forall>x\<in>set found. x = None) \<longleftrightarrow> (\<forall>(dname, pyproject, paths)\<in>set bump_packages. package_changed g (prev_tag g) paths \<longrightarrow>
      name_version g (prev_tag g) pyproject = Inr None \<or> name_version g (prev_tag g) pyproject \<noteq> name_version g [] pyproject)"
    by (induction rule: list_all2_induct) auto
  moreover have "offenders_of found = [] \<longleftrightarrow> (\<forall>x\<in>set found. x = None)"
    by (induction found rule: offenders_of.induct) auto
  ultimately show ?thesis using code False by auto
qed

section \<open>The installed packages\<close>

definition gate_failure :: "string \<Rightarrow> exn" where
  "gate_failure message = Exn (OtherError ''Failure'') message"

text \<open>
  What the gate sees of its virtual environment: the wheel files of \<^verbatim>\<open>dist/\<close>, the metadata of a
  distribution, the entry points of the engine group with the class each loads, the file a module came
  from, and one run of \<^verbatim>\<open>continuo-runtime --help\<close>.
\<close>

record adapter_class =
  ac_module :: string
  ac_name :: string
  ac_required_env :: "string list"

record site =
  st_dist_dir :: string
  st_wheels :: "string list"
  st_version :: "string \<Rightarrow> string res"
  st_distributions :: "string list"
  st_entry_points :: "(string \<times> (string + adapter_class option)) list"
  st_module_path :: "string \<Rightarrow> string res"
  st_help :: "(int \<times> string \<times> string) res"

text \<open>Each engine with its distribution, the class of its adapter, its entry point and its variables.\<close>

definition engines :: "(string \<times> string \<times> string \<times> string \<times> string list) list" where
  "engines = [
     (''postgres'', ''continuo-postgres-adapter'', ''continuo_postgres_adapter.adapter:PostgresAdapter'', ''postgres'',
        [''POSTGRES_HOST'', ''POSTGRES_DB'', ''POSTGRES_USER'']),
     (''trino'', ''continuo-trino-adapter'', ''continuo_trino_adapter.adapter:TrinoAdapter'', ''trino'',
        [''TRINO_HOST'', ''TRINO_CATALOG'']),
     (''duckdb'', ''continuo-duckdb-adapter'', ''continuo_duckdb_adapter.adapter:DuckDBAdapter'', ''duckdb'',
        [''DUCKDB_CATALOG_HOST'', ''DUCKDB_CATALOG_DB'', ''DUCKDB_CATALOG_USER'', ''DUCKDB_DATA_PATH''])]"

definition norm_name :: "string \<Rightarrow> string" where
  "norm_name name = map (\<lambda>c. if c = CHR ''_'' then CHR ''-'' else c) (py_lower name)"

definition wheel_versions :: "string list \<Rightarrow> (string \<rightharpoonup> string) res" where
  "wheel_versions wheels = fold_res (\<lambda>wheel found. case split_on CHR ''-'' wheel of
       name # version # rest \<Rightarrow> Inr (found(norm_name name \<mapsto> version))
     | parts \<Rightarrow> raise_value (''not enough values to unpack (expected at least 2, got '' @ nat_str (length parts) @ '')''))
     wheels Map.empty"

definition first_party_dists :: "string \<Rightarrow> string list" where
  "first_party_dists adapter_dist = [''continuo-engine-contract'', ''continuo-python-runtime'', adapter_dist]"

definition check_version :: "site \<Rightarrow> (string \<rightharpoonup> string) \<Rightarrow> string \<Rightarrow> unit res" where
  "check_version s expected dname = (case expected dname of
     None \<Rightarrow> Inl (gate_failure (''no wheel for '' @ dname @ '' in '' @ st_dist_dir s))
   | Some v \<Rightarrow> bind_res (st_version s dname) (\<lambda>installed.
       require (installed = v) (gate_failure (dname @ '': installed '' @ installed @ '' but dist/ holds '' @ v))))"

definition check_versions :: "site \<Rightarrow> string \<Rightarrow> unit res" where
  "check_versions s adapter_dist = bind_res (wheel_versions (st_wheels s)) (\<lambda>expected.
     each (check_version s expected) (first_party_dists adapter_dist))"

definition check_only_expected_first_party :: "site \<Rightarrow> string \<Rightarrow> unit res" where
  "check_only_expected_first_party s adapter_dist =
     (let installed = filter (starts_with ''continuo-'') (map norm_name (st_distributions s));
          expected = first_party_dists adapter_dist in
      require (set installed = set expected) (gate_failure (''first-party distributions '' @ repr_strs (sorted_set installed)
        @ '', expected '' @ repr_strs (sorted_set expected))))"

definition check_entry_point :: "site \<Rightarrow> string \<Rightarrow> string \<Rightarrow> adapter_class res" where
  "check_entry_point s class_path ep_name = bind_res (st_module_path s ''continuo_engine_contract.port'') (\<lambda>_.
     bind_res (discover_adapter (st_entry_points s)) (\<lambda>(name, cls).
     bind_res (require (name = ep_name) (gate_failure (''discover_adapter() returned engine '' @ repr_str name
       @ '', expected '' @ repr_str ep_name))) (\<lambda>_.
     bind_res (require (ac_module cls = before_char CHR '':'' class_path \<and> ac_name cls = after_char CHR '':'' class_path)
       (gate_failure (''adapter resolved to '' @ ac_module cls @ ''.'' @ ac_name cls @ '', expected '' @ class_path))) (\<lambda>_.
     Inr cls))))"

text \<open>\<^verbatim>\<open>Path.parts\<close> differs from the pieces between the slashes by the root and the empty pieces alone.\<close>

definition check_installed_not_checkout :: "site \<Rightarrow> adapter_class \<Rightarrow> unit res" where
  "check_installed_not_checkout s cls =
     each (\<lambda>module. bind_res (st_module_path s module) (\<lambda>path.
       require (''site-packages'' \<in> set (split_on CHR ''/'' path))
         (gate_failure (module @ '' imported from '' @ path @ '', not from site-packages''))))
     [ac_module cls, ''continuo_python_runtime'']"

definition check_required_env :: "string list \<Rightarrow> adapter_class \<Rightarrow> unit res" where
  "check_required_env expected cls = require (ac_required_env cls = expected)
     (gate_failure (''required_env() is '' @ repr_strs (ac_required_env cls) @ '', expected '' @ repr_strs expected))"

definition check_console_script :: "site \<Rightarrow> unit res" where
  "check_console_script s = bind_res (st_help s) (\<lambda>(code, out, err).
     require (code = 0 \<and> contains ''usage'' (py_lower (out @ err)))
       (gate_failure (''`continuo-runtime --help` exited '' @ int_str code @ '': '' @ take 300 (strip err))))"

text \<open>\<^verbatim>\<open>main\<close> after the argument parser; what it does not catch leaves it.\<close>

definition package_checks :: "site \<Rightarrow> string \<Rightarrow> string \<Rightarrow> string \<Rightarrow> string list \<Rightarrow> unit res" where
  "package_checks s adapter_dist class_path ep_name required =
     bind_res (check_versions s adapter_dist) (\<lambda>_.
     bind_res (check_only_expected_first_party s adapter_dist) (\<lambda>_.
     bind_res (check_entry_point s class_path ep_name) (\<lambda>cls.
     bind_res (check_installed_not_checkout s cls) (\<lambda>_.
     bind_res (check_required_env required cls) (\<lambda>_.
     check_console_script s)))))"

definition verify_packages :: "site \<Rightarrow> string \<Rightarrow> int res" where
  "verify_packages s engine = (case map_of engines engine of
     None \<Rightarrow> Inl (Exn KeyError (repr_str engine))
   | Some (adapter_dist, class_path, ep_name, required) \<Rightarrow>
     (case package_checks s adapter_dist class_path ep_name required of
        Inr x \<Rightarrow> Inr 0
      | Inl e \<Rightarrow> if exn_kind e \<in> {OtherError ''Failure'', OtherError ''PackageNotFoundError'',
             OtherError ''ImportError'', OtherError ''ModuleNotFoundError''} then Inr 1 else Inl e))"

lemma check_version_Inr: "check_version s expected dname = Inr u \<longleftrightarrow> (\<exists>v. expected dname = Some v \<and> st_version s dname = Inr v)"
  by (cases "expected dname") (auto simp: check_version_def bind_res_eq_Inr require_def)

lemma check_first_party_Inr:
  "check_only_expected_first_party s adapter_dist = Inr u \<longleftrightarrow>
     {n \<in> norm_name ` set (st_distributions s). starts_with ''continuo-'' n} = set (first_party_dists adapter_dist)"
proof -
  have "set (filter P (map norm_name ds)) = {n \<in> norm_name ` set ds. P n}" for P ds by auto
  then show ?thesis by (simp only: check_only_expected_first_party_def Let_def require_def) auto
qed

lemma check_entry_point_Inr:
  "check_entry_point s class_path ep_name = Inr cls \<longleftrightarrow> (\<exists>p. st_module_path s ''continuo_engine_contract.port'' = Inr p)
     \<and> st_entry_points s = [(ep_name, Inr (Some cls))]
     \<and> ac_module cls = before_char CHR '':'' class_path \<and> ac_name cls = after_char CHR '':'' class_path"
  by (auto simp: check_entry_point_def bind_res_eq_Inr require_def discover_adapter_Inr)

lemma check_installed_Inr:
  "check_installed_not_checkout s cls = Inr u \<longleftrightarrow> (\<forall>module\<in>{ac_module cls, ''continuo_python_runtime''}.
     \<exists>path. st_module_path s module = Inr path \<and> ''site-packages'' \<in> set (split_on CHR ''/'' path))"
  by (auto simp: check_installed_not_checkout_def bind_res_eq_Inr require_def)

text \<open>
  The gate passes on an environment in which one adapter is installed, the expected one from
  \<^verbatim>\<open>site-packages\<close>, next to the contract and the runtime and no other package of ours, each at the
  version of its wheel.
\<close>

lemma verify_packages_passes:
  "verify_packages s engine = Inr 0 \<longleftrightarrow> (\<exists>adapter_dist class_path ep_name required cls expected code out err.
     map_of engines engine = Some (adapter_dist, class_path, ep_name, required)
     \<and> wheel_versions (st_wheels s) = Inr expected
     \<and> (\<forall>dname\<in>set (first_party_dists adapter_dist). \<exists>v. expected dname = Some v \<and> st_version s dname = Inr v)
     \<and> {n \<in> norm_name ` set (st_distributions s). starts_with ''continuo-'' n} = set (first_party_dists adapter_dist)
     \<and> (\<exists>p. st_module_path s ''continuo_engine_contract.port'' = Inr p)
     \<and> st_entry_points s = [(ep_name, Inr (Some cls))] \<and> ac_required_env cls = required
     \<and> ac_module cls = before_char CHR '':'' class_path \<and> ac_name cls = after_char CHR '':'' class_path
     \<and> (\<forall>module\<in>{ac_module cls, ''continuo_python_runtime''}. \<exists>path. st_module_path s module = Inr path
          \<and> ''site-packages'' \<in> set (split_on CHR ''/'' path))
     \<and> st_help s = Inr (code, out, err) \<and> code = 0 \<and> contains ''usage'' (py_lower (out @ err)))"
proof -
  have checks: "package_checks s adapter_dist class_path ep_name required = Inr u \<longleftrightarrow> (\<exists>cls.
      check_versions s adapter_dist = Inr () \<and> check_only_expected_first_party s adapter_dist = Inr ()
      \<and> check_entry_point s class_path ep_name = Inr cls \<and> check_installed_not_checkout s cls = Inr ()
      \<and> check_required_env required cls = Inr () \<and> check_console_script s = Inr ())" for adapter_dist class_path ep_name required u
    by (simp add: package_checks_def bind_res_eq_Inr)
  have versions: "check_versions s adapter_dist = Inr () \<longleftrightarrow> (\<exists>expected. wheel_versions (st_wheels s) = Inr expected
      \<and> (\<forall>dname\<in>set (first_party_dists adapter_dist). \<exists>v. expected dname = Some v \<and> st_version s dname = Inr v))" for adapter_dist
    by (simp add: check_versions_def bind_res_eq_Inr each_eq_Inr check_version_Inr)
  have usage: "check_console_script s = Inr () \<longleftrightarrow> (\<exists>code out err. st_help s = Inr (code, out, err) \<and> code = 0
      \<and> contains ''usage'' (py_lower (out @ err)))"
    by (auto simp: check_console_script_def bind_res_eq_Inr require_def)
  have variables: "check_required_env required cls = Inr () \<longleftrightarrow> ac_required_env cls = required" for required cls
    by (simp add: check_required_env_def require_def)
  have "verify_packages s engine = Inr 0 \<longleftrightarrow> (\<exists>adapter_dist class_path ep_name required.
      map_of engines engine = Some (adapter_dist, class_path, ep_name, required)
      \<and> package_checks s adapter_dist class_path ep_name required = Inr ())"
    by (auto simp: verify_packages_def split: option.split sum.split)
  then show ?thesis
    unfolding checks versions usage check_first_party_Inr check_entry_point_Inr check_installed_Inr variables
    by - (rule trans, assumption, rule iffI, elim exE conjE, (intro exI conjI, assumption+), elim exE conjE, intro exI conjI, assumption+)
qed

text \<open>The variables the gate expects are those the adapters ask for.\<close>

lemma engines_required_env:
  "map (\<lambda>(engine, adapter_dist, class_path, ep_name, required). required) engines = [pg_required_env, trino_required_env, duck_required_env]"
  by (simp add: engines_def pg_required_env_def trino_required_env_def duck_required_env_def)

section \<open>The extensions of an image\<close>

definition bake_extensions ::
  "'w duck_module \<Rightarrow> (string \<Rightarrow> ('w, unit) op) \<Rightarrow> (string \<Rightarrow> string option) \<Rightarrow> ('w, int) op" where
  "bake_extensions m makedirs env = op_bind (op_of_res (env_value env ''DUCKDB_EXTENSION_DIRECTORY'')) (\<lambda>directory.
     op_then (makedirs directory) (op_bind (dm_connect m) (\<lambda>con.
     op_bind (dk_exec con (set_extension_directory directory) None) (\<lambda>_.
     op_then (op_each (\<lambda>name. op_bind (dk_exec con (install_extension name) None) (\<lambda>_.
       op_bind (dk_exec con (load_extension name) None) (\<lambda>_. op_return ()))) duck_extensions) (op_return 0)))))"

text \<open>
  A bake that returns has run an install and then a load of every extension that a session loads, whatever
  its settings, so the offline check of the image has each of them to load.
\<close>

lemma bake_extensions_complete: "set (extensions_to_load s) \<subseteq> set duck_extensions"
  by (auto simp: extensions_to_load_def Let_def)

end
