(* ===== verification/Spec2Isabelle.thy ===== *)
theory Spec2Isabelle
  imports SamplePg SampleTrino SampleRunner SampleDuck SampleRelease ReleaseGates
begin

text \<open>
  A verification library for the Continuo python runtime: the loader and hasher of node contracts,
  the container entrypoint that runs one node against a warehouse, and the engine contract the
  warehouse adapters implement. The root theory imports every other one and holds the properties;
  each theory opens with what it models.

  \<^bold>\<open>The program.\<close> A repository of data nodes holds YAML contracts and Python scripts. In CI the
  command line loads and validates the contracts (\<^verbatim>\<open>contract/loader.py\<close>), lints the scripts
  (\<^verbatim>\<open>lint.py\<close>) and merges everything into one wire document in which every node carries a
  content hash of its entry, its script and its import closure (\<^verbatim>\<open>contract/merge.py\<close>,
  \<^verbatim>\<open>hashing.py\<close>, \<^verbatim>\<open>closure.py\<close>). In production a container runs one node
  (\<^verbatim>\<open>harness.py\<close>): it loads the contracts again, imports the script, lets it read its declared
  reads through the adapter (\<^verbatim>\<open>context.py\<close>), conforms the result to the declared columns
  (\<^verbatim>\<open>conform.py\<close>), checks the live table (\<^verbatim>\<open>shape.py\<close>), writes, and prints one result block.

  \<^bold>\<open>The theories.\<close>
  \<^item> \<^verbatim>\<open>Prelude\<close>: exceptions as values, results, loops that may raise.
  \<^item> \<^verbatim>\<open>PyStr\<close>, \<^verbatim>\<open>PyValue\<close>, \<^verbatim>\<open>Json\<close>, \<^verbatim>\<open>Sha256\<close>: the part of Python the source uses:
    strings, values with their \<^verbatim>\<open>repr\<close>, \<^verbatim>\<open>json.dumps\<close>, \<^verbatim>\<open>hashlib.sha256\<close>.
  \<^item> \<^verbatim>\<open>SqlTypes\<close>, \<^verbatim>\<open>EngineContract\<close>, \<^verbatim>\<open>UniqueKey\<close>, \<^verbatim>\<open>ResultBlock\<close>: the type grammar, the
    guards, the upsert key check and the result block that runtime and adapters share
    (\<^verbatim>\<open>contract/continuo_engine_contract\<close>).
  \<^item> \<^verbatim>\<open>Model\<close>, \<^verbatim>\<open>CsvSource\<close>, \<^verbatim>\<open>Kinds\<close>, \<^verbatim>\<open>Loader\<close>, \<^verbatim>\<open>NodeInvariant\<close>: the contract's
    data, the rules of each kind behind the interface \<open>reads_rule\<close>, the loader, and what a load promises.
  \<^item> \<^verbatim>\<open>Closure\<close>, \<^verbatim>\<open>Lint\<close>, \<^verbatim>\<open>Hashing\<close>, \<^verbatim>\<open>Merge\<close>: import closure, linter, hashes, wire document.
  \<^item> \<^verbatim>\<open>Conform\<close>, \<^verbatim>\<open>RunContext\<close>, \<^verbatim>\<open>Harness\<close>: the run of one node.
  \<^item> \<^verbatim>\<open>Effects\<close>: operations that change the world and may fail, their weakest preconditions,
    and the retry loop behind the interface \<open>retry_policy\<close>.
  \<^item> \<^verbatim>\<open>AdapterBase\<close>, \<^verbatim>\<open>Quoting\<close>, \<^verbatim>\<open>PyUrl\<close>: what the adapters share; quoted names and their reader;
    \<^verbatim>\<open>urlsplit\<close> and \<^verbatim>\<open>urlunsplit\<close>.
  \<^item> \<^verbatim>\<open>TrinoLayout\<close>, \<^verbatim>\<open>Trino\<close>: the Trino adapter
    (\<^verbatim>\<open>adapters/trino/continuo_trino_adapter/adapter.py\<close>) over the statements it sends.
  \<^item> \<^verbatim>\<open>TrinoServer\<close>, \<^verbatim>\<open>TrinoSql\<close>, \<^verbatim>\<open>SampleTrino\<close>: the interface \<open>trino_server\<close> (each statement is one
    commit) with the outcomes of staged writes, a reader of the adapter's statements, and a concrete
    coordinator that uses it.
  \<^item> \<^verbatim>\<open>PgLayout\<close>, \<^verbatim>\<open>Postgres\<close>: the Postgres adapter
    (\<^verbatim>\<open>adapters/postgres/continuo_postgres_adapter/adapter.py\<close>) over the calls it makes to the
    driver: the layout block with its indexes, the connection retry, every operation of the port.
  \<^item> \<^verbatim>\<open>Atomicity\<close>, \<^verbatim>\<open>PgServer\<close>, \<^verbatim>\<open>SamplePg\<close>: the interfaces \<open>atomic_adapter\<close> (a failed run
    of the harness keeps the rows) and \<open>pg_server\<close> (what begin, commit and rollback do), the proof
    that the Postgres adapter is atomic over such a server, and a concrete server.
  \<^item> \<^verbatim>\<open>CsvProbe\<close>, \<^verbatim>\<open>CsvLine\<close>: the header probes of the two csv readers
    (\<^verbatim>\<open>csv_readers\<close>), and the record \<^verbatim>\<open>csv.reader\<close> makes of the header line.
  \<^item> \<^verbatim>\<open>Runner\<close>, \<^verbatim>\<open>Cli\<close>, \<^verbatim>\<open>SampleRunner\<close>: the validation runner (\<^verbatim>\<open>validation/runner.py\<close>), the
    command line (\<^verbatim>\<open>cli.py\<close>), and concrete tools for both.
  \<^item> \<^verbatim>\<open>SqlScan\<close>: a scanner of the SQL that the adapters render, from which the readers of
    \<^verbatim>\<open>TrinoSql\<close> and \<^verbatim>\<open>DuckSql\<close> are made.
  \<^item> \<^verbatim>\<open>DuckLayout\<close>, \<^verbatim>\<open>Redaction\<close>, \<^verbatim>\<open>DuckDdl\<close>: the domain of the DuckDB adapter
    (\<^verbatim>\<open>adapters/duckdb/continuo_duckdb_adapter/domain\<close>), the masking of credentials, its settings and
    the text of its statements (\<^verbatim>\<open>infrastructure/settings.py\<close>, \<^verbatim>\<open>ddl.py\<close>, \<^verbatim>\<open>extensions.py\<close>).
  \<^item> \<^verbatim>\<open>DuckSession\<close>, \<^verbatim>\<open>DuckWarehouse\<close>: the session over a connection and its passfile
    (\<^verbatim>\<open>infrastructure/session.py\<close>, \<^verbatim>\<open>passfile.py\<close>), the use cases over the gateway port
    (\<^verbatim>\<open>application\<close>), and their composition (\<^verbatim>\<open>adapter.py\<close>).
  \<^item> \<^verbatim>\<open>DuckServer\<close>, \<^verbatim>\<open>DuckConnect\<close>, \<^verbatim>\<open>DuckSql\<close>, \<^verbatim>\<open>SampleDuck\<close>: the interface \<open>lake_port\<close> of the use cases,
    which a session gives over any connection that keeps the laws of \<open>duck_catalog\<close>; the interfaces
    \<open>passfile_dir\<close> (temporary files) and \<open>duck_errors\<close> (which exceptions are whose) with the life of a
    passfile, the attach retries and what an exception may say; readers of connection strings, passfiles
    and statements; a concrete lake that is an instance of all of them.
  \<^item> \<^verbatim>\<open>DuckValidation\<close>: that adapter as the validation runner calls it, the interface
    \<open>lake_validation_port\<close>, and what each operation of a validation run does to the tables of a lake.
  \<^item> \<^verbatim>\<open>VersionText\<close>, \<^verbatim>\<open>Rehearsal\<close>, \<^verbatim>\<open>SampleRelease\<close>: the rehearsal of a release
    (\<^verbatim>\<open>scripts/apply_rehearsal_version.py\<close>): the texts it rewrites, the rewrite over the interface
    \<open>project_files\<close> (reading and writing a file), and a small tree.
  \<^item> \<^verbatim>\<open>ReleaseGates\<close>: the other scripts of a release (\<^verbatim>\<open>install_image_pins.py\<close>,
    \<^verbatim>\<open>check_version_bumps.py\<close>, \<^verbatim>\<open>verify_installed_packages.py\<close>,
    \<^verbatim>\<open>bake_duckdb_extensions.py\<close>) with what it means that each passes.
  \<^item> \<^verbatim>\<open>Sample\<close>: concrete inputs for the witnesses.

  \<^bold>\<open>How the code is modelled.\<close> A function that may raise returns \<open>exn + 'a\<close>; every raise and every
  except clause is a branch. A mutable object is a record passed along; a warehouse is a value of
  any type that the adapter's operations map to a new one, and a run logs its calls. Characters
  are the 256 of Latin-1, and a byte string is such a string; a longer code point is outside the
  model (the one em dash of a message is written as a hyphen). Third-party code is a parameter:
  sqlglot's parser, PyYAML's, pyarrow's cast and csv reader, the file system,
  \<^verbatim>\<open>ast.parse\<close>. What a proof needs of such a parameter is a named hypothesis (\<open>cast_ok\<close>,
  \<open>finite_fs\<close>, \<open>float_texts\<close>).

  \<^bold>\<open>Loops.\<close> Every loop is structural recursion on its list, except the walk of a syntax tree, which
  ends because the queue's total size decreases, and the closure's worklist, a partial function that
  is proved to return whenever finitely many files are visible.

  \<^bold>\<open>Not modelled.\<close> Logging, argument parsing, the process exit, file writing, and
  \<^verbatim>\<open>BaseException\<close>s that the except clauses of the code let pass; the manifest lists every
  component that is left out with the reason.
\<close>


section \<open>The run of one node\<close>

text \<open>
  C1: every run of the entrypoint prints exactly one result block, whatever the environment, the
  contract, the script and the warehouse do. The block carries the node id and says success exactly
  when the exit code is 0; the code is 0 or 1; and the adapter is closed once and last, if one was
  obtained at all.
\<close>

theorem run_node_reports:
  "case run_node h env given s of (code, s') \<Rightarrow>
     \<exists>es status message failures closing.
       trace s' = trace s @ es @ [EPrint (result_block status message failures (env_get env ''NODE_ID''))] @ closing
       \<and> filter is_print es = [] \<and> EClose \<notin> set es
       \<and> closing = (case node_result h env given of Inl e \<Rightarrow> [] | Inr p \<Rightarrow> [EClose])
       \<and> (code, status, failures) \<in> {(0, ''success'', 0), (1, ''error'', 1)}"
proof -
  have rep: "\<exists>status message failures. report i r = result_block status message failures i
      \<and> (exit_code r, status, failures) \<in> {(0, ''success'', 0), (1, ''error'', 1)}" for i and r :: "nat res"
    by (cases r) (auto simp: report_def exit_code_def)
  obtain code s' where run: "run_node h env given s = (code, s')" by fastforce
  then show ?thesis
  proof (cases rule: run_node_cases)
    case (unprepared e)
    with run rep [of "env_get env ''NODE_ID''" "Inl e"] show ?thesis
      by (intro case_prodI2) (auto simp: print_block_def exit_code_def intro!: exI [of _ "[]"])
  next
    case (executed j ad outcome s1)
    from execute_node_run [OF executed(2)] obtain es where es: "trace s1 = trace s @ es"
      and ways: "run_stopped (job_node j) outcome es
        \<or> run_wrote h ad (job_node j) (job_schema j) (job_table j) outcome (warehouse s1) es" by blast
    have "filter is_print es = []" "EClose \<notin> set es"
      using executed_events [OF ways] by (auto simp: filter_empty_conv)
    with run executed es rep [of "env_get env ''NODE_ID''" outcome] show ?thesis
      by (intro case_prodI2) (auto intro!: exI [of _ es])
  qed
qed

text \<open>
  C2: no row reaches the warehouse unguarded. Whenever a run makes a write call, it ensured the
  target table just before, the rows are the result of conforming a table to the declared
  columns, the writer is the one of the node's mode, the live table of a mode that keeps rows had
  no difference from the contract, and the rows of an upsert have a unique key; before the table
  is ensured, the run only checked the config and fetched declared reads.
\<close>

theorem run_node_write_guarded:
  assumes "run_node h env given s = (code, s')" and "trace s' = trace s @ es" and "e \<in> set es" and "is_write e"
  shows "\<exists>j ad pre w t data post. node_result h env given = Inr (j, ad)
    \<and> es = pre @ EEnsureTable (job_schema j) (job_table j) (node_primary_key (job_node j))
         # shape_events w (job_schema j) (job_table j) @ e # post
    \<and> before_write (node_reads (job_node j)) pre
    \<and> writer_for ad (job_node j) = Inr w
    \<and> conform (h_cast h) t (node_output_columns (job_node j)) (node_extra_columns (job_node j)) = Inr data
    \<and> e = write_event w (job_schema j) (job_table j) data (node_primary_key (job_node j))
    \<and> write_allowed ad w (job_node j) (job_schema j) (job_table j) data"
  using assms(1)
proof (cases rule: run_node_cases)
  case (unprepared e')
  then have "es = [EPrint (report (env_get env ''NODE_ID'') (Inl e'))]" using assms(2) by (simp add: print_block_def)
  then show ?thesis using assms(3,4) by simp
next
  case (executed j ad outcome s1)
  let ?n = "job_node j" and ?s = "job_schema j" and ?t = "job_table j"
  from execute_node_run [OF executed(2)] obtain fs where fs: "trace s1 = trace s @ fs"
    and ways: "run_stopped ?n outcome fs \<or> run_wrote h ad ?n ?s ?t outcome (warehouse s1) fs" by blast
  have es: "es = fs @ [EPrint (report (env_get env ''NODE_ID'') outcome), EClose]"
    using assms(2) executed(4) fs by simp
  then have e: "e \<in> set fs" using assms(3,4) by auto
  have "\<not> run_stopped ?n outcome fs"
    using e assms(4) before_write_events [of "node_reads ?n" fs e] by (auto simp: run_stopped_def)
  then have "run_wrote h ad ?n ?s ?t outcome (warehouse s1) fs" using ways by blast
  then obtain pre w t data post where fs_eq: "fs = pre @ EEnsureTable ?s ?t (node_primary_key ?n) # post"
    and pre: "before_write (node_reads ?n) pre" and w: "writer_for ad ?n = Inr w"
    and data: "conform (h_cast h) t (node_output_columns ?n) (node_extra_columns ?n) = Inr data"
    and post: "(\<exists>e. outcome = Inl e) \<and> post \<in> {[], shape_events w ?s ?t}
        \<or> post = shape_events w ?s ?t @ [write_event w ?s ?t data (node_primary_key ?n)]
           \<and> write_allowed ad w ?n ?s ?t data
           \<and> (\<forall>k. outcome = Inr k \<longrightarrow> k = num_rows data
                \<and> (\<exists>u. write_op ad w ?s ?t data (node_primary_key ?n) u = (Inr (), warehouse s1)))"
    unfolding run_wrote_def by (elim exE conjE) (rule that)
  have "e \<notin> set pre" using before_write_events [OF pre, of e] assms(4) by auto
  then have "e \<in> set post" using e assms(4) unfolding fs_eq by auto
  then have ev: "e = write_event w ?s ?t data (node_primary_key ?n)"
    and post': "post = shape_events w ?s ?t @ [e]" and ok: "write_allowed ad w ?n ?s ?t data"
    using post assms(4) by (auto simp: shape_events_def split: if_splits)
  have "es = pre @ EEnsureTable ?s ?t (node_primary_key ?n) # shape_events w ?s ?t
      @ e # [EPrint (report (env_get env ''NODE_ID'') outcome), EClose]"
    unfolding es fs_eq post' by simp
  with executed(1) pre w data ev ok show ?thesis by blast
qed

theorem run_node_write_guarded_witness:
  "\<exists>j ad w data. node_result sample_harness sample_env (Some sample_adapter) = Inr (j, ad)
    \<and> EUpsert ''s1'' ''t1'' sample_table [''id''] = write_event w (job_schema j) (job_table j) data (node_primary_key (job_node j))
    \<and> write_allowed ad w (job_node j) (job_schema j) (job_table j) data"
proof -
  let ?e = "EUpsert ''s1'' ''t1'' sample_table [''id'']"
  let ?es = "[EValidateConfig, EFetch ''select 1'', EEnsureTable ''s1'' ''t1'' [''id''], ETableColumns ''s1'' ''t1'', ?e,
    EPrint (result_block ''success'' ''rows=2'' 0 ''proj.s.t''), EClose]"
  show ?thesis
    using run_node_write_guarded [OF sample_run, of ?es ?e] unfolding sample_start_def by fastforce
qed

text \<open>
  C3: a run that exits with 0 has written: its one write call is the node's mode's, that call
  returned without an exception, the warehouse is what the call left (and the close after it), and
  the rows it wrote are as many as the block reports.
\<close>

theorem run_node_success:
  assumes "run_node h env given s = (0, s')"
  shows "\<exists>j ad w data es. node_result h env given = Inr (j, ad)
    \<and> trace s' = trace s @ es @ [write_event w (job_schema j) (job_table j) data (node_primary_key (job_node j)),
        EPrint (result_block ''success'' (''rows='' @ nat_str (num_rows data)) 0 (env_get env ''NODE_ID'')), EClose]
    \<and> filter is_write es = []
    \<and> writer_for ad (job_node j) = Inr w
    \<and> (\<exists>before after. write_op ad w (job_schema j) (job_table j) data (node_primary_key (job_node j)) before = (Inr (), after)
          \<and> warehouse s' = snd (ad_close ad after))"
  using assms
proof (cases rule: run_node_cases)
  case (unprepared e)
  then show ?thesis by simp
next
  case (executed j ad outcome s1)
  let ?n = "job_node j" and ?s = "job_schema j" and ?t = "job_table j"
  obtain k where k: "outcome = Inr k" using executed(3) by (cases outcome) (simp_all add: exit_code_def)
  from execute_node_run [OF executed(2)] obtain fs where fs: "trace s1 = trace s @ fs"
    and ways: "run_stopped ?n outcome fs \<or> run_wrote h ad ?n ?s ?t outcome (warehouse s1) fs" by blast
  have "run_wrote h ad ?n ?s ?t outcome (warehouse s1) fs"
    using ways k by (auto simp: run_stopped_def)
  then obtain pre w t data post where fs_eq: "fs = pre @ EEnsureTable ?s ?t (node_primary_key ?n) # post"
    and pre: "before_write (node_reads ?n) pre" and w: "writer_for ad ?n = Inr w"
    and post: "(\<exists>e. outcome = Inl e) \<and> post \<in> {[], shape_events w ?s ?t}
        \<or> post = shape_events w ?s ?t @ [write_event w ?s ?t data (node_primary_key ?n)]
           \<and> write_allowed ad w ?n ?s ?t data
           \<and> (\<forall>k. outcome = Inr k \<longrightarrow> k = num_rows data
                \<and> (\<exists>u. write_op ad w ?s ?t data (node_primary_key ?n) u = (Inr (), warehouse s1)))"
    unfolding run_wrote_def by (elim exE conjE) (rule that)
  have p: "post = shape_events w ?s ?t @ [write_event w ?s ?t data (node_primary_key ?n)]" "k = num_rows data"
    and u: "\<exists>u. write_op ad w ?s ?t data (node_primary_key ?n) u = (Inr (), warehouse s1)"
    using post k by auto
  let ?es = "pre @ EEnsureTable ?s ?t (node_primary_key ?n) # shape_events w ?s ?t"
  have "trace s' = trace s @ ?es @ [write_event w ?s ?t data (node_primary_key ?n),
      EPrint (result_block ''success'' (''rows='' @ nat_str (num_rows data)) 0 (env_get env ''NODE_ID'')), EClose]"
    using executed(4) fs fs_eq p k by (simp add: report_def)
  moreover have "filter is_write ?es = []"
  proof -
    have "\<not> is_write x" if "x \<in> set pre" for x using before_write_events [OF pre that] by auto
    then show ?thesis by (simp add: filter_empty_conv shape_events_def)
  qed
  ultimately show ?thesis using executed(1,5) w u by blast
qed

theorem run_node_success_witness:
  "\<exists>j ad w data. node_result sample_harness sample_env (Some sample_adapter) = Inr (j, ad)
    \<and> writer_for ad (job_node j) = Inr w
    \<and> (\<exists>before after. write_op ad w (job_schema j) (job_table j) data (node_primary_key (job_node j)) before = (Inr (), after))"
  using run_node_success [OF sample_run] by blast




text \<open>
  A table with a repeated column, an undeclared column under the policy to raise, or a
  missing column is refused with a ConformError whatever the cast would do: it is not tried.
\<close>

theorem conform_refuses_structure:
  assumes "extra \<in> {''raise'', ''warn''}"
    and "\<not> distinct (column_names t)
      \<or> (extra = ''raise'' \<and> \<not> set (column_names t) \<subseteq> set (map col_name columns))
      \<or> \<not> set (map col_name columns) \<subseteq> set (column_names t)"
  shows "\<exists>m. \<forall>cast. conform cast t columns extra = raise_conform m"
  by (rule conform_structural [OF assms(1)]) (use assms(2) in \<open>simp add: duplicate_names_Nil\<close>)

theorem conform_refuses_structure_witness:
  "\<exists>m. \<forall>cast. conform cast \<lparr>table_cols = [(''id'', Int64, [])], num_rows = 0\<rparr> sample_columns ''warn'' = raise_conform m"
  by (rule conform_refuses_structure) (simp_all add: sample_columns_def column_names_def)

section \<open>The contract\<close>



text \<open>
  C6: the run time never refuses what CI accepted. A directory that loads with the read gate on,
  under any dialect, loads to the same nodes with the gate off and no dialect, as the harness
  loads it.
\<close>

theorem load_contract_dir_gate_only_rejects:
  assumes "load_contract_dir parse unknown_dialect read_text yaml_load path names dialect True = Inr nodes"
  shows "load_contract_dir parse unknown_dialect read_text yaml_load path names None False = Inr nodes"
  by (rule load_contract_dir_ungated [OF assms])

theorem load_contract_dir_gate_only_rejects_witness:
  "load_contract_dir sample_parser (\<lambda>d. None) Inr sample_yaml ''c'' [''n.yml'', ''README''] None False = Inr [sample_node]"
  by (rule load_contract_dir_gate_only_rejects [OF sample_load])



text \<open>
  C8: the YAML constructor refuses a repeated key: when it lets a mapping through, every key it
  built is hashable and no two are equal in Python's sense (1, 1.0 and True are one key).
\<close>

theorem strict_construct_distinct:
  assumes "strict_construct_mapping construct_object construct_mapping start_mark entries = Inr v"
  shows "\<exists>keys. list_all2 (\<lambda>(k, _) key. construct_object k = Inr key) entries keys
    \<and> (\<forall>k\<in>set keys. hashable k)
    \<and> (\<forall>i j. i < j \<longrightarrow> j < length keys \<longrightarrow> \<not> key_eq (keys ! i) (keys ! j))
    \<and> construct_mapping entries = Inr v"
proof -
  obtain u where u: "check_mapping_keys construct_object start_mark [] entries = Inr u" "construct_mapping entries = Inr v"
    using assms by (auto simp: strict_construct_mapping_def res_simps)
  from check_mapping_keys_Inr [OF u(1)] u(2) show ?thesis by blast
qed

theorem strict_construct_distinct_witness:
  "\<exists>keys. list_all2 (\<lambda>(k, _) key. Inr (PStr k) = (Inr key :: pyval res)) [(''a'', ''x''), (''b'', ''y'')] keys"
proof -
  have "strict_construct_mapping (\<lambda>k. Inr (PStr k)) (\<lambda>es. Inr PNone) (\<lambda>k. k) [(''a'', ''x''), (''b'', ''y'')] = Inr PNone"
    by code_simp
  from strict_construct_distinct [OF this] show ?thesis by blast
qed

section \<open>The content hash\<close>

text \<open>
  C9: the import closure. On a file system with finitely many files the resolver returns; without
  an error its result is sorted, without repetition, and is exactly the set of files that imports
  reach from the script, the script left out; an error is the error of some reached file.
\<close>

theorem resolve_closure_exact:
  assumes "finite_fs f"
  shows "\<exists>r. resolve_closure f parse script repo = Some r \<and>
    (case r of
       Inl e \<Rightarrow> \<exists>q. import_reach (script_imports f parse script repo) (fs_resolve f script) q
         \<and> script_imports f parse script repo q = Inl e
     | Inr files \<Rightarrow> sorted files \<and> distinct files \<and> fs_resolve f script \<notin> set files
         \<and> insert (fs_resolve f script) (set files)
            = {q. import_reach (script_imports f parse script repo) (fs_resolve f script) q})"
  by (rule resolve_closure_result [OF assms])

theorem resolve_closure_exact_witness:
  "import_reach (script_imports sample_fs sample_tree [''repo'', ''a.py''] [''repo'']) [''repo'', ''a.py''] [''repo'', ''b.py'']"
proof -
  have "fs_resolve sample_fs p = p" for p by (simp add: sample_fs_def)
  then show ?thesis
    using resolve_closure_exact [OF sample_fs_finite, of sample_tree "[''repo'', ''a.py'']" "[''repo'']"]
    by (auto simp: sample_closure)
qed

text \<open>
  C10: the closure cannot be changed from outside: with the same files present, editing any file
  that is neither the script nor a member leaves the closure as it is, and every member lies in the
  repository.
\<close>

theorem resolve_closure_closed:
  assumes "finite_fs f" and "resolve_closure f parse script repo = Some (Inr files)"
    and "fs_is_file f' = fs_is_file f" and "fs_resolve f' = fs_resolve f"
    and "\<forall>p\<in>insert (fs_resolve f script) (set files). fs_read f' p = fs_read f p"
  shows "resolve_closure f' parse script repo = Some (Inr files)
    \<and> (\<forall>p\<in>set files. is_relative_to p (fs_resolve f repo))"
  using resolve_closure_local [OF assms(2-5)] resolve_closure_inside [OF assms(2,1)] by blast

theorem resolve_closure_closed_witness:
  "resolve_closure (sample_fs\<lparr>fs_read := (\<lambda>p. if p = [''repo'', ''c.py''] then Inr ''edited'' else Inr (last p))\<rparr>)
     sample_tree [''repo'', ''a.py''] [''repo''] = Some (Inr [[''repo'', ''b.py'']])"
  using resolve_closure_closed [OF sample_fs_finite sample_closure,
      of "sample_fs\<lparr>fs_read := (\<lambda>p. if p = [''repo'', ''c.py''] then Inr ''edited'' else Inr (last p))\<rparr>"]
  by (simp add: sample_fs_def)

text \<open>
  C11: the content hash is a faithful change detector. If two wire entries carry one content hash
  then their nodes agree on every field but the timeout (reads up to blanks, config as JSON), their
  sources and the files of their closures are the same bytes, or else two different byte strings
  hashed at the same place have one SHA-256 digest.
\<close>

theorem content_hash_detects_changes:
  assumes "wire_node f parse decode repo a = Some (Inr ea)" and "wire_node f' parse decode repo b = Some (Inr eb)"
    and "entry_text ea ''content_hash'' = entry_text eb ''content_hash''"
    and "node_ok a" "node_ok b" "float_texts (PDict (node_config a))" "float_texts (PDict (node_config b))"
    and "distinct (map fst (node_reads a))" "distinct (map fst (node_reads b))"
  shows "\<exists>sa ma ta sb mb tb. hash_inputs f parse decode a repo = Some (Inr (sa, ma))
    \<and> hash_inputs f' parse decode b repo = Some (Inr (sb, mb))
    \<and> canonical_json (node_entry a) = Inr ta \<and> canonical_json (node_entry b) = Inr tb
    \<and> (same_code a b \<and> sa = sb \<and> mset ma = mset mb \<or> collision (hashed_at sa ma ta) (hashed_at sb mb tb))"
proof -
  obtain sa ma pa where a: "hash_inputs f parse decode a repo = Some (Inr (sa, ma))"
    "hash_parts (node_entry a) sa ma = Inr pa" "ea = wire_entry a pa" by (rule wire_node_Inr [OF assms(1)])
  obtain sb mb pb where b: "hash_inputs f' parse decode b repo = Some (Inr (sb, mb))"
    "hash_parts (node_entry b) sb mb = Inr pb" "eb = wire_entry b pb" by (rule wire_node_Inr [OF assms(2)])
  obtain ta where ta: "canonical_json (node_entry a) = Inr ta" "config_hash (node_entry a) = Inr (sha256_hex (utf8 ta))"
    using a(2) by (auto simp: hash_parts_eq_Inr config_hash_def res_simps)
  obtain tb where tb: "canonical_json (node_entry b) = Inr tb" "config_hash (node_entry b) = Inr (sha256_hex (utf8 tb))"
    using b(2) by (auto simp: hash_parts_eq_Inr config_hash_def res_simps)
  have "content_hash_fold (source_hash sa) (shared_code_hash ma) (sha256_hex (utf8 ta))
      = content_hash_fold (source_hash sb) (shared_code_hash mb) (sha256_hex (utf8 tb))"
    using assms(3) wire_entry_hashes [OF a(2)] wire_entry_hashes [OF b(2)] ta(2) tb(2)
      config_hash_wire [OF a(2)] config_hash_wire [OF b(2)]
    by (simp add: entry_hashes_ok_def a(3) b(3))
  from content_hash_inject [OF ta(1) tb(1) this]
  have "same_code a b \<and> sa = sb \<and> mset ma = mset mb \<or> collision (hashed_at sa ma ta) (hashed_at sb mb tb)"
    using canonical_json_inject [of a ta b, OF ta(1) _ assms(4-9)] tb(1) by auto
  with a(1) b(1) ta(1) tb(1) show ?thesis by blast
qed

theorem content_hash_detects_changes_witness:
  "\<exists>ta. canonical_json (node_entry sample_node) = Inr ta
    \<and> (same_code sample_node sample_node \<or> collision (hashed_at ''a.py'' [''b.py''] ta) (hashed_at ''a.py'' [''b.py''] ta))"
proof -
  obtain e where e: "wire_node sample_fs sample_tree sample_decode [''repo''] sample_node = Some (Inr e)"
    using sample_wire by blast
  have "float_texts (PDict (node_config sample_node))" "distinct (map fst (node_reads sample_node))"
    by (simp_all add: sample_node_def)
  with content_hash_detects_changes [OF e e refl sample_node_ok sample_node_ok] show ?thesis
    by (fastforce simp: sample_inputs)
qed

text \<open>
  What the hash ignores. Changing the timeout, or only the blanks inside the reads, leaves the
  config hash as it is; and the order in which the closure's files are read does not matter.
\<close>

theorem hash_ignores:
  assumes "list_all2 (\<lambda>(k, s) (k', s'). k = k' \<and> words s = words s') (node_reads n) reads"
    and "mset members = mset members'"
  shows "config_hash (node_entry (n\<lparr>node_reads := reads, node_timeout_minutes := t\<rparr>)) = config_hash (node_entry n)
    \<and> shared_code_hash members = shared_code_hash members'"
proof -
  have "node_entry (n\<lparr>node_reads := reads, node_timeout_minutes := t\<rparr>) = node_entry (n\<lparr>node_reads := reads\<rparr>)"
    by (simp add: node_entry_def)
  then show ?thesis
    using canonical_entry_reads [OF assms(1)] shared_code_hash_order [OF assms(2)]
    by (simp add: config_hash_def canonical_json_def)
qed

theorem hash_ignores_witness:
  "config_hash (node_entry (sample_node\<lparr>node_reads := [(''r'', '' select   1 '')], node_timeout_minutes := None\<rparr>))
     = config_hash (node_entry sample_node) \<and> shared_code_hash [''x'', ''y''] = shared_code_hash [''y'', ''x'']"
proof (rule hash_ignores)
  have "words ''select 1'' = words '' select   1 ''" by code_simp
  then show "list_all2 (\<lambda>(k, s) (k', s'). k = k' \<and> words s = words s') (node_reads sample_node) [(''r'', '' select   1 '')]"
    by (simp add: sample_node_def)
qed simp







section \<open>Types and keys\<close>

text \<open>
  C15: what the loader's type check lets through. A type it accepts is one of the ten supported
  ones within its bounds, with an Arrow type, unless its text has a line feed inside: then
  \<open>parse_sql_type\<close> takes the whole text for a base name, checks no range, and the type has no Arrow
  type, so the node that was accepted fails at run time.
\<close>

theorem accepted_type_meaning:
  assumes "parse_sql_type raw = Inr t"
  shows "if newline \<in> set (strip raw)
    then t = bare_type (ascii_upper (strip raw)) \<and> (\<exists>e. arrow_type_of t = Inl e)
    else wf_sql_type t \<and> (\<exists>a. arrow_type_of t = Inr a)"
proof (cases "newline \<in> set (strip raw)")
  case True
  then have "t = bare_type (ascii_upper (strip raw))" "\<forall>a. arrow_type_of t \<noteq> Inr a"
    using parse_sql_type_dichotomy [OF assms] by auto
  then show ?thesis using True by (cases "arrow_type_of t") auto
next
  case False
  then show ?thesis using parse_sql_type_dichotomy [OF assms] arrow_type_of_wf by auto
qed

theorem accepted_type_meaning_witness:
  "\<exists>e. arrow_type_of (bare_type (''NUMERIC(99,'' @ [newline] @ ''2)'')) = Inl e"
proof -
  have p: "parse_sql_type (''NUMERIC(99,'' @ [newline] @ ''2)'') = Inr (bare_type (''NUMERIC(99,'' @ [newline] @ ''2)''))"
    by code_simp
  have "newline \<in> set (strip (''NUMERIC(99,'' @ [newline] @ ''2)''))" by code_simp
  then show ?thesis using accepted_type_meaning [OF p] by auto
qed

text \<open>
  Every well-formed type has a spelling that parses back to it.
\<close>

theorem sql_type_round_trip:
  assumes "wf_sql_type t"
  shows "parse_sql_type (show_sql_type t) = Inr t"
  by (rule parse_show_sql_type [OF assms])

theorem sql_type_round_trip_witness:
  "parse_sql_type (show_sql_type \<lparr>base = ''NUMERIC'', precision = Some 12, scale = Some 2, len = None\<rparr>)
     = Inr \<lparr>base = ''NUMERIC'', precision = Some 12, scale = Some 2, len = None\<rparr>"
  by (rule sql_type_round_trip) (simp add: wf_sql_type_def)

text \<open>
  C16: the grammar is an injection guard. A type that \<open>validate_column_type\<close> accepts holds letters,
  digits, blanks, parentheses and commas only: no quote, no semicolon, no comment mark can reach
  the DDL it is pasted into.
\<close>

theorem column_type_is_injection_safe:
  assumes "validate_column_type ty = Inr ()"
  shows "\<forall>c\<in>set ty. ddl_safe_char c"
  by (rule type_re_safe) (use assms in \<open>simp add: validate_column_type_def require_eq_Inr\<close>)

theorem column_type_is_injection_safe_witness: "list_all ddl_safe_char ''varchar(20)''"
proof -
  have "validate_column_type ''varchar(20)'' = Inr ()" by code_simp
  from column_type_is_injection_safe [OF this] show ?thesis by (simp only: list_all_iff)
qed

text \<open>
  C17: the upsert key check decides the invariant. With key columns that exist and are not
  floating, it accepts a table exactly when no two rows agree on the key, and otherwise raises
  DuplicateKeyError; with other key columns it raises a plain ValueError.
\<close>

theorem ensure_unique_key_decides:
  "case ensure_unique_key t key of
     Inr u \<Rightarrow> key_columns_ok t key \<and> (\<forall>i j. \<not> (i < j \<and> j < num_rows t \<and> row_key t key i = row_key t key j))
   | Inl e \<Rightarrow> (if key_columns_ok t key
       then exn_kind e = DuplicateKeyError \<and> (\<exists>i j. i < j \<and> j < num_rows t \<and> row_key t key i = row_key t key j)
       else exn_kind e = ValueError)"
proof (cases "key_columns_ok t key")
  case True
  then show ?thesis
    using ensure_unique_key_valid [OF True] distinct_key_rows [of t key] by (auto split: if_splits)
next
  case False
  then obtain m where "ensure_unique_key t key = raise_value m" using ensure_unique_key_invalid by blast
  with False show ?thesis by simp
qed

text \<open>
  The single-read gate passes a text exactly when it parses to one statement that is a query
  (empty statements aside); every other outcome is a ValueError, except a tokenizer failure, whose
  TokenError escapes as it is.
\<close>

theorem single_read_gate_decides:
  "case ensure_single_read parse sql dialect of
     Inr u \<Rightarrow> \<exists>parsed s. parse dialect sql = SqlParsed parsed \<and> present parsed = [s] \<and> is_read_stmt s
   | Inl e \<Rightarrow> exn_kind e = (case parse dialect sql of SqlTokenError m \<Rightarrow> TokenError | _ \<Rightarrow> ValueError)
       \<and> \<not> (\<exists>parsed s. parse dialect sql = SqlParsed parsed \<and> present parsed = [s] \<and> is_read_stmt s)"
proof (cases "ensure_single_read parse sql dialect")
  case (Inl e)
  then show ?thesis
    using ensure_single_read_error_kind [OF Inl] ensure_single_read_eq_Inr [of parse sql dialect "()"] by auto
next
  case (Inr u)
  then show ?thesis using ensure_single_read_eq_Inr [of parse sql dialect u] by simp
qed

section \<open>The channel to the executor\<close>

text \<open>
  C18: the result block is a faithful frame. Whatever the message holds (line feeds, the markers
  themselves), the block is three lines, the body is neither marker, and two blocks are equal only
  if status, message, failure count and node id all are.
\<close>

theorem result_block_faithful:
  "split_on newline (result_block status message failures uid)
     = [sentinel_begin, dumps (result_body status message failures uid), sentinel_end]
   \<and> dumps (result_body status message failures uid) \<noteq> sentinel_begin
   \<and> dumps (result_body status message failures uid) \<noteq> sentinel_end
   \<and> (result_block status message failures uid = result_block status' message' failures' uid'
      \<longleftrightarrow> status = status' \<and> message = message' \<and> failures = failures' \<and> uid = uid')"
  using result_block_lines body_not_sentinel result_block_inject by blast

text \<open>
  The message of a failed run starts with an error class the remediation classifier can read:
  the exception's own class if it is one of the harness's, ScriptError for any other.
\<close>

theorem failure_message_class:
  "error_class_of (failure_message e) =
     (case exn_kind e of Harness c \<Rightarrow> harness_class_name c | _ \<Rightarrow> harness_class_name ScriptError)"
proof (cases "exn_kind e")
  case (Harness c)
  then show ?thesis by (simp add: failure_message_def error_class_of_sentinel)
next
qed (simp_all add: failure_message_def error_class_of_def before_char_def)

text \<open>
  The shape check decides. With declared names that differ beyond case, it finds no difference
  exactly when the live columns can be paired one to one with the declared ones, by name up to
  case and with equal nullability.
\<close>

theorem shape_diff_decides:
  assumes "distinct (map (casefold \<circ> col_name) columns)"
  shows "\<not> shape_differs (shape_diff_of columns live) \<longleftrightarrow>
    (\<exists>partners. mset partners = mset live \<and> list_all2 same_shape columns partners)"
  unfolding shape_diff_of_def using shape_loop_same shape_loop_complete [OF _ _ assms] by blast

theorem shape_diff_decides_witness:
  "\<not> shape_differs (shape_diff_of sample_columns
     [\<lparr>live_name = ''V'', live_nullable = True\<rparr>, \<lparr>live_name = ''id'', live_nullable = False\<rparr>])"
proof -
  have d: "distinct (map (casefold \<circ> col_name) sample_columns)" by code_simp
  have "list_all2 same_shape sample_columns
      [\<lparr>live_name = ''id'', live_nullable = False\<rparr>, \<lparr>live_name = ''V'', live_nullable = True\<rparr>]" by code_simp
  then show ?thesis unfolding shape_diff_decides [OF d]
    by (intro exI [of _ "[\<lparr>live_name = ''id'', live_nullable = False\<rparr>, \<lparr>live_name = ''V'', live_nullable = True\<rparr>]"]) simp
qed


text \<open>
  A node is found by the last two segments of its id. On nodes without dots in schema and
  table and with distinct relations, as a directory loads, the id \<open>prefix.schema.table\<close> selects
  exactly the node of that schema and table.
\<close>

theorem select_node_finds:
  assumes "n \<in> set nodes" and "distinct (map relation nodes)"
    and "CHR ''.'' \<notin> set (node_schema n)" and "CHR ''.'' \<notin> set (node_table n)"
  shows "select_node nodes (prefix @ ''.'' @ relation n) = Inr n"
proof -
  have split: "split_on (CHR ''.'') (node_schema n @ CHR ''.'' # node_table n) = [node_schema n, node_table n]"
    by (simp only: split_on_append [OF assms(3)] split_on_free [OF assms(4)])
  have "split_on (CHR ''.'') (prefix @ CHR ''.'' # node_schema n @ CHR ''.'' # node_table n)
      = split_on (CHR ''.'') prefix @ [node_schema n, node_table n]"
    by (simp only: split_on_append2 split_on_free [OF assms(3)] split_on_free [OF assms(4)] append.simps)
  moreover have "find (\<lambda>m. node_schema m = node_schema n \<and> node_table m = node_table n) nodes = Some n"
  proof (cases "find (\<lambda>m. node_schema m = node_schema n \<and> node_table m = node_table n) nodes")
    case None
    then show ?thesis using find_None_set [OF None assms(1)] by simp
  next
    case (Some m)
    then have "m \<in> set nodes" "relation m = relation n" using find_Some_in_set [OF Some] by (auto simp: relation_def)
    then have "m = n" using assms(1,2) by (simp add: distinct_map inj_on_def)
    with Some show ?thesis by simp
  qed
  ultimately show ?thesis by (simp add: select_node_def Let_def relation_def butlast_append)
qed

theorem select_node_finds_witness: "select_node [sample_node] (''proj'' @ ''.'' @ relation sample_node) = Inr sample_node"
  by (rule select_node_finds) (simp_all add: sample_node_def)

text \<open>
  The static and the run-time search paths agree. After \<open>ensure_import_paths\<close> the interpreter's
  path begins with exactly the roots the closure resolver searches, in the same order, whatever the
  path was before; every other entry is kept, and a second call changes nothing.
\<close>

theorem import_paths_match_closure_roots:
  "take (length (search_roots_of repo script_dir)) (ensure_import_paths repo script_dir sys_path)
     = search_roots_of repo script_dir
   \<and> set (ensure_import_paths repo script_dir sys_path) = insert repo (insert script_dir (set sys_path))
   \<and> ensure_import_paths repo script_dir (ensure_import_paths repo script_dir sys_path)
     = ensure_import_paths repo script_dir sys_path"
proof -
  have moved: "set (move_front x p) = insert x (set p)" for x and p :: "path list"
    by (induction p) (auto simp: move_front_def)
  show ?thesis
    by (auto simp: ensure_import_paths_def search_roots_of_def moved) (auto simp: move_front_def)
qed

text \<open>
  The csv uri grammar. An accepted s3 uri has one bucket and one key, neither empty, and is
  rebuilt from them; every non-empty bucket without a slash and every non-empty key is accepted.
\<close>

theorem csv_uri_s3_round_trip:
  assumes "b \<noteq> []" and "CHR ''/'' \<notin> set b" and "k \<noteq> []"
    and "parse_csv_uri v = Inr u" and "uri_scheme u = ''s3''"
  shows "parse_csv_uri (PStr (''s3://'' @ b @ ''/'' @ k))
      = Inr \<lparr>uri_scheme = ''s3'', uri_raw = ''s3://'' @ b @ ''/'' @ k, uri_bucket = b, uri_key = k\<rparr>
    \<and> v = PStr (''s3://'' @ uri_bucket u @ ''/'' @ uri_key u) \<and> uri_bucket u \<noteq> [] \<and> uri_key u \<noteq> []"
  using parse_csv_uri_build_s3 [OF assms(1,3,2)] parse_csv_uri_s3 [OF assms(4,5)] parse_csv_uri_str [OF assms(4)] by simp

theorem csv_uri_s3_round_trip_witness:
  "parse_csv_uri (PStr (''s3://'' @ ''b'' @ ''/'' @ ''k/x.csv''))
     = Inr \<lparr>uri_scheme = ''s3'', uri_raw = ''s3://'' @ ''b'' @ ''/'' @ ''k/x.csv'', uri_bucket = ''b'', uri_key = ''k/x.csv''\<rparr>"
proof -
  have p: "parse_csv_uri (PStr ''s3://a/b'') = Inr \<lparr>uri_scheme = ''s3'', uri_raw = ''s3://a/b'', uri_bucket = ''a'', uri_key = ''b''\<rparr>"
    by code_simp
  show ?thesis using csv_uri_s3_round_trip [OF _ _ _ p, of "''b''" "''k/x.csv''"] by simp
qed

text \<open>
  A node can name only the Secrets set aside for api nodes. A reference that is accepted
  starts with the prefix, has at most 253 characters, all lower-case letters, digits or hyphens,
  and ends in a letter or digit.
\<close>

theorem secret_ref_confined:
  assumes "validate_secret_ref v label = Inr s"
  shows "v = PStr s \<and> (\<exists>r. s = ''continuo-api-'' @ r \<and> r \<noteq> []) \<and> length s \<le> 253
    \<and> (\<forall>c\<in>set s. is_lower c \<or> is_digit c \<or> c = CHR ''-'') \<and> last s \<noteq> CHR ''-''"
proof -
  have v: "v = PStr s" "length s \<le> 253" and p: "secret_ref_pattern s"
    using assms by (auto simp: validate_secret_ref_eq_Inr secret_ref_max_len_def)
  have "\<not> secret_alnum CHR ''-''" by code_simp
  then show ?thesis using v secret_ref_pattern_shape [OF p] by (auto simp: secret_alnum_def)
qed

theorem secret_ref_confined_witness: "length ''continuo-api-crm'' \<le> 253"
proof -
  have "validate_secret_ref (PStr ''continuo-api-crm'') ''n'' = Inr ''continuo-api-crm''" by code_simp
  from secret_ref_confined [OF this] show ?thesis by blast
qed

section \<open>The Postgres adapter\<close>





text \<open>
  C22: what the layout block of a Postgres node may ask for. A block that passes gives indexes on
  declared columns, unique only with btree, one column with hash, with pairwise distinct names of
  at most 63 bytes, so that the server truncates none of them; every rejection is a ValueError.
\<close>

theorem pg_indexes_valid:
  "case validated_indexes config tbl declared of
     Inr ixs \<Rightarrow> list_all (index_ok declared) ixs \<and> distinct (map ix_name ixs)
   | Inl e \<Rightarrow> exn_kind e = ValueError"
  using validated_indexes_Inr validated_indexes_error by (auto simp: list_all_iff split: sum.splits)

text \<open>
  The early check of a layout block, made under a placeholder table name, refuses nothing
  else than \<open>ensure_table\<close> would, but for names: when it refuses a block that is valid for the
  real table, two indexes share a name under the placeholder.
\<close>

theorem pg_early_check_agrees:
  assumes "validated_indexes config tbl declared = Inr ixs" and "pg_validate_config config declared = Inl e"
  shows "\<exists>n. e = Exn ValueError (''duplicate index name: '' @ repr_str n)"
  by (rule validated_indexes_early [OF assms])

theorem pg_early_check_agrees_witness:
  "\<exists>config ixs n. validated_indexes config ''t'' [''a''] = Inr ixs
    \<and> pg_validate_config config [''a''] = raise_value (''duplicate index name: '' @ repr_str n)"
proof -
  let ?c = "PDict [(PStr ''indexes'', PList [PDict [(PStr ''columns'', PList [PStr ''a''])],
    PDict [(PStr ''columns'', PList [PStr ''a'']), (PStr ''name'', PStr ''ix___a'')]])]"
  have late: "validated_indexes ?c ''t'' [''a''] = Inr [\<lparr>ix_columns = [''a''], ix_unique = False, ix_type = ''btree'', ix_name = ''ix_t_a''\<rparr>,
      \<lparr>ix_columns = [''a''], ix_unique = False, ix_type = ''btree'', ix_name = ''ix___a''\<rparr>]" by code_simp
  have early: "pg_validate_config ?c [''a''] = raise_value (''duplicate index name: '' @ repr_str ''ix___a'')" by code_simp
  show ?thesis using pg_early_check_agrees [OF late early] late early by blast
qed

text \<open>
  C23: connecting to Postgres ends. It makes at most five attempts; it waits and tries again only
  after an operational error that says every address refused or was unroutable; and what it
  returns or raises is the last attempt's outcome, a failure only if that one may not be retried
  or it was the fifth.
\<close>

theorem pg_connect_bounded:
  assumes "pg_params env = Inr params" and "pg_from_env connect operational pause env w = (r, u)"
  shows "\<exists>fs v. tries (connect_delay operational) pause (connect params) 1 w fs v \<and> length fs \<le> 4
    \<and> list_all (\<lambda>e. operational e \<and> is_unreachable (exn_text e)) fs
    \<and> (case connect params v of
         (Inr d, v') \<Rightarrow> (r, u) = (Inr (postgres_adapter d), v')
       | (Inl e, v') \<Rightarrow> (r, u) = (Inl e, v') \<and> (operational e \<and> is_unreachable (exn_text e) \<longrightarrow> length fs = 4))"
proof -
  obtain x v' where run: "retry (connect_delay operational) pause (connect params) 1 (connect_attempts - 1) w = (x, v')"
    by fastforce
  from pg_connect.retry_outcome [OF run] obtain fs v where "tries (connect_delay operational) pause (connect params) 1 w fs v"
    "length fs \<le> 4" "list_all (\<lambda>e. operational e \<and> is_unreachable (exn_text e)) fs" "connect params v = (x, v')"
    "\<forall>e. x = Inl e \<longrightarrow> operational e \<and> is_unreachable (exn_text e) \<longrightarrow> length fs = 4"
    by (auto simp: connect_attempts_def)
  then show ?thesis using assms run
    by (intro exI [of _ fs] exI [of _ v])
      (auto simp: pg_from_env_def op_bind_def op_of_res_def op_return_def split: sum.splits)
qed

theorem pg_connect_bounded_witness:
  "\<exists>fs v. tries (connect_delay (\<lambda>e. True)) (\<lambda>_ k. k) (sample_connect sample_pg_params) 1 2 fs v \<and> length fs \<le> 4
    \<and> list_all (\<lambda>e. is_unreachable (exn_text e)) fs"
proof -
  have p: "pg_params sample_pg_env = Inr sample_pg_params" by code_simp
  obtain r u where "pg_from_env sample_connect (\<lambda>e. True) (\<lambda>_ k. k) sample_pg_env 2 = (r, u)" by fastforce
  from pg_connect_bounded [OF p this] show ?thesis by auto
qed

text \<open>
  C24: the header probes. Over a store that serves ranges, both readers return for every object with a
  line feed, and for every non-empty one without that is within the limit and no multiple of the probe,
  exactly what reading the whole object would give, the refusal of a long line included; a web server
  that ignores ranges gives it for every object.
\<close>

theorem csv_probes_refine_header:
  assumes "serves_ranges get object" and "probe_ok object" and "object \<noteq> []"
  shows "s3_fetch_header_line get invalid_range decode uri = header_spec decode (uri_raw uri) object
    \<and> https_fetch_header_line (\<lambda>a b. map_sum id (Pair True) (get a b)) decode uri = header_spec decode (uri_raw uri) object
    \<and> https_fetch_header_line (\<lambda>a b. Inr (False, other)) decode uri = header_spec decode (uri_raw uri) other"
  using s3_header_exact [OF assms] https_header_exact [OF assms] https_header_unranged by simp

theorem csv_probes_refine_header_witness:
  "\<exists>line. s3_fetch_header_line (store_get sample_object (Exn OSError [])) (\<lambda>x. False) Inr
       \<lparr>uri_scheme = ''s3'', uri_raw = ''s3://b/k'', uri_bucket = ''b'', uri_key = ''k''\<rparr> = Inr line \<and> line = ''id,note''"
proof -
  have "probe_ok sample_object" "sample_object \<noteq> []" by (simp_all add: probe_ok_def sample_object_def)
  from csv_probes_refine_header [OF store_serves this, of "Exn OSError []" "\<lambda>x. False" Inr
      "\<lparr>uri_scheme = ''s3'', uri_raw = ''s3://b/k'', uri_bucket = ''b'', uri_key = ''k''\<rparr>"]
  show ?thesis by (simp add: sample_header)
qed






text \<open>
  What hash prints. When it exits with 0 the contracts load as validate loads them, and it prints
  one line per node, in the order of the relations: the relation, a tab, and the content hash of the
  node's entry of the wire contract.
\<close>

theorem cli_hash_prints_nodes:
  assumes "cli_main t (HashNodes d repo_root dialect) s = Some (Inr 0, s')"
  shows "\<exists>nodes entries. cli_main t (Validate d dialect) u = Some (Inr 0, u)
    \<and> load_contracts t d dialect = Inr nodes \<and> map entry_relation entries = sort (map relation nodes)
    \<and> cs_out s' = cs_out s @ map hash_line entries
    \<and> list_all (\<lambda>e. \<exists>n. n \<in> set nodes
        \<and> wire_node (tl_fs t) (tl_python t) (tl_decode t) (path_of repo_root) n = Some (Inr e)) entries"
  by (rule cli_hash_prints [OF assms])

theorem cli_hash_prints_nodes_witness:
  "\<exists>s' e. cli_main sample_tools (HashNodes ''c'' ''/repo'' None) sample_cli = Some (Inr 0, s')
    \<and> cs_out s' = [hash_line e] \<and> entry_relation e = ''s.t''"
proof -
  obtain s' where run: "cli_main sample_tools (HashNodes ''c'' ''/repo'' None) sample_cli = Some (Inr 0, s')"
    using sample_hash_run by blast
  have rel: "relation sample_node = ''s.t''" by code_simp
  from cli_hash_prints_nodes [OF run, of sample_cli] obtain nodes entries where
    "load_contracts sample_tools ''c'' None = Inr nodes" "map entry_relation entries = sort (map relation nodes)"
    "cs_out s' = cs_out sample_cli @ map hash_line entries" by blast
  then have "map entry_relation entries = [''s.t'']" "cs_out s' = map hash_line entries"
    by (auto simp: sample_load_contracts rel sample_cli_def)
  with run show ?thesis by auto
qed





text \<open>
  C39: the statements Trino is sent mean what the adapter means. Whatever the names of the catalog, the
  schema, the table and the columns are, with quotes, separators or keywords inside, the reference reader
  of SQL reads each write statement back as the statement on exactly those tables and columns.
\<close>

theorem trino_statements_read_back:
  "read_statement (rename_sql (ref_text c s a) (ref_text c s b)) = Some (RenameTable (c, s, a) (c, s, b))
   \<and> read_statement (create_like_sql (ref_text c s a) (ref_text c s b) location)
       = Some (CreateTableLike (c, s, a) (c, s, b) location)
   \<and> read_statement (drop_sql (ref_text c s a)) = Some (DropTable (c, s, a))
   \<and> read_statement (insert_values_sql (ref_text c s a) (column_list columns) (length columns) n)
       = Some (InsertValues (c, s, a) columns n)
   \<and> (case append_statement (ref_text c s a) (ref_text c s b) columns of
        Inr sql \<Rightarrow> read_statement sql = Some (InsertSelect (c, s, a) columns (c, s, b)) | Inl e \<Rightarrow> [] \<in> set columns)
   \<and> (case merge_statement (ref_text c s a) (ref_text c s b) columns key of
        Inr sql \<Rightarrow> read_statement sql = Some (MergeInto (c, s, a) (c, s, b) columns key)
      | Inl e \<Rightarrow> [] \<in> set columns \<union> set key)"
  using read_append_text [of c s a c s b columns] read_merge_text [of c s a c s b columns key]
  by (auto simp: read_rename_text read_create_text read_drop_text read_insert_values_text
      dest: append_statement_Inl merge_statement_Inl split: sum.splits)


section \<open>The DuckDB adapter\<close>

text \<open>
  C29: the writes of the DuckDB adapter, over any connection that keeps its laws. A load that returns has
  replaced the rows of the table by exactly the rows of the data, an append has added them, an upsert has
  merged them; the table was there, and every other table is as it was. A write that raises, at whatever
  statement and whether or not its rollback works, has changed no committed table.
\<close>

theorem duck_writes_exact:
  assumes "duck_catalog ss td sleep tables working in_tx view merged read_only"
  shows "(case lw_load (session_warehouse td sleep parse ss) s t data w of
       (Inr x, u) \<Rightarrow> tables w (fold_key s t) \<noteq> None \<and> tables u = (tables w)(fold_key s t \<mapsto> lake_rows data)
     | (Inl e, u) \<Rightarrow> tables u = tables w)
   \<and> (case lw_append (session_warehouse td sleep parse ss) s t data w of
       (Inr x, u) \<Rightarrow> if num_rows data = 0 then u = w
         else \<exists>old. tables w (fold_key s t) = Some old \<and> tables u = (tables w)(fold_key s t \<mapsto> old + lake_rows data)
     | (Inl e, u) \<Rightarrow> tables u = tables w)
   \<and> (case lw_upsert_rows (session_warehouse td sleep parse ss) s t data key w of
       (Inr x, u) \<Rightarrow> if num_rows data = 0 then u = w
         else \<exists>old. tables w (fold_key s t) = Some old
           \<and> tables u = (tables w)(fold_key s t \<mapsto> merged (column_names data) key (lake_rows data) old)
     | (Inl e, u) \<Rightarrow> tables u = tables w)"
proof -
  note port = duck_catalog.port_laws [OF assms, where parse = parse]
  show ?thesis
  proof (cases "num_rows data = 0")
    case True
    then show ?thesis using lake_port.load_wp [OF port refl, where s = s and t = t and data = data and w = w]
      by (simp add: wp_def lw_append_def lw_upsert_rows_def op_return_def split: prod.splits sum.splits)
  next
    case False
    then show ?thesis
      using lake_port.load_wp [OF port refl, where s = s and t = t and data = data and w = w]
        lake_port.append_wp [OF port refl False, where s = s and t = t and w = w]
        lake_port.upsert_wp [OF port refl False, where s = s and t = t and w = w and key = key]
      by (simp add: wp_def split: prod.splits sum.splits)
  qed
qed

theorem duck_writes_exact_witness:
  "\<exists>u. lw_load (session_warehouse sample_tmp (\<lambda>d w. w) sample_parser sample_lake_session) ''s'' ''t'' sample_rows_table sample_lake_world = (Inr (), u)
     \<and> look (lk_com u) = (look (lk_com sample_lake_world))(fold_key ''s'' ''t'' \<mapsto> lake_rows sample_rows_table)"
proof -
  have "fst (lw_load (session_warehouse sample_tmp (\<lambda>d w. w) sample_parser sample_lake_session) ''s'' ''t'' sample_rows_table sample_lake_world) = Inr ()"
    by code_simp
  then obtain u where run: "lw_load (session_warehouse sample_tmp (\<lambda>d w. w) sample_parser sample_lake_session) ''s'' ''t'' sample_rows_table sample_lake_world = (Inr (), u)"
    by (metis prod.collapse)
  from duck_writes_exact [OF sample_lake.duck_catalog_axioms, where parse = sample_parser and s = "''s''" and t = "''t''" and data = sample_rows_table
      and w = sample_lake_world] run
  show ?thesis by auto
qed





text \<open>
  C35: the layout that a node's config asks for. One that is accepted names declared columns only, partitions
  by a known transform that fits the column's type, with a bucket count exactly for \<^verbatim>\<open>bucket\<close>, repeats
  no partition and no sort column; and the check before the run, which knows the names alone, accepts it as
  the same layout. One that is refused raises a \<^verbatim>\<open>ValueError\<close>, and then the early check refuses it too or
  the transform of a key does not fit its column's type.
\<close>

theorem duck_layout_sound:
  "case layout_from_config config types of
     Inr l \<Rightarrow> layout_ok types l \<and> layout_from_config config (names_only types) = Inr l
   | Inl e \<Rightarrow> exn_kind e = ValueError
       \<and> \<not> (\<exists>l. layout_from_config config (names_only types) = Inr l \<and> list_all (temporal_ok types) (tl_partition l))"
proof (cases "layout_from_config config types")
  case (Inr l)
  then show ?thesis using from_config_sound [OF Inr] early_layout_weaker [of config types l] by simp
next
  case (Inl e)
  have "\<not> (layout_from_config config (names_only types) = Inr l \<and> list_all (temporal_ok types) (tl_partition l))" for l
    using Inl early_layout_weaker [of config types l] by simp
  with from_config_error_kind [OF Inl] Inl show ?thesis by auto
qed

text \<open>
  C34: the credentials of the catalog reach it as they are. Whatever characters the settings of the environment
  have, the \<^verbatim>\<open>ATTACH\<close> statement is read by DuckDB and libpq as these keywords and values, this catalog,
  data path and inlining limit; with a passfile no keyword carries the password, and libpq reads the password
  back from the passfile's line.
\<close>

theorem duck_credentials_read_back:
  assumes "lake_settings_from_env env = Inr s"
  shows "read_attach (attach_statement s catalog pf) = Some (conn_keywords s pf, catalog, ls_data_path s, ls_inlining_limit s)
    \<and> map_of (conn_keywords s (Some (c # path))) ''password'' = None
    \<and> map_of (conn_keywords s (Some (c # path))) ''passfile'' = Some (c # path)
    \<and> map_of (conn_keywords s None) ''password'' = Some (ls_password s)
    \<and> map_of (conn_keywords s pf) ''user'' = Some (ls_user s)
    \<and> (can_store (ls_password s) \<longrightarrow> read_passfile_line (passfile_line (ls_password s)) = Some (ls_password s))"
  using read_attach_text settings_limit [OF assms] read_passfile_line_text
  by (simp add: conn_keywords_def is_set_def)

theorem duck_credentials_read_back_witness:
  "map_of (conn_keywords sample_lake_settings None) ''password'' = Some (''p'' @ [quote1] @ '' w:'' @ [backslash])
   \<and> map_option (map fst \<circ> fst) (read_attach (attach_statement sample_lake_settings ''lake'' None))
       = Some [''host'', ''port'', ''dbname'', ''user'', ''password'']"
  using duck_credentials_read_back [OF sample_lake_settings, where catalog = "''lake''" and pf = None]
  by (simp add: sample_lake_settings_def) (simp add: conn_keywords_def is_set_def)





text \<open>
  C31: what a validation run leaves behind, end to end over DuckDB. From the environment to the exit code, over
  any connection that keeps its laws: a run that does not exit with 0 has changed no table; one that does has
  made the one table of its operation new and empty, or dropped the tables of the candidate schema, and
  changed no other. The table is always in the schema the run was given.
\<close>

theorem duck_validation_exact:
  assumes "rn_entry_points rn = [(''duckdb'', Inr (Some (duck_required_env,
      duckdb_validation_from_env m td sleep parse refuse env)))]"
    and "\<And>settings. lake_settings_from_env env = Inr settings \<Longrightarrow>
      wp (duck_connect m td env sleep settings)
        (\<lambda>ss u. tables u = tables (vs_world s) \<and> \<not> in_tx u
           \<and> duck_validation ss td sleep parse tables working in_tx view merged read_only)
        (\<lambda>_ u. tables u = tables (vs_world s)) (vs_world s)"
    and "runner_main rn env s = (code, s')"
  shows "tables (vs_world s') = (case gather rn env of
      Inr j \<Rightarrow> if code = 0 then validated j (tables (vs_world s)) else tables (vs_world s)
    | Inl _ \<Rightarrow> tables (vs_world s))"
  by (rule validation_run_exact [OF assms])

theorem duck_validation_exact_witness:
  "\<exists>s'. runner_main sample_lake_runner sample_clone_env \<lparr>vs_world = sample_lake_world, vs_calls = [], vs_out = []\<rparr> = (0, s')
     \<and> lake_tables_of (vs_world s') = (lake_tables_of sample_lake_world)(fold_key ''cand'' ''t'' \<mapsto> {#})"
proof -
  let ?s = "\<lparr>vs_world = sample_lake_world, vs_calls = [], vs_out = []\<rparr> :: lake_world vstate"
  let ?run = "runner_main sample_lake_runner sample_clone_env ?s"
  have "fst ?run = 0" by code_simp
  then have run: "?run = (0, snd ?run)" by (metis prod.collapse)
  have engine: "rn_entry_points sample_lake_runner = [(''duckdb'', Inr (Some (duck_required_env,
      duckdb_validation_from_env sample_duck sample_tmp (\<lambda>d w. w) sample_parser (\<lambda>v. Exn TypeError ''no string'') sample_clone_env)))]"
    by (simp add: sample_lake_runner_def)
  have connect: "wp (duck_connect sample_duck sample_tmp sample_clone_env (\<lambda>d w. w) settings)
      (\<lambda>ss u. lake_tables_of u = lake_tables_of (vs_world ?s) \<and> \<not> lk_tx u
         \<and> duck_validation ss sample_tmp (\<lambda>d w. w) sample_parser lake_tables_of lake_working_of lk_tx lake_view_of lake_merge (\<lambda>sql. True))
      (\<lambda>_ u. lake_tables_of u = lake_tables_of (vs_world ?s)) (vs_world ?s)" for settings
    by (rule wp_mono [OF sample_connects]) (auto simp: sample_lake_world_def intro: sample_open_validation)
  have job: "gather sample_lake_runner sample_clone_env
      = Inr \<lparr>vj_schema = ''cand'', vj_table = ''t'', vj_unique_id = ''model.t'', vj_op = CloneFromProd ''S''\<rparr>"
    by code_simp
  from duck_validation_exact [OF engine connect run] show ?thesis
    using run by (intro exI [of _ "snd ?run"]) (simp add: job validated_def)
qed



section \<open>Releases\<close>



end
